(* ===== verification/Prelude.thy ===== *)
theory Prelude
  imports Main "HOL-Library.Word"
begin

text \<open>
  Shared vocabulary of the EspSimpleWifiHandler development: the C strings the handler
  keeps as raw \<open>const char *\<close> pointers, the \<open>strlen_P\<close> it measures them with, the
  32-bit mode bitmask of the radio driver, and the collection of facts the component
  theories hand to the simplifier.
\<close>

named_theorems handler_simps \<open>equations that unfold one handler operation\<close>
named_theorems quiet_rules \<open>steps that append effects without starting a join\<close>
named_theorems world_ok_rules \<open>operations that keep the world invariant\<close>

subsection \<open>C strings\<close>

text \<open>
  The handler stores \<open>const char *\<close> pointers without copying them. A null pointer is
  \<open>None\<close>; a non-null pointer is the byte sequence it points at. The C library sees the
  bytes up to the first NUL only.
\<close>

type_synonym cstr = "string option"

definition c_string :: "string \<Rightarrow> string" where
  "c_string s = takeWhile (\<lambda>c. c \<noteq> CHR 0x00) s"

definition strlen_P :: "string \<Rightarrow> nat" where
  "strlen_P s = length (c_string s)"

text \<open>The test \<open>p && strlen_P(p) > 0\<close> the handler applies to its pointers.\<close>

definition nonempty_cstr :: "cstr \<Rightarrow> bool" where
  "nonempty_cstr p = (case p of None \<Rightarrow> False | Some s \<Rightarrow> 0 < strlen_P s)"

text \<open>A well-formed C string argument: non-empty, and no NUL inside it.\<close>

definition c_arg :: "string \<Rightarrow> bool" where
  "c_arg s \<longleftrightarrow> s \<noteq> [] \<and> CHR 0x00 \<notin> set s"

subsection \<open>The radio mode bitmask\<close>

text \<open>
  \<open>wifi_mode_t\<close> (ESP32) and \<open>WiFiMode_t\<close> (ESP8266) are C enums used as bitmasks:
  \<open>WIFI_OFF = 0\<close>, \<open>WIFI_STA = 1\<close>, \<open>WIFI_AP = 2\<close>, \<open>WIFI_AP_STA = 3\<close>. They have the
  width of an \<open>int\<close>, 32 bits.
\<close>

type_synonym wifi_mode = "32 word"

unbundle bit_operations_syntax

abbreviation WIFI_OFF :: wifi_mode where "WIFI_OFF \<equiv> 0"
abbreviation WIFI_STA :: wifi_mode where "WIFI_STA \<equiv> 1"
abbreviation WIFI_AP :: wifi_mode where "WIFI_AP \<equiv> 2"
abbreviation WIFI_AP_STA :: wifi_mode where "WIFI_AP_STA \<equiv> 3"

subsection \<open>Facts about strings and modes\<close>

lemma if_sum_eq [simp]:
  "((if c then Inr a else Inl b) = Inr x) \<longleftrightarrow> c \<and> a = x"
  "((if c then Inr a else Inl b) = Inl y) \<longleftrightarrow> \<not> c \<and> b = y"
  "map_sum f g (if c then Inr a else Inl b) = (if c then Inr (g a) else Inl (f b))"
  by simp_all

lemma strlen_P_pos_iff [simp]: "0 < strlen_P s \<longleftrightarrow> s \<noteq> [] \<and> hd s \<noteq> CHR 0x00"
  by (cases s) (simp_all add: strlen_P_def c_string_def)

lemma nonempty_cstr_simps [simp]:
  "\<not> nonempty_cstr None"
  "nonempty_cstr (Some s) \<longleftrightarrow> s \<noteq> [] \<and> hd s \<noteq> CHR 0x00"
  by (simp_all add: nonempty_cstr_def)

lemma c_string_nonempty [simp]: "nonempty_cstr (Some s) \<Longrightarrow> c_string s \<noteq> []"
  by (cases s) (simp_all add: c_string_def)

lemma c_arg_c_string [simp]: "nonempty_cstr (Some s) \<Longrightarrow> c_arg (c_string s)"
  by (cases s) (auto simp: c_arg_def c_string_def dest: set_takeWhileD)

text \<open>The test \<open>!(m & WIFI_MODE_STA)\<close> reads bit 0 of the mode.\<close>

lemma sta_bit_iff [simp]: "(m AND WIFI_STA = 0) \<longleftrightarrow> \<not> bit m 0"
  by (simp add: and_one_eq bit_0 flip: even_iff_mod_2_eq_zero)

lemma sta_bit_or [simp]: "bit (m OR WIFI_STA) 0"
  by (simp add: bit_or_iff)

text \<open>A valid mode is one of the four enum values, and the two bit operations the driver
  applies to it keep it valid.\<close>

lemma wifi_mode_cases:
  "m \<le> WIFI_AP_STA \<Longrightarrow> m = WIFI_OFF \<or> m = WIFI_STA \<or> m = WIFI_AP \<or> m = WIFI_AP_STA"
  by (auto simp: word_le_nat_alt unat_arith_simps)

lemma mode_or_sta_le [intro]: "m \<le> WIFI_AP_STA \<Longrightarrow> m OR WIFI_STA \<le> WIFI_AP_STA"
  by (drule wifi_mode_cases) auto

lemma mode_and_le [intro]: "m \<le> WIFI_AP_STA \<Longrightarrow> m AND x \<le> WIFI_AP_STA"
  using word_and_le2 order_trans by blast

end
