(* ===== verification/Platform.thy ===== *)
theory Platform
  imports Prelude
begin

text \<open>
  The platform services the handler calls and never implements: the radio driver of the
  Arduino cores (\<open>WiFi.status\<close>, \<open>WiFi.begin\<close>, \<open>WiFi.disconnect\<close>, \<open>WiFi.mode\<close>,
  \<open>WiFi.getMode\<close>, \<open>WiFi.setHostname\<close>/\<open>WiFi.hostname\<close>) and the one-shot timers
  (ESP8266 \<open>Ticker\<close>, ESP32 FreeRTOS software timers). They are modelled from the
  contracts of spec section 6: the driver as a record of what the handler can observe or
  change, a datatype of the calls the handler makes and a function that applies one call;
  a timer as an armed flag and a delay.
\<close>

subsection \<open>Targets\<close>

text \<open>The source is compiled for one of two targets, selected by \<open>#ifdef ESP8266\<close>.\<close>

datatype platform = ESP8266 | ESP32

subsection \<open>Radio driver\<close>

text \<open>The station status of \<open>WiFi.status()\<close> (the \<open>wl_status_t\<close> values of both cores).\<close>

datatype wl_status =
    WL_IDLE_STATUS
  | WL_NO_SSID_AVAIL
  | WL_CONNECTED
  | WL_CONNECT_FAILED
  | WL_CONNECTION_LOST
  | WL_DISCONNECTED

text \<open>
  The driver state: the station status, the mode bitmask, the stored station
  configuration (network name and optional key), the hostname, whether a join started by
  \<open>WiFi.begin\<close> is in progress, and whether the driver still owes a
  ``station disconnected'' event for an association or attempt it tore down.
\<close>

record radio =
  status :: wl_status
  mode :: wifi_mode
  config :: "(string \<times> string option) option"
  host :: "string option"
  attempting :: bool
  lost_pending :: bool

text \<open>
  The driver calls the handler makes. \<open>Begin ssid pw\<close> is \<open>WiFi.begin(ssid, pw)\<close>, or
  \<open>WiFi.begin(ssid)\<close> when \<open>pw = None\<close>; \<open>Disconnect wifioff erase\<close> is
  \<open>WiFi.disconnect(wifioff, eraseap)\<close> (on ESP8266 the stored configuration is always
  erased); \<open>SetMode m\<close> is \<open>WiFi.mode(m)\<close>.
\<close>

datatype radio_call =
    SetHostname string
  | Begin string "string option"
  | Disconnect bool bool
  | SetMode wifi_mode

definition radio_begin :: "string \<Rightarrow> string option \<Rightarrow> radio \<Rightarrow> radio" where
  "radio_begin ssid pw r =
     r\<lparr>mode := mode r OR WIFI_STA, config := Some (ssid, pw), attempting := True\<rparr>"

definition radio_disconnect :: "bool \<Rightarrow> bool \<Rightarrow> radio \<Rightarrow> radio" where
  "radio_disconnect wifioff erase r =
     r\<lparr>status := WL_DISCONNECTED,
       mode := (if wifioff then mode r AND NOT WIFI_STA else mode r),
       config := (if erase then None else config r),
       attempting := False,
       lost_pending := (status r = WL_CONNECTED \<or> attempting r \<or> lost_pending r)\<rparr>"

fun radio_apply :: "radio_call \<Rightarrow> radio \<Rightarrow> radio" where
  "radio_apply (SetHostname h) r = r\<lparr>host := Some h\<rparr>"
| "radio_apply (Begin ssid pw) r = radio_begin ssid pw r"
| "radio_apply (Disconnect wifioff erase) r = radio_disconnect wifioff erase r"
| "radio_apply (SetMode m) r = r\<lparr>mode := m\<rparr>"

text \<open>
  The two asynchronous driver events the handler subscribes to: the station got an
  address (\<open>onStationModeGotIP\<close>, \<open>SYSTEM_EVENT_STA_GOT_IP\<close>) and the station lost or
  failed its association (\<open>onStationModeDisconnected\<close>,
  \<open>SYSTEM_EVENT_STA_DISCONNECTED\<close>). The driver raises the first only for a join in
  progress and the second only when it is associated, joining, or owes the report.
\<close>

definition radio_got_ip :: "radio \<Rightarrow> radio" where
  "radio_got_ip r = r\<lparr>status := WL_CONNECTED, attempting := False\<rparr>"

definition radio_sta_disconnected :: "radio \<Rightarrow> radio" where
  "radio_sta_disconnected r =
     r\<lparr>status := WL_DISCONNECTED, attempting := False, lost_pending := False\<rparr>"

definition got_ip_possible :: "radio \<Rightarrow> bool" where
  "got_ip_possible r \<longleftrightarrow> attempting r \<and> config r \<noteq> None"

definition sta_disconnected_possible :: "radio \<Rightarrow> bool" where
  "sta_disconnected_possible r \<longleftrightarrow>
     status r = WL_CONNECTED \<or> attempting r \<or> lost_pending r"

text \<open>A radio fresh from power-up: idle, in station mode, nothing stored.\<close>

definition radio_boot :: radio where
  "radio_boot = \<lparr>status = WL_IDLE_STATUS, mode = WIFI_STA, config = None, host = None,
                  attempting = False, lost_pending = False\<rparr>"

subsection \<open>One-shot timers\<close>

text \<open>
  Both timer services are one-shot: \<open>Ticker::once\<close> and \<open>xTimerStart\<close> arm the timer
  (re-arming an armed timer restarts it), \<open>Ticker::detach\<close> and \<open>xTimerStop\<close> disarm
  it, and an expiry runs the callback once and leaves the timer disarmed.
\<close>

record ticker =
  armed :: bool
  delay_s :: nat

definition ticker_new :: "nat \<Rightarrow> ticker" where
  "ticker_new d = \<lparr>armed = False, delay_s = d\<rparr>"

definition ticker_start :: "nat \<Rightarrow> ticker \<Rightarrow> ticker" where
  "ticker_start d t = t\<lparr>armed := True, delay_s := d\<rparr>"

definition ticker_stop :: "ticker \<Rightarrow> ticker" where
  "ticker_stop t = t\<lparr>armed := False\<rparr>"

lemma ticker_simps [simp, handler_simps]:
  "armed (ticker_new d) = False" "delay_s (ticker_new d) = d"
  "armed (ticker_start d t) = True" "delay_s (ticker_start d t) = d"
  "armed (ticker_stop t) = False" "delay_s (ticker_stop t) = delay_s t"
  by (simp_all add: ticker_new_def ticker_start_def ticker_stop_def)

subsection \<open>Facts about the driver\<close>

lemma radio_apply_status [simp]:
  "status (radio_apply c r) =
     (case c of Disconnect _ _ \<Rightarrow> WL_DISCONNECTED | _ \<Rightarrow> status r)"
  by (cases c) (simp_all add: radio_begin_def radio_disconnect_def)

lemma radio_apply_mode [simp]:
  "mode (radio_apply c r) =
     (case c of Begin _ _ \<Rightarrow> mode r OR WIFI_STA
      | Disconnect wifioff _ \<Rightarrow> (if wifioff then mode r AND NOT WIFI_STA else mode r)
      | SetMode m \<Rightarrow> m | _ \<Rightarrow> mode r)"
  by (cases c) (simp_all add: radio_begin_def radio_disconnect_def)

lemma radio_apply_config [simp]:
  "config (radio_apply c r) =
     (case c of Begin s p \<Rightarrow> Some (s, p)
      | Disconnect _ erase \<Rightarrow> (if erase then None else config r) | _ \<Rightarrow> config r)"
  by (cases c) (simp_all add: radio_begin_def radio_disconnect_def)

lemma radio_apply_attempting [simp]:
  "attempting (radio_apply c r) =
     (case c of Begin _ _ \<Rightarrow> True | Disconnect _ _ \<Rightarrow> False | _ \<Rightarrow> attempting r)"
  by (cases c) (simp_all add: radio_begin_def radio_disconnect_def)

lemma radio_apply_lost_pending [simp]:
  "lost_pending (radio_apply c r) =
     (case c of Disconnect _ _ \<Rightarrow> status r = WL_CONNECTED \<or> attempting r \<or> lost_pending r
      | _ \<Rightarrow> lost_pending r)"
  by (cases c) (simp_all add: radio_begin_def radio_disconnect_def)

lemma radio_apply_host [simp]:
  "host (radio_apply c r) = (case c of SetHostname h \<Rightarrow> Some h | _ \<Rightarrow> host r)"
  by (cases c) (simp_all add: radio_begin_def radio_disconnect_def)

lemma radio_event_simps [simp]:
  "status (radio_got_ip r) = WL_CONNECTED" "attempting (radio_got_ip r) = False"
  "mode (radio_got_ip r) = mode r" "config (radio_got_ip r) = config r"
  "lost_pending (radio_got_ip r) = lost_pending r"
  "status (radio_sta_disconnected r) = WL_DISCONNECTED"
  "attempting (radio_sta_disconnected r) = False"
  "lost_pending (radio_sta_disconnected r) = False"
  "mode (radio_sta_disconnected r) = mode r"
  "config (radio_sta_disconnected r) = config r"
  by (simp_all add: radio_got_ip_def radio_sta_disconnected_def)

lemma radio_begin_simps [simp]:
  "status (radio_begin ssid pw r) = status r"
  "mode (radio_begin ssid pw r) = mode r OR WIFI_STA"
  "config (radio_begin ssid pw r) = Some (ssid, pw)"
  "host (radio_begin ssid pw r) = host r"
  "attempting (radio_begin ssid pw r) = True"
  "lost_pending (radio_begin ssid pw r) = lost_pending r"
  by (simp_all add: radio_begin_def)

lemma radio_disconnect_simps [simp]:
  "status (radio_disconnect wifioff erase r) = WL_DISCONNECTED"
  "mode (radio_disconnect wifioff erase r) =
     (if wifioff then mode r AND NOT WIFI_STA else mode r)"
  "config (radio_disconnect wifioff erase r) = (if erase then None else config r)"
  "host (radio_disconnect wifioff erase r) = host r"
  "attempting (radio_disconnect wifioff erase r) = False"
  "lost_pending (radio_disconnect wifioff erase r) =
     (status r = WL_CONNECTED \<or> attempting r \<or> lost_pending r)"
  by (simp_all add: radio_disconnect_def)

end
