(* ===== verification/Handler.thy ===== *)
theory Handler
  imports Platform
begin

text \<open>
  The class \<open>EspSimpleWifiHandler\<close> (src/src/EspSimpleWifiHandler.h and .cpp): its
  fields as a record, the observable effects of its methods (driver calls, user callback
  invocations, serial log lines) as a datatype, and each method as a function on a
  \<open>world\<close> that holds the object, the driver and the effects emitted so far. Methods that
  differ between the two targets take the \<open>platform\<close>.
\<close>

subsection \<open>State and effects\<close>

text \<open>A \<open>std::function\<close> the user registers, identified by a name.\<close>

type_synonym callback = nat

record handler =
  wifiSsid :: cstr
  wifiPassword :: cstr
  hostname :: cstr
  autoReconnect :: bool
  enableSerialLogs :: bool
  connectionEstablishedCallback :: "callback option"
  connectionLostCallback :: "callback option"
  wifiConnectTimer :: ticker
  firstConnectionTimer :: ticker

text \<open>The serial lines the methods print when logging is enabled.\<close>

datatype log_msg =
    MsgInitializing
  | MsgDisconnecting
  | MsgConnected
  | MsgLostConnection
  | MsgConnecting string
  | MsgNotConfigured
  | MsgAlreadyConnected

datatype effect = Call radio_call | Invoke callback | Serial log_msg

record world =
  obj :: handler
  wifi :: radio
  out :: "effect list"

definition WIFI_DELAY_BEFORE_FIRST_CONNECTION :: nat where
  "WIFI_DELAY_BEFORE_FIRST_CONNECTION = 3"

definition WIFI_DELAY_BETWEEN_CONNECTIONS :: nat where
  "WIFI_DELAY_BETWEEN_CONNECTIONS = 1"

subsection \<open>Primitive steps of the methods\<close>

definition emit :: "effect \<Rightarrow> world \<Rightarrow> world" where
  "emit e w = w\<lparr>out := out w @ [e]\<rparr>"

definition serial_log :: "log_msg \<Rightarrow> world \<Rightarrow> world" where
  "serial_log m w = (if enableSerialLogs (obj w) then emit (Serial m) w else w)"

definition radio_call :: "radio_call \<Rightarrow> world \<Rightarrow> world" where
  "radio_call c w = (emit (Call c) w)\<lparr>wifi := radio_apply c (wifi w)\<rparr>"

definition update_obj :: "(handler \<Rightarrow> handler) \<Rightarrow> world \<Rightarrow> world" where
  "update_obj f w = w\<lparr>obj := f (obj w)\<rparr>"

text \<open>The C library reads a non-null pointer up to its NUL.\<close>

definition cstr_val :: "cstr \<Rightarrow> string" where
  "cstr_val p = (case p of None \<Rightarrow> [] | Some s \<Rightarrow> c_string s)"

subsection \<open>Constructors and destructor\<close>

text \<open>
  \<open>EspSimpleWifiHandler(ssid, pw, hostname, autoConnect)\<close>: the fields from the
  arguments, the two timers created (on ESP32 with their periods, on ESP8266 the
  \<open>Ticker\<close>s get a delay only when armed), and with \<open>autoConnect\<close> the first-connection
  timer armed. The registration of the two driver events is the \<open>registered\<close> flag of
  the system theory.
\<close>

definition construct ::
  "platform \<Rightarrow> cstr \<Rightarrow> cstr \<Rightarrow> cstr \<Rightarrow> bool \<Rightarrow> radio \<Rightarrow> world" where
  "construct p ssid pw hn autoConnect r =
     (let d0 = (\<lambda>d. case p of ESP32 \<Rightarrow> d | ESP8266 \<Rightarrow> 0);
          h = \<lparr>wifiSsid = ssid, wifiPassword = pw, hostname = hn,
               autoReconnect = True, enableSerialLogs = False,
               connectionEstablishedCallback = None, connectionLostCallback = None,
               wifiConnectTimer = ticker_new (d0 WIFI_DELAY_BETWEEN_CONNECTIONS),
               firstConnectionTimer = ticker_new (d0 WIFI_DELAY_BEFORE_FIRST_CONNECTION)\<rparr>;
          h' = (if autoConnect
                then h\<lparr>firstConnectionTimer :=
                         ticker_start WIFI_DELAY_BEFORE_FIRST_CONNECTION
                           (firstConnectionTimer h)\<rparr>
                else h)
      in \<lparr>obj = h', wifi = r, out = []\<rparr>)"

text \<open>The default constructor delegates with no credentials and no auto-connect.\<close>

definition construct_default :: "platform \<Rightarrow> radio \<Rightarrow> world" where
  "construct_default p r = construct p None None None False r"

subsection \<open>Private helpers\<close>

text \<open>\<open>_canConnectToWifi\<close>: the result and the world after its log line.\<close>

definition isConnected :: "world \<Rightarrow> bool" where
  "isConnected w \<longleftrightarrow> status (wifi w) = WL_CONNECTED"

definition canConnectToWifi :: "world \<Rightarrow> bool \<times> world" where
  "canConnectToWifi w =
     (if \<not> nonempty_cstr (wifiSsid (obj w)) then (False, serial_log MsgNotConfigured w)
      else if isConnected w then (False, serial_log MsgAlreadyConnected w)
      else (True, w))"

text \<open>The two-line block that stops both timers (in \<open>beginConnection\<close> and \<open>disconnect\<close>).\<close>

definition stop_timers :: "world \<Rightarrow> world" where
  "stop_timers w =
     update_obj (\<lambda>h. h\<lparr>wifiConnectTimer := ticker_stop (wifiConnectTimer h)\<rparr>)
       (update_obj (\<lambda>h. h\<lparr>firstConnectionTimer := ticker_stop (firstConnectionTimer h)\<rparr>) w)"

text \<open>
  \<open>_reset\<close>. On ESP8266: \<open>WiFi.disconnect(true)\<close> then \<open>WiFi.mode(WIFI_STA)\<close>. On
  ESP32: read the mode; if the station bit is clear switch to station mode, disconnect
  erasing the stored configuration, and if the bit was clear restore the mode read.
\<close>

definition reset :: "platform \<Rightarrow> world \<Rightarrow> world" where
  "reset p w =
     (case p of
        ESP8266 \<Rightarrow> radio_call (SetMode WIFI_STA) (radio_call (Disconnect True True) w)
      | ESP32 \<Rightarrow>
          (let m = mode (wifi w);
               w1 = (if m AND WIFI_STA = 0 then radio_call (SetMode WIFI_STA) w else w);
               w2 = radio_call (Disconnect False True) w1
           in if m AND WIFI_STA = 0 then radio_call (SetMode m) w2 else w2))"

text \<open>\<open>_scheduleConnection\<close>: reset the radio, then arm the connect timer.\<close>

definition scheduleConnection :: "platform \<Rightarrow> world \<Rightarrow> world" where
  "scheduleConnection p w =
     update_obj (\<lambda>h. h\<lparr>wifiConnectTimer :=
                         ticker_start WIFI_DELAY_BETWEEN_CONNECTIONS (wifiConnectTimer h)\<rparr>)
       (reset p w)"

text \<open>
  \<open>_connect\<close>, run by the connect timer: re-check, log, and ask the driver to join with
  the key when the password pointer is set and non-empty, without one otherwise.
\<close>

definition connect :: "world \<Rightarrow> world" where
  "connect w =
     (case canConnectToWifi w of
        (False, w') \<Rightarrow> w'
      | (True, w') \<Rightarrow>
          (let h = obj w';
               w1 = serial_log (MsgConnecting (cstr_val (wifiSsid h))) w'
           in if nonempty_cstr (wifiPassword h)
              then radio_call (Begin (cstr_val (wifiSsid h)) (Some (cstr_val (wifiPassword h)))) w1
              else radio_call (Begin (cstr_val (wifiSsid h)) None) w1))"

subsection \<open>Public methods\<close>

text \<open>Setting the hostname, the middle block of \<open>beginConnection\<close>.\<close>

definition apply_hostname :: "world \<Rightarrow> world" where
  "apply_hostname w =
     (case hostname (obj w) of None \<Rightarrow> w | Some hn \<Rightarrow> radio_call (SetHostname (c_string hn)) w)"

text \<open>
  \<open>beginConnection\<close>: give up (after the log line) unless a connection may be
  started; otherwise stop both timers, log, apply the hostname if one is set, and
  schedule the connection.
\<close>

definition beginConnection :: "platform \<Rightarrow> world \<Rightarrow> world" where
  "beginConnection p w =
     (case canConnectToWifi w of
        (False, w') \<Rightarrow> w'
      | (True, w') \<Rightarrow>
          scheduleConnection p (apply_hostname (serial_log MsgInitializing (stop_timers w'))))"

text \<open>\<open>disconnect\<close>: log, clear \<open>_autoReconnect\<close>, stop both timers, reset the radio.\<close>

definition disconnect :: "platform \<Rightarrow> world \<Rightarrow> world" where
  "disconnect p w =
     reset p (stop_timers (update_obj (\<lambda>h. h\<lparr>autoReconnect := False\<rparr>)
                             (serial_log MsgDisconnecting w)))"

text \<open>The inline setters of the header.\<close>

definition enableDebuggingMessages :: "bool \<Rightarrow> world \<Rightarrow> world" where
  "enableDebuggingMessages b = update_obj (\<lambda>h. h\<lparr>enableSerialLogs := b\<rparr>)"

definition setWifiInfos :: "cstr \<Rightarrow> cstr \<Rightarrow> world \<Rightarrow> world" where
  "setWifiInfos ssid pw = update_obj (\<lambda>h. h\<lparr>wifiSsid := ssid, wifiPassword := pw\<rparr>)"

definition setHostname :: "cstr \<Rightarrow> world \<Rightarrow> world" where
  "setHostname hn = update_obj (\<lambda>h. h\<lparr>hostname := hn\<rparr>)"

definition setAutoReconnect :: "bool \<Rightarrow> world \<Rightarrow> world" where
  "setAutoReconnect b = update_obj (\<lambda>h. h\<lparr>autoReconnect := b\<rparr>)"

definition onConnectionEstablished :: "callback option \<Rightarrow> world \<Rightarrow> world" where
  "onConnectionEstablished cb = update_obj (\<lambda>h. h\<lparr>connectionEstablishedCallback := cb\<rparr>)"

definition onConnectionLost :: "callback option \<Rightarrow> world \<Rightarrow> world" where
  "onConnectionLost cb = update_obj (\<lambda>h. h\<lparr>connectionLostCallback := cb\<rparr>)"

subsection \<open>Event handlers\<close>

text \<open>\<open>_onWifiConnected\<close>: log, then call the established callback if one is set.\<close>

definition onWifiConnected :: "world \<Rightarrow> world" where
  "onWifiConnected w =
     (let w1 = serial_log MsgConnected w
      in case connectionEstablishedCallback (obj w1) of
           None \<Rightarrow> w1
         | Some cb \<Rightarrow> emit (Invoke cb) w1)"

text \<open>
  \<open>_onWifiDisconnected\<close>: log, schedule a connection if \<open>_autoReconnect\<close> is set,
  then call the lost callback if one is set.
\<close>

definition onWifiDisconnected :: "platform \<Rightarrow> world \<Rightarrow> world" where
  "onWifiDisconnected p w =
     (let w1 = serial_log MsgLostConnection w;
          w2 = (if autoReconnect (obj w1) then scheduleConnection p w1 else w1)
      in case connectionLostCallback (obj w2) of
           None \<Rightarrow> w2
         | Some cb \<Rightarrow> emit (Invoke cb) w2)"

subsection \<open>Effects that join a network\<close>

text \<open>
  The only driver call that starts a join is \<open>WiFi.begin\<close>. A step is \<open>quiet\<close> when
  it only appends effects and none of them is such a call.
\<close>

fun is_begin :: "effect \<Rightarrow> bool" where
  "is_begin (Call (Begin _ _)) = True"
| "is_begin _ = False"

definition quiet :: "world \<Rightarrow> world \<Rightarrow> bool" where
  "quiet w w' \<longleftrightarrow> (\<exists>xs. out w' = out w @ xs \<and> \<not> list_ex is_begin xs)"

subsection \<open>How the primitive steps change the world\<close>

lemma world_prims [simp, handler_simps]:
  "obj (emit e w) = obj w" "wifi (emit e w) = wifi w" "out (emit e w) = out w @ [e]"
  "obj (serial_log m w) = obj w" "wifi (serial_log m w) = wifi w"
  "out (serial_log m w) = out w @ (if enableSerialLogs (obj w) then [Serial m] else [])"
  "obj (radio_call c w) = obj w" "wifi (radio_call c w) = radio_apply c (wifi w)"
  "out (radio_call c w) = out w @ [Call c]"
  "obj (update_obj f w) = f (obj w)" "wifi (update_obj f w) = wifi w"
  "out (update_obj f w) = out w"
  by (simp_all add: emit_def serial_log_def radio_call_def update_obj_def)

lemma stop_timers_simps [simp, handler_simps]:
  "obj (stop_timers w) = (obj w)\<lparr>wifiConnectTimer := ticker_stop (wifiConnectTimer (obj w)),
      firstConnectionTimer := ticker_stop (firstConnectionTimer (obj w))\<rparr>"
  "wifi (stop_timers w) = wifi w" "out (stop_timers w) = out w"
  by (simp_all add: stop_timers_def)

lemma isConnected_simps [simp]:
  "isConnected (serial_log m w) = isConnected w"
  "isConnected (update_obj f w) = isConnected w"
  "isConnected (stop_timers w) = isConnected w"
  by (simp_all add: isConnected_def)

text \<open>The three outcomes of \<open>_canConnectToWifi\<close>, as the guarded methods see them.\<close>

lemma canConnectToWifi_cases:
  "\<not> nonempty_cstr (wifiSsid (obj w)) \<Longrightarrow>
     canConnectToWifi w = (False, serial_log MsgNotConfigured w)"
  "nonempty_cstr (wifiSsid (obj w)) \<Longrightarrow> isConnected w \<Longrightarrow>
     canConnectToWifi w = (False, serial_log MsgAlreadyConnected w)"
  "nonempty_cstr (wifiSsid (obj w)) \<Longrightarrow> \<not> isConnected w \<Longrightarrow> canConnectToWifi w = (True, w)"
  by (simp_all add: canConnectToWifi_def)

lemma beginConnection_cases:
  "\<not> nonempty_cstr (wifiSsid (obj w)) \<Longrightarrow>
     beginConnection p w = serial_log MsgNotConfigured w"
  "nonempty_cstr (wifiSsid (obj w)) \<Longrightarrow> isConnected w \<Longrightarrow>
     beginConnection p w = serial_log MsgAlreadyConnected w"
  "nonempty_cstr (wifiSsid (obj w)) \<Longrightarrow> \<not> isConnected w \<Longrightarrow>
     beginConnection p w =
       scheduleConnection p (apply_hostname (serial_log MsgInitializing (stop_timers w)))"
  by (simp_all add: beginConnection_def canConnectToWifi_cases)

lemma connect_cases:
  "\<not> nonempty_cstr (wifiSsid (obj w)) \<Longrightarrow> connect w = serial_log MsgNotConfigured w"
  "nonempty_cstr (wifiSsid (obj w)) \<Longrightarrow> isConnected w \<Longrightarrow>
     connect w = serial_log MsgAlreadyConnected w"
  "nonempty_cstr (wifiSsid (obj w)) \<Longrightarrow> \<not> isConnected w \<Longrightarrow>
     connect w =
       radio_call (Begin (cstr_val (wifiSsid (obj w)))
                     (if nonempty_cstr (wifiPassword (obj w))
                      then Some (cstr_val (wifiPassword (obj w))) else None))
         (serial_log (MsgConnecting (cstr_val (wifiSsid (obj w)))) w)"
  by (simp_all add: connect_def canConnectToWifi_cases Let_def)

subsection \<open>Resetting the radio\<close>

lemma reset_obj [simp]: "obj (reset p w) = obj w"
  by (simp add: reset_def Let_def split: platform.split)

text \<open>
  What \<open>_reset\<close> leaves in the driver: disconnected, nothing stored, no join in
  progress, a pending disconnection report if something was torn down; the mode is the
  one read on ESP32, and plain station mode on ESP8266.
\<close>

lemma reset_wifi:
  "wifi (reset p w) =
     (wifi w)\<lparr>status := WL_DISCONNECTED,
              mode := (case p of ESP8266 \<Rightarrow> WIFI_STA | ESP32 \<Rightarrow> mode (wifi w)),
              config := None, attempting := False,
              lost_pending := (status (wifi w) = WL_CONNECTED \<or> attempting (wifi w)
                               \<or> lost_pending (wifi w))\<rparr>"
  by (cases p) (simp_all add: reset_def Let_def radio_disconnect_def)

lemma reset_out:
  "out (reset p w) = out w @
     (case p of
        ESP8266 \<Rightarrow> [Call (Disconnect True True), Call (SetMode WIFI_STA)]
      | ESP32 \<Rightarrow>
          (if bit (mode (wifi w)) 0 then [Call (Disconnect False True)]
           else [Call (SetMode WIFI_STA), Call (Disconnect False True),
                 Call (SetMode (mode (wifi w)))]))"
  by (cases p) (simp_all add: reset_def Let_def)

lemma reset_radio_fields [simp]:
  "status (wifi (reset p w)) = WL_DISCONNECTED"
  "config (wifi (reset p w)) = None"
  "attempting (wifi (reset p w)) = False"
  "isConnected (reset p w) = False"
  by (simp_all add: reset_wifi isConnected_def)

lemma scheduleConnection_obj [simp]:
  "obj (scheduleConnection p w) =
     (obj w)\<lparr>wifiConnectTimer :=
               ticker_start WIFI_DELAY_BETWEEN_CONNECTIONS (wifiConnectTimer (obj w))\<rparr>"
  by (simp add: scheduleConnection_def)

lemma scheduleConnection_wifi_out [simp]:
  "wifi (scheduleConnection p w) = wifi (reset p w)"
  "out (scheduleConnection p w) = out (reset p w)"
  by (simp_all add: scheduleConnection_def)

lemma apply_hostname_simps [simp]:
  "obj (apply_hostname w) = obj w"
  "isConnected (apply_hostname w) = isConnected w"
  "mode (wifi (apply_hostname w)) = mode (wifi w)"
  "attempting (wifi (apply_hostname w)) = attempting (wifi w)"
  "config (wifi (apply_hostname w)) = config (wifi w)"
  "lost_pending (wifi (apply_hostname w)) = lost_pending (wifi w)"
  by (simp_all add: apply_hostname_def isConnected_def split: option.split)

lemma onWifiConnected_parts [simp]:
  "obj (onWifiConnected w) = obj w" "wifi (onWifiConnected w) = wifi w"
  by (simp_all add: onWifiConnected_def Let_def split: option.split)

lemma onWifiDisconnected_parts:
  "obj (onWifiDisconnected p w) =
     (if autoReconnect (obj w)
      then (obj w)\<lparr>wifiConnectTimer :=
                    ticker_start WIFI_DELAY_BETWEEN_CONNECTIONS (wifiConnectTimer (obj w))\<rparr>
      else obj w)"
  "wifi (onWifiDisconnected p w) = (if autoReconnect (obj w) then wifi (reset p w) else wifi w)"
  by (simp_all add: onWifiDisconnected_def Let_def reset_wifi split: option.split platform.split)

lemma onWifiDisconnected_no_retry:
  assumes "\<not> autoReconnect (obj w)"
  shows "obj (onWifiDisconnected p w) = obj w \<and> wifi (onWifiDisconnected p w) = wifi w
       \<and> out (onWifiDisconnected p w) = out w
           @ (if enableSerialLogs (obj w) then [Serial MsgLostConnection] else [])
           @ (case connectionLostCallback (obj w) of None \<Rightarrow> [] | Some cb \<Rightarrow> [Invoke cb])"
  using assms by (simp add: onWifiDisconnected_def split: option.split)

text \<open>
  The methods change only the two timers of the object (and \<open>disconnect\<close>
  \<open>_autoReconnect\<close>): every other field keeps its value.
\<close>

lemma obj_ops_fields:
  assumes c: "\<And>h t. f (h\<lparr>wifiConnectTimer := t\<rparr>) = f h"
    and i: "\<And>h t. f (h\<lparr>firstConnectionTimer := t\<rparr>) = f h"
  shows "f (obj (beginConnection p w)) = f (obj w)"
    and "f (obj (connect w)) = f (obj w)"
    and "f (obj (onWifiConnected w)) = f (obj w)"
    and "f (obj (onWifiDisconnected p w)) = f (obj w)"
proof -
  show "f (obj (beginConnection p w)) = f (obj w)"
    by (cases "nonempty_cstr (wifiSsid (obj w))"; cases "isConnected w")
       (simp_all add: beginConnection_cases c i)
  show "f (obj (connect w)) = f (obj w)"
    by (cases "nonempty_cstr (wifiSsid (obj w))"; cases "isConnected w")
       (simp_all add: connect_cases)
  show "f (obj (onWifiConnected w)) = f (obj w)"
    by simp
  show "f (obj (onWifiDisconnected p w)) = f (obj w)"
    by (simp add: onWifiDisconnected_parts c)
qed

lemma autoReconnect_ops [simp]:
  "autoReconnect (obj (beginConnection p w)) = autoReconnect (obj w)"
  "autoReconnect (obj (connect w)) = autoReconnect (obj w)"
  "autoReconnect (obj (disconnect p w)) = False"
  "autoReconnect (obj (onWifiDisconnected p w)) = autoReconnect (obj w)"
  using obj_ops_fields [of autoReconnect, simplified] by (simp_all add: disconnect_def)

lemma autoReconnect_setters [simp]:
  "autoReconnect (obj (setWifiInfos ssid pw w)) = autoReconnect (obj w)"
  "autoReconnect (obj (setHostname hn w)) = autoReconnect (obj w)"
  "autoReconnect (obj (setAutoReconnect b w)) = b"
  "autoReconnect (obj (onConnectionEstablished cb w)) = autoReconnect (obj w)"
  "autoReconnect (obj (onConnectionLost cb w)) = autoReconnect (obj w)"
  "autoReconnect (obj (enableDebuggingMessages b w)) = autoReconnect (obj w)"
  by (simp_all add: setWifiInfos_def setHostname_def setAutoReconnect_def
      onConnectionEstablished_def onConnectionLost_def enableDebuggingMessages_def)

subsection \<open>Which methods can start a join\<close>

lemma quiet_refl [quiet_rules]: "quiet w w"
  by (simp add: quiet_def)

lemma quiet_trans: "quiet w1 w2 \<Longrightarrow> quiet w2 w3 \<Longrightarrow> quiet w1 w3"
  by (fastforce simp: quiet_def)

lemma quiet_append:
  assumes "quiet w w'" and "out w'' = out w' @ ys" and "\<not> list_ex is_begin ys"
  shows "quiet w w''"
proof -
  from assms(1) obtain xs where "out w' = out w @ xs" and "\<not> list_ex is_begin xs"
    by (auto simp: quiet_def)
  with assms(2,3) show ?thesis
    by (auto simp: quiet_def intro!: exI [of _ "xs @ ys"])
qed

lemma quiet_prims [quiet_rules]:
  "quiet w w' \<Longrightarrow> quiet w (serial_log m w')"
  "quiet w w' \<Longrightarrow> \<not> is_begin e \<Longrightarrow> quiet w (emit e w')"
  "quiet w w' \<Longrightarrow> \<not> is_begin (Call c) \<Longrightarrow> quiet w (radio_call c w')"
  "quiet w w' \<Longrightarrow> quiet w (update_obj f w')"
  "quiet w w' \<Longrightarrow> quiet w (stop_timers w')"
proof -
  assume q: "quiet w w'"
  show "quiet w (serial_log m w')"
    by (rule quiet_append [OF q, where ys = "if enableSerialLogs (obj w') then [Serial m] else []"])
       simp_all
  show "\<not> is_begin e \<Longrightarrow> quiet w (emit e w')"
    by (rule quiet_append [OF q, where ys = "[e]"]) simp_all
  show "\<not> is_begin (Call c) \<Longrightarrow> quiet w (radio_call c w')"
    by (rule quiet_append [OF q, where ys = "[Call c]"]) simp_all
  show "quiet w (update_obj f w')"
    by (rule quiet_append [OF q, where ys = "[]"]) simp_all
  show "quiet w (stop_timers w')"
    by (rule quiet_append [OF q, where ys = "[]"]) simp_all
qed

lemma quiet_reset [quiet_rules]: "quiet w w' \<Longrightarrow> quiet w (reset p w')"
  unfolding reset_def Let_def by (auto intro!: quiet_rules split: platform.split)

lemma quiet_ops [quiet_rules]:
  "quiet w w' \<Longrightarrow> quiet w (scheduleConnection p w')"
  "quiet w w' \<Longrightarrow> quiet w (apply_hostname w')"
  by (auto simp: scheduleConnection_def apply_hostname_def intro!: quiet_rules split: option.split)

lemma quiet_methods:
  "quiet w (beginConnection p w)"
  "quiet w (disconnect p w)"
  "quiet w (onWifiConnected w)"
  "quiet w (onWifiDisconnected p w)"
  "\<not> nonempty_cstr (wifiSsid (obj w)) \<or> isConnected w \<Longrightarrow> quiet w (connect w)"
  by (auto simp: beginConnection_def canConnectToWifi_def disconnect_def onWifiConnected_def
        onWifiDisconnected_def connect_def Let_def intro!: quiet_rules quiet_refl split: option.split)


lemma quiet_no_begin:
  assumes "quiet w w'"
  shows "Call (Begin a b) \<notin> set (drop (length (out w)) (out w'))"
proof -
  from assms obtain xs where "out w' = out w @ xs" and "\<not> list_ex is_begin xs"
    by (auto simp: quiet_def)
  moreover have "is_begin (Call (Begin a b))" by simp
  ultimately show ?thesis by (auto simp: list_ex_iff)
qed

lemma quiet_setters:
  "quiet w (setWifiInfos ssid pw w)" "quiet w (setHostname hn w)"
  "quiet w (setAutoReconnect b w)" "quiet w (onConnectionEstablished cb w)"
  "quiet w (onConnectionLost cb w)" "quiet w (enableDebuggingMessages b w)"
  by (simp_all add: setWifiInfos_def setHostname_def setAutoReconnect_def
      onConnectionEstablished_def onConnectionLost_def enableDebuggingMessages_def
      quiet_rules)

lemma quiet_driver: "quiet w w' \<Longrightarrow> quiet w (w'\<lparr>wifi := r\<rparr>)"
  by (simp add: quiet_def)

lemma quiet_trans_driver: "quiet (w\<lparr>wifi := r\<rparr>) w' \<Longrightarrow> quiet w w'"
  by (simp add: quiet_def)

text \<open>The equations that evaluate a concrete object.\<close>

lemmas world_eval = construct_def radio_boot_def Let_def isConnected_def cstr_val_def
  c_string_def WIFI_DELAY_BEFORE_FIRST_CONNECTION_def WIFI_DELAY_BETWEEN_CONNECTIONS_def
  setAutoReconnect_def onConnectionLost_def

subsection \<open>Behaviour of the methods\<close>

text \<open>
  C3. While the driver reports a connection,
  \<open>beginConnection\<close> does nothing but print its diagnostic: no timer, no driver call.
\<close>

theorem beginConnection_when_connected:
  assumes "isConnected w"
  shows "beginConnection p w =
           serial_log (if nonempty_cstr (wifiSsid (obj w)) then MsgAlreadyConnected
                       else MsgNotConfigured) w"
  using assms by (simp add: beginConnection_cases)

theorem beginConnection_when_connected_witness:
  "isConnected (construct ESP32 (Some ''net'') (Some ''pw'') None False
                  (radio_boot\<lparr>status := WL_CONNECTED\<rparr>))
   \<and> beginConnection ESP32 (construct ESP32 (Some ''net'') (Some ''pw'') None False
                  (radio_boot\<lparr>status := WL_CONNECTED\<rparr>))
     = serial_log MsgAlreadyConnected (construct ESP32 (Some ''net'') (Some ''pw'') None False
                  (radio_boot\<lparr>status := WL_CONNECTED\<rparr>))"
  using beginConnection_when_connected [of "construct ESP32 (Some ''net'') (Some ''pw'') None False
                  (radio_boot\<lparr>status := WL_CONNECTED\<rparr>)" ESP32]
  by (simp add: world_eval)

text \<open>
  C20. When a connection may start, \<open>beginConnection\<close> disarms the
  first-connection timer, arms the connect timer with the inter-attempt delay, applies the
  hostname if one is set, and leaves the driver disconnected with nothing stored.
\<close>

theorem beginConnection_starts:
  assumes "nonempty_cstr (wifiSsid (obj w))" and "\<not> isConnected w"
  shows "\<not> armed (firstConnectionTimer (obj (beginConnection p w)))
       \<and> wifiConnectTimer (obj (beginConnection p w))
           = ticker_start WIFI_DELAY_BETWEEN_CONNECTIONS (wifiConnectTimer (obj w))
       \<and> status (wifi (beginConnection p w)) = WL_DISCONNECTED
       \<and> config (wifi (beginConnection p w)) = None
       \<and> host (wifi (beginConnection p w)) =
           (case hostname (obj w) of None \<Rightarrow> host (wifi w) | Some hn \<Rightarrow> Some (c_string hn))"
  using assms
  by (simp add: beginConnection_cases reset_wifi apply_hostname_def ticker_stop_def
      ticker_start_def split: option.split)

theorem beginConnection_starts_witness:
  "nonempty_cstr (wifiSsid (obj (construct ESP8266 (Some ''net'') None (Some ''esp'') False radio_boot)))
   \<and> \<not> isConnected (construct ESP8266 (Some ''net'') None (Some ''esp'') False radio_boot)
   \<and> \<not> armed (firstConnectionTimer (obj (beginConnection ESP8266
          (construct ESP8266 (Some ''net'') None (Some ''esp'') False radio_boot))))
   \<and> host (wifi (beginConnection ESP8266
          (construct ESP8266 (Some ''net'') None (Some ''esp'') False radio_boot))) = Some ''esp''"
  using beginConnection_starts [of "construct ESP8266 (Some ''net'') None (Some ''esp'') False radio_boot"
      ESP8266]
  by (simp add: world_eval)

text \<open>
  C18. When a connection may start, \<open>_connect\<close> emits exactly one
  driver call: a join with the key when the password pointer is set and non-empty, an
  open join otherwise; the log line, if enabled, comes first.
\<close>

theorem connect_issues_begin:
  assumes "nonempty_cstr (wifiSsid (obj w))" and "\<not> isConnected w"
  shows "out (connect w) = out w
           @ (if enableSerialLogs (obj w)
              then [Serial (MsgConnecting (cstr_val (wifiSsid (obj w))))] else [])
           @ [Call (Begin (cstr_val (wifiSsid (obj w)))
                 (if nonempty_cstr (wifiPassword (obj w))
                  then Some (cstr_val (wifiPassword (obj w))) else None))]"
  using assms by (simp add: connect_cases)

theorem connect_issues_begin_witness:
  "nonempty_cstr (wifiSsid (obj (construct ESP32 (Some ''net'') (Some []) None False radio_boot)))
   \<and> \<not> isConnected (construct ESP32 (Some ''net'') (Some []) None False radio_boot)
   \<and> out (connect (construct ESP32 (Some ''net'') (Some []) None False radio_boot))
       = [Call (Begin ''net'' None)]"
  using connect_issues_begin [of "construct ESP32 (Some ''net'') (Some []) None False radio_boot"]
  by (simp add: world_eval)

text \<open>
  C5. \<open>disconnect\<close> always clears \<open>_autoReconnect\<close>, disarms both
  timers and leaves the driver disconnected with its stored configuration erased.
\<close>

theorem disconnect_effect:
  "\<not> autoReconnect (obj (disconnect p w))
   \<and> \<not> armed (firstConnectionTimer (obj (disconnect p w)))
   \<and> \<not> armed (wifiConnectTimer (obj (disconnect p w)))
   \<and> status (wifi (disconnect p w)) = WL_DISCONNECTED
   \<and> config (wifi (disconnect p w)) = None"
  by (simp add: disconnect_def)

text \<open>
  C16. With \<open>_autoReconnect\<close> set, a lost connection resets the
  radio and arms the connect timer with the inter-attempt delay, leaving the
  first-connection timer as it was; the lost callback runs after the reset.
\<close>

theorem onWifiDisconnected_retry:
  assumes "autoReconnect (obj w)"
  shows "obj (onWifiDisconnected p w) =
           (obj w)\<lparr>wifiConnectTimer :=
                     ticker_start WIFI_DELAY_BETWEEN_CONNECTIONS (wifiConnectTimer (obj w))\<rparr>
       \<and> wifi (onWifiDisconnected p w) = wifi (reset p w)
       \<and> out (onWifiDisconnected p w) = out (reset p (serial_log MsgLostConnection w))
           @ (case connectionLostCallback (obj w) of None \<Rightarrow> [] | Some cb \<Rightarrow> [Invoke cb])"
  using assms by (simp add: onWifiDisconnected_def reset_wifi split: option.split platform.split)

theorem onWifiDisconnected_retry_witness:
  "autoReconnect (obj (construct ESP32 (Some ''net'') (Some ''pw'') None False radio_boot))
   \<and> armed (wifiConnectTimer (obj (onWifiDisconnected ESP32
        (construct ESP32 (Some ''net'') (Some ''pw'') None False radio_boot))))"
  using onWifiDisconnected_retry [of "construct ESP32 (Some ''net'') (Some ''pw'') None False radio_boot"
      ESP32]
  by (simp add: world_eval)

text \<open>
  Two disassociation reports in immediate succession leave
  the object exactly as one does: re-arming the armed connect timer restarts it, and no
  second timer exists.
\<close>

lemma onWifiDisconnected_twice:
  "obj (onWifiDisconnected p (onWifiDisconnected p w)) = obj (onWifiDisconnected p w)"
  by (simp add: onWifiDisconnected_parts ticker_start_def)

text \<open>
  C31. On ESP32, \<open>_reset\<close> disconnects in station mode and
  leaves the mode bitmask as it found it: if the station bit was clear it switches to
  station mode, disconnects, and restores the mode read.
\<close>

theorem reset_esp32_restores_mode:
  "mode (wifi (reset ESP32 w)) = mode (wifi w)
   \<and> out (reset ESP32 w) = out w @
       (if bit (mode (wifi w)) 0 then [Call (Disconnect False True)]
        else [Call (SetMode WIFI_STA), Call (Disconnect False True), Call (SetMode (mode (wifi w)))])"
  by (simp add: reset_wifi reset_out)

text \<open>
  C33. On ESP8266, \<open>_reset\<close> ends in plain station mode: an
  access-point bit set before the reset is cleared, unlike the ESP32 branch and unlike
  the spec's promise that other radio modes are not disturbed.
\<close>

theorem reset_esp8266_drops_ap:
  assumes "bit (mode (wifi w)) 1"
  shows "\<not> bit (mode (wifi (reset ESP8266 w))) 1"
  by (simp add: reset_wifi)

theorem reset_esp8266_drops_ap_witness:
  "bit (mode (wifi (construct ESP8266 None None None False (radio_boot\<lparr>mode := WIFI_AP_STA\<rparr>)))) 1
   \<and> \<not> bit (mode (wifi (reset ESP8266
         (construct ESP8266 None None None False (radio_boot\<lparr>mode := WIFI_AP_STA\<rparr>))))) 1"
  using reset_esp8266_drops_ap [of "construct ESP8266 None None None False (radio_boot\<lparr>mode := WIFI_AP_STA\<rparr>)"]
  by (simp add: world_eval)

end
