(* ===== verification/System.thy ===== *)
theory System
  imports Handler
begin

text \<open>
  The handler inside its running system. Three contexts drive the object: the user's
  program calls its public methods, the timer service runs the timer callbacks the
  constructor installed (\<open>beginConnection\<close> for the first-connection timer,
  \<open>_connect\<close> for the connect timer), and the driver's event dispatch runs the two
  handlers the constructor registered. Spec section 5 assumes these are serialised, so a
  run is a sequence of events, each handled to completion. An event that hits a
  destroyed object is the fault \<open>UseAfterFree\<close>.
\<close>

datatype event =
    UserBeginConnection
  | UserDisconnect
  | UserSetWifiInfos cstr cstr
  | UserSetHostname cstr
  | UserSetAutoReconnect bool
  | UserOnConnectionEstablished "callback option"
  | UserOnConnectionLost "callback option"
  | UserEnableDebuggingMessages bool
  | UserDestroy
  | FirstTimerExpires
  | ConnectTimerExpires
  | GotIp
  | StaDisconnected

datatype fault = UseAfterFree

text \<open>
  The object, whether it is still alive, and whether its two driver event handlers are
  still registered with the driver.
\<close>

record sys =
  cur :: world
  alive :: bool
  registered :: bool

definition on_world :: "(world \<Rightarrow> world) \<Rightarrow> sys \<Rightarrow> sys" where
  "on_world f s = s\<lparr>cur := f (cur s)\<rparr>"

text \<open>
  A one-shot timer that expires is disarmed before its callback runs. The callbacks are
  the lambdas of the constructor: \<open>beginConnection()\<close> and \<open>_connect()\<close>.
\<close>

definition firstConnectionTimer_expires :: "platform \<Rightarrow> world \<Rightarrow> world" where
  "firstConnectionTimer_expires p w =
     beginConnection p
       (update_obj (\<lambda>h. h\<lparr>firstConnectionTimer := ticker_stop (firstConnectionTimer h)\<rparr>) w)"

definition wifiConnectTimer_expires :: "world \<Rightarrow> world" where
  "wifiConnectTimer_expires w =
     connect (update_obj (\<lambda>h. h\<lparr>wifiConnectTimer := ticker_stop (wifiConnectTimer h)\<rparr>) w)"

text \<open>The driver changes its own state, then dispatches to the registered handler.\<close>

definition driver_event ::
  "(radio \<Rightarrow> radio) \<Rightarrow> (world \<Rightarrow> world) \<Rightarrow> sys \<Rightarrow> fault + sys" where
  "driver_event upd handle s =
     (let s1 = on_world (\<lambda>w. w\<lparr>wifi := upd (wifi w)\<rparr>) s
      in if \<not> registered s1 then Inr s1
         else if alive s1 then Inr (on_world handle s1)
         else Inl UseAfterFree)"

text \<open>
  \<open>~EspSimpleWifiHandler()\<close>: on ESP32 (\<open>#ifdef ESP32\<close>) the two FreeRTOS timers are
  deleted; on ESP8266 the \<open>Ticker\<close> members detach when destroyed and the two
  \<open>WiFiEventHandler\<close> members, when released, unregister the driver handlers. On ESP32
  the handlers installed with \<open>WiFi.onEvent\<close> are never removed.
\<close>

definition destroy :: "platform \<Rightarrow> sys \<Rightarrow> sys" where
  "destroy p s =
     (on_world (update_obj (\<lambda>h. h\<lparr>wifiConnectTimer := ticker_stop (wifiConnectTimer h),
                                   firstConnectionTimer := ticker_stop (firstConnectionTimer h)\<rparr>)) s)
       \<lparr>alive := False, registered := (p = ESP32)\<rparr>"

fun step :: "platform \<Rightarrow> event \<Rightarrow> sys \<Rightarrow> fault + sys" where
  "step p UserBeginConnection s =
     (if alive s then Inr (on_world (beginConnection p) s) else Inl UseAfterFree)"
| "step p UserDisconnect s =
     (if alive s then Inr (on_world (disconnect p) s) else Inl UseAfterFree)"
| "step p (UserSetWifiInfos ssid pw) s =
     (if alive s then Inr (on_world (setWifiInfos ssid pw) s) else Inl UseAfterFree)"
| "step p (UserSetHostname hn) s =
     (if alive s then Inr (on_world (setHostname hn) s) else Inl UseAfterFree)"
| "step p (UserSetAutoReconnect b) s =
     (if alive s then Inr (on_world (setAutoReconnect b) s) else Inl UseAfterFree)"
| "step p (UserOnConnectionEstablished cb) s =
     (if alive s then Inr (on_world (onConnectionEstablished cb) s) else Inl UseAfterFree)"
| "step p (UserOnConnectionLost cb) s =
     (if alive s then Inr (on_world (onConnectionLost cb) s) else Inl UseAfterFree)"
| "step p (UserEnableDebuggingMessages b) s =
     (if alive s then Inr (on_world (enableDebuggingMessages b) s) else Inl UseAfterFree)"
| "step p UserDestroy s =
     (if alive s then Inr (destroy p s) else Inl UseAfterFree)"
| "step p FirstTimerExpires s =
     (if alive s then Inr (on_world (firstConnectionTimer_expires p) s) else Inl UseAfterFree)"
| "step p ConnectTimerExpires s =
     (if alive s then Inr (on_world wifiConnectTimer_expires s) else Inl UseAfterFree)"
| "step p GotIp s = driver_event radio_got_ip onWifiConnected s"
| "step p StaDisconnected s = driver_event radio_sta_disconnected (onWifiDisconnected p) s"

text \<open>
  When an event can happen: the user calls methods of a live object only; a timer
  expires only while armed; the driver raises its events as \<open>Platform\<close> says.
\<close>

fun enabled :: "sys \<Rightarrow> event \<Rightarrow> bool" where
  "enabled s FirstTimerExpires = armed (firstConnectionTimer (obj (cur s)))"
| "enabled s ConnectTimerExpires = armed (wifiConnectTimer (obj (cur s)))"
| "enabled s GotIp = got_ip_possible (wifi (cur s))"
| "enabled s StaDisconnected = sta_disconnected_possible (wifi (cur s))"
| "enabled s _ = alive s"

text \<open>
  A driver state the handler can meet: a join in progress has a stored configuration,
  and the mode is one of the four \<open>wifi_mode_t\<close> values.
\<close>

definition radio_wf :: "radio \<Rightarrow> bool" where
  "radio_wf r \<longleftrightarrow> (attempting r \<longrightarrow> config r \<noteq> None) \<and> mode r \<le> WIFI_AP_STA"

text \<open>The initial states: an object just constructed, its event handlers registered.\<close>

definition start :: "platform \<Rightarrow> cstr \<Rightarrow> cstr \<Rightarrow> cstr \<Rightarrow> bool \<Rightarrow> radio \<Rightarrow> sys" where
  "start p ssid pw hn autoConnect r =
     \<lparr>cur = construct p ssid pw hn autoConnect r, alive = True, registered = True\<rparr>"

inductive reachable :: "platform \<Rightarrow> sys \<Rightarrow> bool" for p where
  init: "radio_wf r \<Longrightarrow> reachable p (start p ssid pw hn ac r)"
| go: "reachable p s \<Longrightarrow> enabled s e \<Longrightarrow> step p e s = Inr s' \<Longrightarrow> reachable p s'"

text \<open>Running a list of events, stopping at the first fault or disabled event.\<close>

fun run :: "platform \<Rightarrow> event list \<Rightarrow> sys \<Rightarrow> (fault + sys) option" where
  "run p [] s = Some (Inr s)"
| "run p (e # es) s =
     (if \<not> enabled s e then None
      else case step p e s of Inl f \<Rightarrow> Some (Inl f) | Inr s' \<Rightarrow> run p es s')"

text \<open>The invariant every reachable state keeps.\<close>

definition timers_ok :: "handler \<Rightarrow> bool" where
  "timers_ok h \<longleftrightarrow>
     (armed (firstConnectionTimer h) \<longrightarrow>
        delay_s (firstConnectionTimer h) = WIFI_DELAY_BEFORE_FIRST_CONNECTION)
   \<and> (armed (wifiConnectTimer h) \<longrightarrow>
        delay_s (wifiConnectTimer h) = WIFI_DELAY_BETWEEN_CONNECTIONS)"

definition world_ok :: "world \<Rightarrow> bool" where
  "world_ok w \<longleftrightarrow> timers_ok (obj w) \<and> radio_wf (wifi w)"

definition sys_inv :: "platform \<Rightarrow> sys \<Rightarrow> bool" where
  "sys_inv p s \<longleftrightarrow> world_ok (cur s)
     \<and> (\<not> alive s \<longrightarrow> \<not> armed (firstConnectionTimer (obj (cur s)))
                     \<and> \<not> armed (wifiConnectTimer (obj (cur s))))
     \<and> registered s = (alive s \<or> p = ESP32)"

text \<open>The effects a step appended.\<close>

definition new_effects :: "sys \<Rightarrow> sys \<Rightarrow> effect list" where
  "new_effects s s' = drop (length (out (cur s))) (out (cur s'))"

subsection \<open>The invariant\<close>

lemma world_ok_reset [world_ok_rules]: "world_ok w \<Longrightarrow> world_ok (reset p w)"
  by (auto simp: world_ok_def radio_wf_def reset_wifi split: platform.split)

lemma world_ok_scheduleConnection [world_ok_rules]: "world_ok w \<Longrightarrow> world_ok (scheduleConnection p w)"
  using world_ok_reset [of w p]
  by (simp add: world_ok_def timers_ok_def)

lemma world_ok_prims [world_ok_rules]:
  "world_ok w \<Longrightarrow> world_ok (serial_log m w)"
  "world_ok w \<Longrightarrow> world_ok (emit e w)"
  "world_ok w \<Longrightarrow> world_ok (stop_timers w)"
  "world_ok w \<Longrightarrow> world_ok (apply_hostname w)"
  by (auto simp: world_ok_def timers_ok_def radio_wf_def)

lemma world_ok_beginConnection [world_ok_rules]: "world_ok w \<Longrightarrow> world_ok (beginConnection p w)"
  by (cases "nonempty_cstr (wifiSsid (obj w))"; cases "isConnected w")
     (simp_all add: beginConnection_cases world_ok_rules)

lemma world_ok_connect [world_ok_rules]: "world_ok w \<Longrightarrow> world_ok (connect w)"
  by (cases "nonempty_cstr (wifiSsid (obj w))"; cases "isConnected w")
     (auto simp: connect_cases world_ok_prims world_ok_def radio_wf_def)

lemma world_ok_disconnect [world_ok_rules]: "world_ok w \<Longrightarrow> world_ok (disconnect p w)"
  unfolding disconnect_def
  by (rule world_ok_reset) (auto simp: world_ok_def timers_ok_def)

lemma world_ok_onWifiConnected [world_ok_rules]: "world_ok w \<Longrightarrow> world_ok (onWifiConnected w)"
  by (simp add: world_ok_def)

lemma world_ok_onWifiDisconnected [world_ok_rules]: "world_ok w \<Longrightarrow> world_ok (onWifiDisconnected p w)"
  by (auto simp: onWifiDisconnected_def world_ok_prims world_ok_scheduleConnection Let_def
                 split: option.split)
  

lemma start_simps [simp]:
  "alive (start p ssid pw hn ac r)" "registered (start p ssid pw hn ac r)"
  by (simp_all add: start_def)

lemma on_world_simps [simp]:
  "cur (on_world f s) = f (cur s)" "alive (on_world f s) = alive s"
  "registered (on_world f s) = registered s"
  by (simp_all add: on_world_def)

lemma driver_event_Inr:
  assumes "driver_event upd handle s = Inr s'"
  shows "(\<not> registered s \<and> s' = on_world (\<lambda>w. w\<lparr>wifi := upd (wifi w)\<rparr>) s)
       \<or> (registered s \<and> alive s
          \<and> s' = on_world handle (on_world (\<lambda>w. w\<lparr>wifi := upd (wifi w)\<rparr>) s))"
  using assms by (auto simp: driver_event_def Let_def split: if_splits)

lemma world_ok_setters [world_ok_rules]:
  "world_ok w \<Longrightarrow> world_ok (setWifiInfos ssid pw w)"
  "world_ok w \<Longrightarrow> world_ok (setHostname hn w)"
  "world_ok w \<Longrightarrow> world_ok (setAutoReconnect b w)"
  "world_ok w \<Longrightarrow> world_ok (onConnectionEstablished cb w)"
  "world_ok w \<Longrightarrow> world_ok (onConnectionLost cb w)"
  "world_ok w \<Longrightarrow> world_ok (enableDebuggingMessages b w)"
  by (simp_all add: world_ok_def timers_ok_def setWifiInfos_def setHostname_def
      setAutoReconnect_def onConnectionEstablished_def onConnectionLost_def
      enableDebuggingMessages_def)

lemma world_ok_expires [world_ok_rules]:
  "world_ok w \<Longrightarrow> world_ok (firstConnectionTimer_expires p w)"
  "world_ok w \<Longrightarrow> world_ok (wifiConnectTimer_expires w)"
proof -
  assume ok: "world_ok w"
  show "world_ok (firstConnectionTimer_expires p w)"
    unfolding firstConnectionTimer_expires_def
    by (rule world_ok_beginConnection) (use ok in \<open>simp add: world_ok_def timers_ok_def\<close>)
  show "world_ok (wifiConnectTimer_expires w)"
    unfolding wifiConnectTimer_expires_def
    by (rule world_ok_connect) (use ok in \<open>simp add: world_ok_def timers_ok_def\<close>)
qed

lemma world_ok_driver [world_ok_rules]:
  "world_ok w \<Longrightarrow> world_ok (w\<lparr>wifi := radio_got_ip (wifi w)\<rparr>)"
  "world_ok w \<Longrightarrow> world_ok (w\<lparr>wifi := radio_sta_disconnected (wifi w)\<rparr>)"
  by (simp_all add: world_ok_def radio_wf_def)

lemma sys_inv_step:
  assumes inv: "sys_inv p s" and en: "enabled s e" and st: "step p e s = Inr s'"
  shows "sys_inv p s'"
proof (cases e)
  case GotIp
  with st driver_event_Inr [of radio_got_ip onWifiConnected s s'] inv show ?thesis
    by (auto simp: sys_inv_def world_ok_rules)
next
  case StaDisconnected
  with st driver_event_Inr [of radio_sta_disconnected "onWifiDisconnected p" s s'] inv
  show ?thesis
    by (auto simp: sys_inv_def world_ok_rules)
next
  case UserDestroy
  with st inv show ?thesis
    by (auto simp: sys_inv_def destroy_def world_ok_def timers_ok_def)
qed (use inv en st in \<open>auto simp: sys_inv_def world_ok_rules\<close>)

lemma sys_inv_start: "radio_wf r \<Longrightarrow> sys_inv p (start p ssid pw hn ac r)"
  by (simp add: sys_inv_def start_def construct_def world_ok_def timers_ok_def Let_def)

lemma reachable_sys_inv: "reachable p s \<Longrightarrow> sys_inv p s"
proof (induction rule: reachable.induct)
  case (init r ssid pw hn ac)
  then show ?case by (rule sys_inv_start)
next
  case (go s e s')
  then show ?case by (blast intro: sys_inv_step)
qed

lemma driver_event_quiet:
  assumes "driver_event upd handle s = Inr s'" and "\<And>w. quiet w (handle w)"
  shows "quiet (cur s) (cur s')"
  using driver_event_Inr [OF assms(1)]
proof
  assume "\<not> registered s \<and> s' = on_world (\<lambda>w. w\<lparr>wifi := upd (wifi w)\<rparr>) s"
  then show ?thesis by (simp add: quiet_driver quiet_refl)
next
  assume "registered s \<and> alive s \<and>
          s' = on_world handle (on_world (\<lambda>w. w\<lparr>wifi := upd (wifi w)\<rparr>) s)"
  then show ?thesis by (simp add: quiet_trans_driver [OF assms(2)])
qed

lemma step_quiet:
  assumes st: "step p e s = Inr s'" and ne: "e \<noteq> ConnectTimerExpires"
  shows "quiet (cur s) (cur s')"
proof (cases e)
  case GotIp
  with st have "driver_event radio_got_ip onWifiConnected s = Inr s'" by simp
  then show ?thesis by (rule driver_event_quiet) (rule quiet_methods)
next
  case StaDisconnected
  with st have "driver_event radio_sta_disconnected (onWifiDisconnected p) s = Inr s'" by simp
  then show ?thesis by (rule driver_event_quiet) (rule quiet_methods)
next
  case FirstTimerExpires
  have q: "quiet (cur s) (update_obj
          (\<lambda>h. h\<lparr>firstConnectionTimer := ticker_stop (firstConnectionTimer h)\<rparr>) (cur s))"
    by (rule quiet_prims(4) [OF quiet_refl])
  from st FirstTimerExpires have "s' = on_world (firstConnectionTimer_expires p) s"
    by simp
  then have "cur s' = firstConnectionTimer_expires p (cur s)" by simp
  then show ?thesis
    unfolding firstConnectionTimer_expires_def using quiet_trans [OF q quiet_methods(1)] by simp
next
  case UserDestroy
  with st have "s' = destroy p s" by simp
  then show ?thesis by (simp add: destroy_def quiet_prims(4) [OF quiet_refl])
next
  case UserBeginConnection
  with st show ?thesis by (auto simp: quiet_methods)
next
  case UserDisconnect
  with st show ?thesis by (auto simp: quiet_methods)
qed (use st ne in \<open>auto simp: quiet_setters\<close>)

lemma autoReconnect_expires [simp]:
  "autoReconnect (obj (firstConnectionTimer_expires p w)) = autoReconnect (obj w)"
  "autoReconnect (obj (wifiConnectTimer_expires w)) = autoReconnect (obj w)"
  by (simp_all add: firstConnectionTimer_expires_def wifiConnectTimer_expires_def)

lemma driver_event_obj:
  assumes "driver_event upd handle s = Inr s'"
    and "\<And>w. autoReconnect (obj (handle w)) = autoReconnect (obj w)"
  shows "autoReconnect (obj (cur s')) = autoReconnect (obj (cur s))"
  using driver_event_Inr [OF assms(1)]
proof
  assume "\<not> registered s \<and> s' = on_world (\<lambda>w. w\<lparr>wifi := upd (wifi w)\<rparr>) s"
  then show ?thesis by simp
next
  assume "registered s \<and> alive s \<and>
          s' = on_world handle (on_world (\<lambda>w. w\<lparr>wifi := upd (wifi w)\<rparr>) s)"
  then show ?thesis by (simp add: assms(2))
qed

lemma step_autoReconnect:
  assumes st: "step p e s = Inr s'" and ne: "e \<noteq> UserSetAutoReconnect True"
    and off: "\<not> autoReconnect (obj (cur s))"
  shows "\<not> autoReconnect (obj (cur s'))"
proof (cases e)
  case GotIp
  with st have "driver_event radio_got_ip onWifiConnected s = Inr s'" by simp
  then have "autoReconnect (obj (cur s')) = autoReconnect (obj (cur s))"
    by (rule driver_event_obj) simp
  with off show ?thesis by simp
next
  case StaDisconnected
  with st have "driver_event radio_sta_disconnected (onWifiDisconnected p) s = Inr s'" by simp
  then have "autoReconnect (obj (cur s')) = autoReconnect (obj (cur s))"
    by (rule driver_event_obj) simp
  with off show ?thesis by simp
next
  case UserDestroy
  with st have "s' = destroy p s" by simp
  then show ?thesis using off by (simp add: destroy_def)
next
  case (UserSetAutoReconnect b)
  with st ne have "s' = on_world (setAutoReconnect False) s" by auto
  then show ?thesis by simp
next
  case UserBeginConnection
  with st have "s' = on_world (beginConnection p) s" by simp
  then show ?thesis using off by simp
next
  case UserDisconnect
  with st have "s' = on_world (disconnect p) s" by simp
  then show ?thesis by simp
next
  case FirstTimerExpires
  with st have "s' = on_world (firstConnectionTimer_expires p) s" by simp
  then show ?thesis using off by simp
next
  case ConnectTimerExpires
  with st have "s' = on_world wifiConnectTimer_expires s" by simp
  then show ?thesis using off by simp
next
  case (UserSetWifiInfos ssid pw)
  with st have "s' = on_world (setWifiInfos ssid pw) s" by simp
  then show ?thesis using off by simp
next
  case (UserSetHostname hn)
  with st have "s' = on_world (setHostname hn) s" by simp
  then show ?thesis using off by simp
next
  case (UserOnConnectionEstablished cb)
  with st have "s' = on_world (onConnectionEstablished cb) s" by simp
  then show ?thesis using off by simp
next
  case (UserOnConnectionLost cb)
  with st have "s' = on_world (onConnectionLost cb) s" by simp
  then show ?thesis using off by simp
next
  case (UserEnableDebuggingMessages b)
  with st have "s' = on_world (enableDebuggingMessages b) s" by simp
  then show ?thesis using off by simp
qed

lemma run_Cons_Inr:
  assumes "run p (e # es) s = Some (Inr s')"
  obtains s1 where "enabled s e" and "step p e s = Inr s1" and "run p es s1 = Some (Inr s')"
proof (cases "step p e s")
  case (Inl f)
  with assms show ?thesis by (simp split: if_split_asm)
next
  case (Inr s1)
  with assms that show ?thesis by (simp split: if_split_asm)
qed

lemma run_keeps_autoReconnect_off:
  "run p es s = Some (Inr s') \<Longrightarrow> UserSetAutoReconnect True \<notin> set es \<Longrightarrow>
   \<not> autoReconnect (obj (cur s)) \<Longrightarrow> \<not> autoReconnect (obj (cur s'))"
proof (induction es arbitrary: s)
  case Nil
  then show ?case by simp
next
  case (Cons e es)
  from Cons.prems(1) obtain s1 where st: "step p e s = Inr s1" and r: "run p es s1 = Some (Inr s')"
    by (rule run_Cons_Inr)
  from Cons.prems(2) have ne: "e \<noteq> UserSetAutoReconnect True" and nes: "UserSetAutoReconnect True \<notin> set es"
    by auto
  from st ne Cons.prems(3) have "\<not> autoReconnect (obj (cur s1))" by (rule step_autoReconnect)
  with r nes show ?case by (rule Cons.IH)
qed

lemma driver_event_parts:
  assumes "driver_event upd handle s = Inr s'"
  shows "cur s' = (if registered s then handle ((cur s)\<lparr>wifi := upd (wifi (cur s))\<rparr>)
                   else (cur s)\<lparr>wifi := upd (wifi (cur s))\<rparr>)"
  using driver_event_Inr [OF assms] by auto
lemma run_reachable:
  "run p es s = Some (Inr s') \<Longrightarrow> reachable p s \<Longrightarrow> reachable p s'"
proof (induction es arbitrary: s)
  case Nil
  then show ?case by simp
next
  case (Cons e es)
  from Cons.prems(1) obtain s1 where en: "enabled s e" and st: "step p e s = Inr s1"
    and r: "run p es s1 = Some (Inr s')"
    by (rule run_Cons_Inr)
  from Cons.prems(2) en st have "reachable p s1" by (rule reachable.go)
  with r show ?case by (rule Cons.IH)
qed

subsection \<open>Evaluating concrete runs\<close>

lemmas sys_eval = world_eval start_def on_world_def
  firstConnectionTimer_expires_def wifiConnectTimer_expires_def
  beginConnection_cases connect_cases scheduleConnection_def reset_def apply_hostname_def
  ticker_new_def ticker_start_def ticker_stop_def update_obj_def destroy_def
  got_ip_possible_def sta_disconnected_possible_def driver_event_def new_effects_def

lemma radio_wf_boot [simp]: "radio_wf radio_boot"
  by (simp add: radio_wf_def radio_boot_def)

subsection \<open>Properties of the running system\<close>

text \<open>
  C1. Every join request the handler makes is made by the
  connect timer's callback, in a state where the network name is set and the driver does
  not report a connection, and it joins the configured network: the supervisor never
  issues a connect call while connected.
\<close>

theorem begin_only_when_disconnected:
  assumes st: "step p e s = Inr s'" and bg: "Call (Begin a b) \<in> set (new_effects s s')"
  shows "e = ConnectTimerExpires \<and> \<not> isConnected (cur s)
       \<and> nonempty_cstr (wifiSsid (obj (cur s))) \<and> a = cstr_val (wifiSsid (obj (cur s)))"
proof -
  have e: "e = ConnectTimerExpires"
  proof (rule ccontr)
    assume "e \<noteq> ConnectTimerExpires"
    with st have "quiet (cur s) (cur s')" by (rule step_quiet)
    with bg show False by (simp add: new_effects_def quiet_no_begin)
  qed
  define w where "w = update_obj
      (\<lambda>h. h\<lparr>wifiConnectTimer := ticker_stop (wifiConnectTimer h)\<rparr>) (cur s)"
  have s': "cur s' = connect w"
    using st e by (auto simp: wifiConnectTimer_expires_def w_def)
  have wo: "obj w = (obj (cur s))\<lparr>wifiConnectTimer := ticker_stop (wifiConnectTimer (obj (cur s)))\<rparr>"
    and wc: "isConnected w = isConnected (cur s)" and wout: "out w = out (cur s)"
    by (simp_all add: w_def)
  have go: "nonempty_cstr (wifiSsid (obj (cur s))) \<and> \<not> isConnected (cur s)"
  proof (rule ccontr)
    assume "\<not> ?thesis"
    then have "quiet w (connect w)" using wo wc by (intro quiet_methods(5)) simp
    then have "Call (Begin a b) \<notin> set (drop (length (out w)) (out (connect w)))"
      by (rule quiet_no_begin)
    with bg s' wout show False by (simp add: new_effects_def)
  qed
  then have "new_effects s s' =
      (if enableSerialLogs (obj (cur s))
       then [Serial (MsgConnecting (cstr_val (wifiSsid (obj (cur s)))))] else [])
      @ [Call (Begin (cstr_val (wifiSsid (obj (cur s))))
           (if nonempty_cstr (wifiPassword (obj (cur s)))
            then Some (cstr_val (wifiPassword (obj (cur s)))) else None))]"
    using s' wo wc wout by (simp add: new_effects_def connect_cases)
  with bg have "a = cstr_val (wifiSsid (obj (cur s)))"
    by (cases "enableSerialLogs (obj (cur s))") auto
  with e go show ?thesis by blast
qed

theorem begin_only_when_disconnected_witness:
  "step ESP32 ConnectTimerExpires
      (on_world (beginConnection ESP32) (start ESP32 (Some ''net'') (Some ''pw'') None False radio_boot))
    = Inr (on_world wifiConnectTimer_expires (on_world (beginConnection ESP32)
             (start ESP32 (Some ''net'') (Some ''pw'') None False radio_boot)))
   \<and> Call (Begin ''net'' (Some ''pw'')) \<in> set (new_effects
      (on_world (beginConnection ESP32) (start ESP32 (Some ''net'') (Some ''pw'') None False radio_boot))
      (on_world wifiConnectTimer_expires (on_world (beginConnection ESP32)
             (start ESP32 (Some ''net'') (Some ''pw'') None False radio_boot))))
   \<and> \<not> isConnected (cur (on_world (beginConnection ESP32)
        (start ESP32 (Some ''net'') (Some ''pw'') None False radio_boot)))"
proof -
  let ?s1 = "on_world (beginConnection ESP32) (start ESP32 (Some ''net'') (Some ''pw'') None False radio_boot)"
  let ?s2 = "on_world wifiConnectTimer_expires ?s1"
  have st: "step ESP32 ConnectTimerExpires ?s1 = Inr ?s2" by simp
  have bg: "Call (Begin ''net'' (Some ''pw'')) \<in> set (new_effects ?s1 ?s2)"
    by (simp add: sys_eval)
  from begin_only_when_disconnected [OF st bg] st bg show ?thesis by simp
qed

text \<open>
  C17. After the handler has processed a disassociation report,
  the driver owes no further report and has no join in progress, so no driver event can
  follow until a timer or the user acts: the reset inside the handler cannot feed a
  busy loop of disconnect reports and reconnections.
\<close>

theorem sta_disconnected_quiesces:
  assumes "step p StaDisconnected s = Inr s'"
  shows "\<not> enabled s' StaDisconnected \<and> \<not> enabled s' GotIp"
  using driver_event_Inr [of radio_sta_disconnected "onWifiDisconnected p" s s'] assms
  by (auto simp: onWifiDisconnected_parts reset_wifi got_ip_possible_def sta_disconnected_possible_def
           split: if_split_asm)

theorem sta_disconnected_quiesces_witness:
  "\<exists>s'. step ESP32 StaDisconnected
           (start ESP32 (Some ''net'') (Some ''pw'') None False (radio_boot\<lparr>status := WL_CONNECTED\<rparr>))
         = Inr s' \<and> \<not> enabled s' StaDisconnected \<and> \<not> enabled s' GotIp"
proof -
  obtain s' where st: "step ESP32 StaDisconnected
      (start ESP32 (Some ''net'') (Some ''pw'') None False (radio_boot\<lparr>status := WL_CONNECTED\<rparr>))
      = Inr s'"
    by (simp add: driver_event_def Let_def start_def)
  with sta_disconnected_quiesces [OF st] show ?thesis by blast
qed



text \<open>
  C6. After \<open>disconnect()\<close>, \<open>_autoReconnect\<close> stays false along every
  run in which the user does not set it again; \<open>beginConnection()\<close> does not re-enable it.
\<close>

theorem disconnect_durable:
  assumes "run p (UserDisconnect # es) s = Some (Inr s')"
    and "UserSetAutoReconnect True \<notin> set es"
  shows "\<not> autoReconnect (obj (cur s'))"
proof -
  from assms(1) obtain s1 where st: "step p UserDisconnect s = Inr s1"
    and r: "run p es s1 = Some (Inr s')"
    by (rule run_Cons_Inr)
  from st have "s1 = on_world (disconnect p) s" by simp
  then have "\<not> autoReconnect (obj (cur s1))" by simp
  with r assms(2) show ?thesis by (rule run_keeps_autoReconnect_off)
qed

theorem disconnect_durable_witness:
  "\<exists>s'. run ESP32 [UserDisconnect, UserBeginConnection, StaDisconnected]
          (start ESP32 (Some ''net'') (Some ''pw'') None False (radio_boot\<lparr>status := WL_CONNECTED\<rparr>))
        = Some (Inr s')
     \<and> UserSetAutoReconnect True \<notin> set [UserBeginConnection, StaDisconnected]
     \<and> \<not> autoReconnect (obj (cur s'))"
proof -
  obtain s' where r: "run ESP32 [UserDisconnect, UserBeginConnection, StaDisconnected]
      (start ESP32 (Some ''net'') (Some ''pw'') None False (radio_boot\<lparr>status := WL_CONNECTED\<rparr>))
      = Some (Inr s')"
    by (simp add: sys_eval disconnect_def)
  have "UserSetAutoReconnect True \<notin> set [UserBeginConnection, StaDisconnected]" by simp
  with disconnect_durable [OF r this] r show ?thesis by blast
qed

text \<open>
  C15. With \<open>_autoReconnect\<close> clear, a disassociation report
  leaves the object unchanged (no timer is armed) and the handler makes no driver call.
\<close>

theorem no_retry_after_disconnect:
  assumes off: "\<not> autoReconnect (obj (cur s))" and st: "step p StaDisconnected s = Inr s'"
  shows "obj (cur s') = obj (cur s) \<and> (\<forall>c. Call c \<notin> set (new_effects s s'))"
proof -
  let ?w = "(cur s)\<lparr>wifi := radio_sta_disconnected (wifi (cur s))\<rparr>"
  from st have "driver_event radio_sta_disconnected (onWifiDisconnected p) s = Inr s'" by simp
  then have c: "cur s' = (if registered s then onWifiDisconnected p ?w else ?w)"
    by (rule driver_event_parts)
  have "obj (onWifiDisconnected p ?w) = obj ?w \<and>
        out (onWifiDisconnected p ?w) = out ?w
          @ (if enableSerialLogs (obj ?w) then [Serial MsgLostConnection] else [])
          @ (case connectionLostCallback (obj ?w) of None \<Rightarrow> [] | Some cb \<Rightarrow> [Invoke cb])"
    using onWifiDisconnected_no_retry [of ?w p] off by simp
  with c show ?thesis by (auto simp: new_effects_def split: option.split_asm)
qed

theorem no_retry_after_disconnect_witness:
  "\<not> autoReconnect (obj (cur (on_world (setAutoReconnect False)
        (start ESP32 (Some ''net'') (Some ''pw'') None False (radio_boot\<lparr>status := WL_CONNECTED\<rparr>)))))
   \<and> (\<exists>s'. step ESP32 StaDisconnected (on_world (setAutoReconnect False)
        (start ESP32 (Some ''net'') (Some ''pw'') None False (radio_boot\<lparr>status := WL_CONNECTED\<rparr>)))
        = Inr s'
      \<and> \<not> armed (wifiConnectTimer (obj (cur s'))))"
proof -
  let ?s = "on_world (setAutoReconnect False)
        (start ESP32 (Some ''net'') (Some ''pw'') None False (radio_boot\<lparr>status := WL_CONNECTED\<rparr>))"
  have off: "\<not> autoReconnect (obj (cur ?s))" by simp
  obtain s' where st: "step ESP32 StaDisconnected ?s = Inr s'"
    by (simp add: driver_event_def Let_def start_def)
  have "\<not> armed (wifiConnectTimer (obj (cur ?s)))" by (simp add: sys_eval)
  with no_retry_after_disconnect [OF off st] off st show ?thesis by auto
qed

end
