(* ===== verification/Abstract.thy ===== *)
theory Abstract
  imports System
begin

text \<open>
  The supervisor of spec section 4 as an abstract machine, and the proof that the code
  implements it. The source never names its state: it keeps the phase in the two timers'
  armed flags and the driver's status. \<open>conn_of\<close> reads the phase off a world and
  \<open>abs_of\<close> the whole abstract state (phase, whether the network name is set,
  \<open>autoReconnect\<close>); \<open>spec_next\<close> and \<open>spec_step\<close> are the spec's transitions. The
  refinement is a functional simulation on single-phase states
  (\<open>abs_of s' = spec_step (abs_of s) e\<close> for each step), lifted to whole runs.
\<close>

datatype conn_state =
    Idle
  | AwaitingInitialDelay
  | AwaitingRetryDelay
  | Connecting
  | Connected

text \<open>
  The phase of a world. The driver's report of a connection comes first, then the connect
  timer (\<open>retryTimer\<close> of the spec), then the first-connection timer
  (\<open>startTimer\<close>), then a join in progress.
\<close>

definition conn_of :: "world \<Rightarrow> conn_state" where
  "conn_of w =
     (if isConnected w then Connected
      else if armed (wifiConnectTimer (obj w)) then AwaitingRetryDelay
      else if armed (firstConnectionTimer (obj w)) then AwaitingInitialDelay
      else if attempting (wifi w) then Connecting
      else Idle)"

text \<open>
  A world is in a single phase when at most one of the four phase indicators holds; the
  spec's machine describes exactly these worlds (``at most one timer is armed at once'').
\<close>

definition one_phase :: "world \<Rightarrow> bool" where
  "one_phase w \<longleftrightarrow>
     length (filter id [isConnected w, armed (wifiConnectTimer (obj w)),
                        armed (firstConnectionTimer (obj w)), attempting (wifi w)]) \<le> 1"

text \<open>
  The events of the spec's machine. \<open>SSetCredentials b\<close> is \<open>setCredentials\<close> with a
  network name that is set exactly when \<open>b\<close>; \<open>SConfigure\<close> is any other setter.
\<close>

datatype spec_event =
    SBegin
  | SDisconnect
  | SInitialExpiry
  | SRetryExpiry
  | SAssociated
  | SDisassociated
  | SDestroy
  | SSetCredentials bool
  | SSetAutoReconnect bool
  | SConfigure

fun spec_event_of :: "event \<Rightarrow> spec_event" where
  "spec_event_of UserBeginConnection = SBegin"
| "spec_event_of UserDisconnect = SDisconnect"
| "spec_event_of FirstTimerExpires = SInitialExpiry"
| "spec_event_of ConnectTimerExpires = SRetryExpiry"
| "spec_event_of GotIp = SAssociated"
| "spec_event_of StaDisconnected = SDisassociated"
| "spec_event_of UserDestroy = SDestroy"
| "spec_event_of (UserSetWifiInfos ssid pw) = SSetCredentials (nonempty_cstr ssid)"
| "spec_event_of (UserSetAutoReconnect b) = SSetAutoReconnect b"
| "spec_event_of _ = SConfigure"

text \<open>
  The transitions of spec section 4. \<open>ok\<close> is whether the network name is set and
  \<open>auto\<close> the \<open>autoReconnect\<close> flag. \<open>beginConnection()\<close> and \<open>attemptConnect()\<close>
  fail silently when \<open>canAttempt()\<close> fails; an expired timer is disarmed whether or
  not its callback succeeds; \<open>onDisassociated()\<close> schedules an attempt when
  \<open>autoReconnect\<close> is set and otherwise ends the association or attempt;
  \<open>disconnect()\<close> forces \<open>Idle\<close>; destruction disarms both timers.
\<close>

fun spec_next :: "bool \<Rightarrow> bool \<Rightarrow> conn_state \<Rightarrow> spec_event \<Rightarrow> conn_state" where
  "spec_next ok auto a SDisconnect = Idle"
| "spec_next ok auto Connected SBegin = Connected"
| "spec_next ok auto a SBegin = (if ok then AwaitingRetryDelay else a)"
| "spec_next ok auto AwaitingInitialDelay SInitialExpiry =
     (if ok then AwaitingRetryDelay else Idle)"
| "spec_next ok auto AwaitingRetryDelay SRetryExpiry = (if ok then Connecting else Idle)"
| "spec_next ok auto Connecting SAssociated = Connected"
| "spec_next ok auto a SDisassociated =
     (if auto then AwaitingRetryDelay
      else if a = Connected \<or> a = Connecting then Idle else a)"
| "spec_next ok auto a SDestroy = (if a = Connected \<or> a = Connecting then a else Idle)"
| "spec_next ok auto a _ = a"

text \<open>
  The state of the spec's supervisor: its phase, whether the network name is set, and
  \<open>autoReconnect\<close>. \<open>disconnect()\<close> clears \<open>autoReconnect\<close>; the setters set their
  field.
\<close>

record spec_state =
  phase :: conn_state
  configured :: bool
  auto_reconnect :: bool

definition spec_step :: "spec_state \<Rightarrow> spec_event \<Rightarrow> spec_state" where
  "spec_step a e =
     \<lparr>phase = spec_next (configured a) (auto_reconnect a) (phase a) e,
      configured = (case e of SSetCredentials b \<Rightarrow> b | _ \<Rightarrow> configured a),
      auto_reconnect =
        (case e of SSetAutoReconnect b \<Rightarrow> b | SDisconnect \<Rightarrow> False | _ \<Rightarrow> auto_reconnect a)\<rparr>"

text \<open>The abstraction of a running system.\<close>

definition abs_of :: "sys \<Rightarrow> spec_state" where
  "abs_of s =
     \<lparr>phase = conn_of (cur s), configured = nonempty_cstr (wifiSsid (obj (cur s))),
      auto_reconnect = autoReconnect (obj (cur s))\<rparr>"

text \<open>
  The one abstract transition the code does not implement within single-phase states: a
  disassociation report with \<open>autoReconnect\<close> set while the first-connection timer is
  pending arms the connect timer beside it. \<open>spec_path\<close> holds of an abstract trace
  that never takes it.
\<close>

definition spec_safe :: "spec_state \<Rightarrow> spec_event \<Rightarrow> bool" where
  "spec_safe a e \<longleftrightarrow>
     \<not> (e = SDisassociated \<and> auto_reconnect a \<and> phase a = AwaitingInitialDelay)"

fun spec_path :: "spec_state \<Rightarrow> spec_event list \<Rightarrow> bool" where
  "spec_path a [] = True"
| "spec_path a (e # es) = (spec_safe a e \<and> spec_path (spec_step a e) es)"

subsection \<open>The phase after each operation\<close>

lemma at_most_one_of_four:
  "length (filter id [a, b, c, d]) \<le> 1 \<longleftrightarrow>
     (a \<longrightarrow> \<not> b \<and> \<not> c \<and> \<not> d) \<and> (b \<longrightarrow> \<not> c \<and> \<not> d) \<and> (c \<longrightarrow> \<not> d)"
  by (cases a; cases b; cases c; cases d) simp_all

lemma one_phase_iff:
  "one_phase w \<longleftrightarrow>
     (isConnected w \<longrightarrow> \<not> armed (wifiConnectTimer (obj w))
        \<and> \<not> armed (firstConnectionTimer (obj w)) \<and> \<not> attempting (wifi w))
   \<and> (armed (wifiConnectTimer (obj w)) \<longrightarrow>
        \<not> armed (firstConnectionTimer (obj w)) \<and> \<not> attempting (wifi w))
   \<and> (armed (firstConnectionTimer (obj w)) \<longrightarrow> \<not> attempting (wifi w))"
  unfolding one_phase_def at_most_one_of_four ..

lemma conn_of_Connected_iff: "conn_of w = Connected \<longleftrightarrow> isConnected w"
  by (simp add: conn_of_def)

lemma conn_of_initial_armed:
  "one_phase w \<Longrightarrow> armed (firstConnectionTimer (obj w)) \<Longrightarrow> conn_of w = AwaitingInitialDelay"
  by (simp add: conn_of_def one_phase_iff isConnected_def)

lemma conn_of_beginConnection:
  "conn_of (beginConnection p w) =
     (if nonempty_cstr (wifiSsid (obj w)) \<and> \<not> isConnected w then AwaitingRetryDelay
      else conn_of w)"
  by (cases "nonempty_cstr (wifiSsid (obj w))"; cases "isConnected w")
     (simp_all add: beginConnection_cases conn_of_def isConnected_def)

lemma one_phase_beginConnection:
  "one_phase w \<Longrightarrow> one_phase (beginConnection p w)"
  by (cases "nonempty_cstr (wifiSsid (obj w))"; cases "isConnected w")
     (simp_all add: beginConnection_cases one_phase_iff isConnected_def)

lemma conn_of_connect:
  "\<not> armed (wifiConnectTimer (obj w)) \<Longrightarrow> \<not> armed (firstConnectionTimer (obj w)) \<Longrightarrow>
   conn_of (connect w) =
     (if nonempty_cstr (wifiSsid (obj w)) \<and> \<not> isConnected w then Connecting else conn_of w)"
  by (cases "nonempty_cstr (wifiSsid (obj w))"; cases "isConnected w")
     (simp_all add: connect_cases conn_of_def isConnected_def)

lemma conn_of_disconnect: "conn_of (disconnect p w) = Idle"
  by (simp add: disconnect_def conn_of_def isConnected_def)

lemma one_phase_connect:
  "one_phase w \<Longrightarrow> \<not> armed (wifiConnectTimer (obj w)) \<Longrightarrow> \<not> armed (firstConnectionTimer (obj w)) \<Longrightarrow>
   one_phase (connect w)"
  by (cases "nonempty_cstr (wifiSsid (obj w))"; cases "isConnected w")
     (simp_all add: connect_cases one_phase_iff isConnected_def)

lemma one_phase_disconnect: "one_phase (disconnect p w)"
  by (simp add: disconnect_def one_phase_iff isConnected_def)

lemma conn_of_onWifiDisconnected:
  "conn_of (onWifiDisconnected p w) =
     (if autoReconnect (obj w) then AwaitingRetryDelay else conn_of w)"
  by (simp add: conn_of_def isConnected_def onWifiDisconnected_parts reset_wifi)

lemma one_phase_onWifiDisconnected:
  "one_phase w \<Longrightarrow> \<not> (autoReconnect (obj w) \<and> armed (firstConnectionTimer (obj w))) \<Longrightarrow>
   \<not> isConnected w \<Longrightarrow> \<not> attempting (wifi w) \<Longrightarrow> one_phase (onWifiDisconnected p w)"
  by (simp add: one_phase_iff isConnected_def onWifiDisconnected_parts reset_wifi)

lemma conn_of_sta_disconnected:
  "one_phase w \<Longrightarrow>
   conn_of (w\<lparr>wifi := radio_sta_disconnected (wifi w)\<rparr>) =
     (if conn_of w = Connected \<or> conn_of w = Connecting then Idle else conn_of w)"
  by (simp add: conn_of_def one_phase_iff isConnected_def)

lemma phase_setters:
  "conn_of (setWifiInfos ssid pw w) = conn_of w" "one_phase (setWifiInfos ssid pw w) = one_phase w"
  "conn_of (setHostname hn w) = conn_of w" "one_phase (setHostname hn w) = one_phase w"
  "conn_of (setAutoReconnect b w) = conn_of w" "one_phase (setAutoReconnect b w) = one_phase w"
  "conn_of (onConnectionEstablished cb w) = conn_of w"
  "one_phase (onConnectionEstablished cb w) = one_phase w"
  "conn_of (onConnectionLost cb w) = conn_of w" "one_phase (onConnectionLost cb w) = one_phase w"
  "conn_of (enableDebuggingMessages b w) = conn_of w"
  "one_phase (enableDebuggingMessages b w) = one_phase w"
  by (simp_all add: conn_of_def one_phase_iff isConnected_def setWifiInfos_def setHostname_def
      setAutoReconnect_def onConnectionEstablished_def onConnectionLost_def
      enableDebuggingMessages_def)

lemma phase_destroy:
  "one_phase (cur s) \<Longrightarrow> conn_of (cur (destroy p s)) =
     (if conn_of (cur s) = Connected \<or> conn_of (cur s) = Connecting then conn_of (cur s) else Idle)"
  "one_phase (cur s) \<Longrightarrow> one_phase (cur (destroy p s))"
  by (simp_all add: destroy_def conn_of_def one_phase_iff isConnected_def)

lemma phase_got_ip:
  "attempting (wifi w) \<Longrightarrow> one_phase w \<Longrightarrow>
   conn_of w = Connecting \<and> conn_of (onWifiConnected (w\<lparr>wifi := radio_got_ip (wifi w)\<rparr>)) = Connected
   \<and> one_phase (onWifiConnected (w\<lparr>wifi := radio_got_ip (wifi w)\<rparr>))"
  by (simp add: conn_of_def one_phase_iff isConnected_def)

lemma reachable_alive_registered: "reachable p s \<Longrightarrow> alive s \<Longrightarrow> registered s"
  by (drule reachable_sys_inv) (simp add: sys_inv_def)
subsection \<open>One step of the simulation\<close>

lemma wifiSsid_ops [simp]:
  "wifiSsid (obj (beginConnection p w)) = wifiSsid (obj w)"
  "wifiSsid (obj (connect w)) = wifiSsid (obj w)"
  "wifiSsid (obj (disconnect p w)) = wifiSsid (obj w)"
  "wifiSsid (obj (onWifiDisconnected p w)) = wifiSsid (obj w)"
  "wifiSsid (obj (firstConnectionTimer_expires p w)) = wifiSsid (obj w)"
  "wifiSsid (obj (wifiConnectTimer_expires w)) = wifiSsid (obj w)"
  using obj_ops_fields [of wifiSsid, simplified]
  by (simp_all add: disconnect_def firstConnectionTimer_expires_def wifiConnectTimer_expires_def)

lemma driver_event_field:
  assumes "driver_event upd handle s = Inr s'" and "\<And>w. f (obj (handle w)) = f (obj w)"
  shows "f (obj (cur s')) = f (obj (cur s))" and "alive s' = alive s"
  using driver_event_Inr [OF assms(1)] assms(2) by auto

lemma step_fields:
  assumes st: "step p e s = Inr s'"
  shows "wifiSsid (obj (cur s')) =
           (case e of UserSetWifiInfos ssid pw \<Rightarrow> ssid | _ \<Rightarrow> wifiSsid (obj (cur s)))"
    and "autoReconnect (obj (cur s')) =
           (case e of UserSetAutoReconnect b \<Rightarrow> b | UserDisconnect \<Rightarrow> False
            | _ \<Rightarrow> autoReconnect (obj (cur s)))"
    and "e \<noteq> UserDestroy \<Longrightarrow> alive s' = alive s"
proof -
  have "wifiSsid (obj (cur s')) =
           (case e of UserSetWifiInfos ssid pw \<Rightarrow> ssid | _ \<Rightarrow> wifiSsid (obj (cur s)))
        \<and> autoReconnect (obj (cur s')) =
           (case e of UserSetAutoReconnect b \<Rightarrow> b | UserDisconnect \<Rightarrow> False
            | _ \<Rightarrow> autoReconnect (obj (cur s)))
        \<and> (e \<noteq> UserDestroy \<longrightarrow> alive s' = alive s)"
  proof (cases e)
    case GotIp
    with st have d: "driver_event radio_got_ip onWifiConnected s = Inr s'" by simp
    show ?thesis using driver_event_field [OF d, of wifiSsid] driver_event_field [OF d, of autoReconnect] GotIp
      by simp
  next
    case StaDisconnected
    with st have d: "driver_event radio_sta_disconnected (onWifiDisconnected p) s = Inr s'" by simp
    show ?thesis using driver_event_field [OF d, of wifiSsid] driver_event_field [OF d, of autoReconnect] StaDisconnected
      by simp
  qed (use st in \<open>auto simp: destroy_def setWifiInfos_def setHostname_def setAutoReconnect_def
         onConnectionEstablished_def onConnectionLost_def enableDebuggingMessages_def\<close>)
  then show "wifiSsid (obj (cur s')) =
           (case e of UserSetWifiInfos ssid pw \<Rightarrow> ssid | _ \<Rightarrow> wifiSsid (obj (cur s)))"
    and "autoReconnect (obj (cur s')) =
           (case e of UserSetAutoReconnect b \<Rightarrow> b | UserDisconnect \<Rightarrow> False
            | _ \<Rightarrow> autoReconnect (obj (cur s)))"
    and "e \<noteq> UserDestroy \<Longrightarrow> alive s' = alive s"
    by simp_all
qed

lemma step_conn_of:
  assumes r: "reachable p s" and al: "alive s" and ph: "one_phase (cur s)"
    and en: "enabled s e" and st: "step p e s = Inr s'"
  shows "conn_of (cur s') = spec_next (nonempty_cstr (wifiSsid (obj (cur s))))
           (autoReconnect (obj (cur s))) (conn_of (cur s)) (spec_event_of e)"
proof (cases e)
  case UserBeginConnection
  with st have "s' = on_world (beginConnection p) s" by simp
  moreover have "spec_next ok auto (conn_of (cur s)) SBegin =
      (if isConnected (cur s) then Connected
       else if ok then AwaitingRetryDelay else conn_of (cur s))" for ok auto
    by (cases "conn_of (cur s)") (simp_all add: conn_of_Connected_iff [symmetric])
  ultimately show ?thesis using UserBeginConnection
    by (simp add: conn_of_beginConnection conn_of_Connected_iff)
next
  case UserDisconnect
  with st show ?thesis by (auto simp: conn_of_disconnect)
next
  case FirstTimerExpires
  let ?w = "update_obj (\<lambda>h. h\<lparr>firstConnectionTimer := ticker_stop (firstConnectionTimer h)\<rparr>) (cur s)"
  from st FirstTimerExpires have "cur s' = beginConnection p ?w"
    by (auto simp: firstConnectionTimer_expires_def)
  moreover from en ph FirstTimerExpires have "conn_of (cur s) = AwaitingInitialDelay"
    and "conn_of ?w = Idle" and "\<not> isConnected (cur s)"
    by (simp_all add: conn_of_def one_phase_iff isConnected_def)
  ultimately show ?thesis using FirstTimerExpires
    by (simp add: conn_of_beginConnection)
next
  case ConnectTimerExpires
  let ?w = "update_obj (\<lambda>h. h\<lparr>wifiConnectTimer := ticker_stop (wifiConnectTimer h)\<rparr>) (cur s)"
  from st ConnectTimerExpires have "cur s' = connect ?w"
    by (auto simp: wifiConnectTimer_expires_def)
  moreover from en ph ConnectTimerExpires have "conn_of (cur s) = AwaitingRetryDelay"
    and "conn_of ?w = Idle" and "\<not> armed (firstConnectionTimer (obj ?w))"
    and "\<not> isConnected (cur s)"
    by (simp_all add: conn_of_def one_phase_iff isConnected_def)
  ultimately show ?thesis using ConnectTimerExpires
    by (simp add: conn_of_connect)
next
  case GotIp
  let ?w = "(cur s)\<lparr>wifi := radio_got_ip (wifi (cur s))\<rparr>"
  from st GotIp have "driver_event radio_got_ip onWifiConnected s = Inr s'" by simp
  then have "cur s' = onWifiConnected ?w"
    using reachable_alive_registered [OF r al] by (simp add: driver_event_parts)
  with en ph GotIp show ?thesis by (simp add: phase_got_ip got_ip_possible_def)
next
  case StaDisconnected
  let ?w = "(cur s)\<lparr>wifi := radio_sta_disconnected (wifi (cur s))\<rparr>"
  from st StaDisconnected have "driver_event radio_sta_disconnected (onWifiDisconnected p) s = Inr s'"
    by simp
  then have "cur s' = onWifiDisconnected p ?w"
    using reachable_alive_registered [OF r al] by (simp add: driver_event_parts)
  with ph StaDisconnected show ?thesis
    by (simp add: conn_of_onWifiDisconnected conn_of_sta_disconnected)
next
  case UserDestroy
  with st ph show ?thesis by (auto simp: phase_destroy)
qed (use st in \<open>auto simp: phase_setters\<close>)

lemma step_one_phase:
  assumes r: "reachable p s" and al: "alive s" and ph: "one_phase (cur s)"
    and en: "enabled s e" and st: "step p e s = Inr s'"
    and sf: "spec_safe (abs_of s) (spec_event_of e)"
  shows "one_phase (cur s')"
proof -
  have nd: "\<not> (e = StaDisconnected \<and> autoReconnect (obj (cur s))
                \<and> conn_of (cur s) = AwaitingInitialDelay)"
    using sf by (cases e) (simp_all add: spec_safe_def abs_of_def)
  show ?thesis
proof (cases e)
  case UserBeginConnection
  with st ph show ?thesis by (auto intro: one_phase_beginConnection)
next
  case UserDisconnect
  with st show ?thesis by (auto simp: one_phase_disconnect)
next
  case FirstTimerExpires
  let ?w = "update_obj (\<lambda>h. h\<lparr>firstConnectionTimer := ticker_stop (firstConnectionTimer h)\<rparr>) (cur s)"
  from st FirstTimerExpires have "cur s' = beginConnection p ?w"
    by (auto simp: firstConnectionTimer_expires_def)
  moreover from en ph FirstTimerExpires have "one_phase ?w"
    by (simp add: one_phase_iff isConnected_def)
  ultimately show ?thesis by (simp add: one_phase_beginConnection)
next
  case ConnectTimerExpires
  let ?w = "update_obj (\<lambda>h. h\<lparr>wifiConnectTimer := ticker_stop (wifiConnectTimer h)\<rparr>) (cur s)"
  from st ConnectTimerExpires have "cur s' = connect ?w"
    by (auto simp: wifiConnectTimer_expires_def)
  moreover from en ph ConnectTimerExpires have "one_phase ?w"
    and "\<not> armed (firstConnectionTimer (obj ?w))" and "\<not> armed (wifiConnectTimer (obj ?w))"
    by (simp_all add: one_phase_iff isConnected_def)
  ultimately show ?thesis by (simp add: one_phase_connect)
next
  case GotIp
  let ?w = "(cur s)\<lparr>wifi := radio_got_ip (wifi (cur s))\<rparr>"
  from st GotIp have "driver_event radio_got_ip onWifiConnected s = Inr s'" by simp
  then have "cur s' = onWifiConnected ?w"
    using reachable_alive_registered [OF r al] by (simp add: driver_event_parts)
  with en ph GotIp show ?thesis by (simp add: phase_got_ip got_ip_possible_def)
next
  case StaDisconnected
  let ?w = "(cur s)\<lparr>wifi := radio_sta_disconnected (wifi (cur s))\<rparr>"
  from st StaDisconnected have "driver_event radio_sta_disconnected (onWifiDisconnected p) s = Inr s'"
    by simp
  then have "cur s' = onWifiDisconnected p ?w"
    using reachable_alive_registered [OF r al] by (simp add: driver_event_parts)
  moreover have "\<not> (autoReconnect (obj ?w) \<and> armed (firstConnectionTimer (obj ?w)))"
    using nd StaDisconnected conn_of_initial_armed [OF ph] by auto
  moreover from ph have "one_phase ?w" and "\<not> isConnected ?w" and "\<not> attempting (wifi ?w)"
    by (simp_all add: one_phase_iff isConnected_def)
  ultimately show ?thesis by (simp add: one_phase_onWifiDisconnected)
next
  case UserDestroy
  with st ph show ?thesis by (auto simp: phase_destroy)
qed (use st ph in \<open>auto simp: phase_setters\<close>)
qed

lemma step_abs_of:
  assumes r: "reachable p s" and al: "alive s" and ph: "one_phase (cur s)"
    and en: "enabled s e" and st: "step p e s = Inr s'"
  shows "abs_of s' = spec_step (abs_of s) (spec_event_of e)"
  using step_conn_of [OF assms] step_fields(1,2) [OF st]
  by (cases e) (simp_all add: abs_of_def spec_step_def)

subsection \<open>Runs\<close>

lemma run_one_phase:
  "run p es s = Some (Inr s') \<Longrightarrow> reachable p s \<Longrightarrow> alive s \<Longrightarrow> one_phase (cur s) \<Longrightarrow>
   UserDestroy \<notin> set es \<Longrightarrow> spec_path (abs_of s) (map spec_event_of es) \<Longrightarrow> one_phase (cur s')"
proof (induction es arbitrary: s)
  case Nil
  then show ?case by simp
next
  case (Cons e es)
  from Cons.prems(1) obtain s1 where en: "enabled s e" and st: "step p e s = Inr s1"
    and r1: "run p es s1 = Some (Inr s')"
    by (rule run_Cons_Inr)
  from Cons.prems(5) have nd: "e \<noteq> UserDestroy" and nds: "UserDestroy \<notin> set es" by auto
  from Cons.prems(6) have sf: "spec_safe (abs_of s) (spec_event_of e)"
    and sp: "spec_path (spec_step (abs_of s) (spec_event_of e)) (map spec_event_of es)" by simp_all
  have rs1: "reachable p s1" using Cons.prems(2) en st by (rule reachable.go)
  have al1: "alive s1" using step_fields(3) [OF st nd] Cons.prems(3) by simp
  have ph1: "one_phase (cur s1)"
    using Cons.prems(2,3,4) en st sf by (rule step_one_phase)
  have sp1: "spec_path (abs_of s1) (map spec_event_of es)"
    using step_abs_of [OF Cons.prems(2,3,4) en st] sp by simp
  show ?case by (rule Cons.IH [OF r1 rs1 al1 ph1 nds sp1])
qed

text \<open>
  C7. Trace refinement of the spec's supervisor: along every run of a live object from a
  reachable single-phase state, with no destruction, whose abstract trace avoids the one
  transition the code does not implement, the abstract state of the final state (phase,
  whether the network name is set, \<open>autoReconnect\<close>) is the one the spec's machine
  reaches by the abstract events of the run.
\<close>

theorem run_refines_spec:
  "run p es s = Some (Inr s') \<Longrightarrow> reachable p s \<Longrightarrow> alive s \<Longrightarrow> one_phase (cur s) \<Longrightarrow>
   UserDestroy \<notin> set es \<Longrightarrow> spec_path (abs_of s) (map spec_event_of es) \<Longrightarrow>
   abs_of s' = foldl spec_step (abs_of s) (map spec_event_of es)"
proof (induction es arbitrary: s)
  case Nil
  then show ?case by simp
next
  case (Cons e es)
  from Cons.prems(1) obtain s1 where en: "enabled s e" and st: "step p e s = Inr s1"
    and r1: "run p es s1 = Some (Inr s')"
    by (rule run_Cons_Inr)
  from Cons.prems(5) have nd: "e \<noteq> UserDestroy" and nds: "UserDestroy \<notin> set es" by auto
  from Cons.prems(6) have sf: "spec_safe (abs_of s) (spec_event_of e)"
    and sp: "spec_path (spec_step (abs_of s) (spec_event_of e)) (map spec_event_of es)" by simp_all
  have a1: "abs_of s1 = spec_step (abs_of s) (spec_event_of e)"
    using Cons.prems(2,3,4) en st by (rule step_abs_of)
  have rs1: "reachable p s1" using Cons.prems(2) en st by (rule reachable.go)
  have al1: "alive s1" using step_fields(3) [OF st nd] Cons.prems(3) by simp
  have ph1: "one_phase (cur s1)"
    using Cons.prems(2,3,4) en st sf by (rule step_one_phase)
  have sp1: "spec_path (abs_of s1) (map spec_event_of es)" using a1 sp by simp
  have "abs_of s' = foldl spec_step (abs_of s1) (map spec_event_of es)"
    by (rule Cons.IH [OF r1 rs1 al1 ph1 nds sp1])
  with a1 show ?case by simp
qed

theorem run_refines_spec_witness:
  "\<exists>s'. run ESP32 [FirstTimerExpires, ConnectTimerExpires, GotIp, StaDisconnected] (start ESP32 (Some ''net'') (Some ''pw'') None True radio_boot) = Some (Inr s')
      \<and> abs_of s' = \<lparr>phase = AwaitingRetryDelay, configured = True, auto_reconnect = True\<rparr>"
proof -
  let ?s0 = "start ESP32 (Some ''net'') (Some ''pw'') None True radio_boot"
  obtain s' where r: "run ESP32 [FirstTimerExpires, ConnectTimerExpires, GotIp, StaDisconnected] ?s0 = Some (Inr s')"
    by (simp add: sys_eval)
  have re: "reachable ESP32 ?s0" by (rule reachable.init) simp
  have al: "alive ?s0" by (simp add: start_def)
  have ph: "one_phase (cur ?s0)" by (simp add: sys_eval one_phase_iff)
  have nd: "UserDestroy \<notin> set [FirstTimerExpires, ConnectTimerExpires, GotIp, StaDisconnected]" by simp
  have a0: "abs_of ?s0 = \<lparr>phase = AwaitingInitialDelay, configured = True, auto_reconnect = True\<rparr>"
    by (simp add: sys_eval abs_of_def conn_of_def)
  have sp: "spec_path (abs_of ?s0) (map spec_event_of [FirstTimerExpires, ConnectTimerExpires, GotIp, StaDisconnected])"
    by (simp add: a0 spec_safe_def spec_step_def)
  from run_refines_spec [OF r re al ph nd sp] a0
  have "abs_of s' = \<lparr>phase = AwaitingRetryDelay, configured = True, auto_reconnect = True\<rparr>"
    by (simp add: spec_step_def)
  with r show ?thesis by blast
qed

text \<open>
  C8. The spec's resource invariant on the code: on every run of a freshly constructed
  object on a driver that is neither connected nor joining, without destruction, whose
  abstract trace avoids the transition the code does not implement, at most one of the two
  timers is armed, and none while the station is connected or a join is in progress.
\<close>

theorem fresh_run_one_timer:
  assumes r: "run p es (start p ssid pw hn ac rd) = Some (Inr s')"
    and wf: "radio_wf rd" and nc: "status rd \<noteq> WL_CONNECTED" and na: "\<not> attempting rd"
    and nd: "UserDestroy \<notin> set es"
    and sp: "spec_path (abs_of (start p ssid pw hn ac rd)) (map spec_event_of es)"
  shows "\<not> (armed (firstConnectionTimer (obj (cur s'))) \<and> armed (wifiConnectTimer (obj (cur s'))))
       \<and> (isConnected (cur s') \<or> attempting (wifi (cur s')) \<longrightarrow>
            \<not> armed (firstConnectionTimer (obj (cur s'))) \<and> \<not> armed (wifiConnectTimer (obj (cur s'))))"
proof -
  have re: "reachable p (start p ssid pw hn ac rd)" using wf by (rule reachable.init)
  have al: "alive (start p ssid pw hn ac rd)" by (simp add: start_def)
  have ph: "one_phase (cur (start p ssid pw hn ac rd))"
    using nc na by (simp add: start_def construct_def Let_def one_phase_iff isConnected_def)
  from run_one_phase [OF r re al ph nd sp] show ?thesis by (auto simp: one_phase_iff)
qed

theorem fresh_run_one_timer_witness:
  "\<exists>s'. run ESP8266 [FirstTimerExpires, ConnectTimerExpires, GotIp, StaDisconnected] (start ESP8266 (Some ''net'') (Some ''pw'') None True radio_boot) = Some (Inr s')
      \<and> armed (wifiConnectTimer (obj (cur s')))
      \<and> \<not> armed (firstConnectionTimer (obj (cur s')))"
proof -
  let ?s0 = "start ESP8266 (Some ''net'') (Some ''pw'') None True radio_boot"
  obtain s' where r: "run ESP8266 [FirstTimerExpires, ConnectTimerExpires, GotIp, StaDisconnected] ?s0 = Some (Inr s')"
    by (simp add: sys_eval)
  have nd: "UserDestroy \<notin> set [FirstTimerExpires, ConnectTimerExpires, GotIp, StaDisconnected]" by simp
  have a0: "abs_of ?s0 = \<lparr>phase = AwaitingInitialDelay, configured = True, auto_reconnect = True\<rparr>"
    by (simp add: sys_eval abs_of_def conn_of_def)
  have sp: "spec_path (abs_of ?s0) (map spec_event_of [FirstTimerExpires, ConnectTimerExpires, GotIp, StaDisconnected])"
    by (simp add: a0 spec_safe_def spec_step_def)
  have "armed (wifiConnectTimer (obj (cur s')))"
    using r by (auto simp: sys_eval onWifiDisconnected_parts split: if_splits)
  moreover have wf: "radio_wf radio_boot" by simp
  moreover have nc: "status radio_boot \<noteq> WL_CONNECTED" and na: "\<not> attempting radio_boot"
    by (simp_all add: radio_boot_def)
  ultimately show ?thesis using fresh_run_one_timer [OF r wf nc na nd sp] r by blast
qed

end
