(* ===== verification/Traces.thy ===== *)
theory Traces
  imports Abstract
begin

text \<open>
  Properties of whole runs of the running system: the effect log only grows, and by a
  bounded amount per event; the exchange between handler and driver stops on its own; a
  retry scheduled by a disassociation is never lost; every join request of a run has
  well-formed C string arguments; and a connected station stays connected.
\<close>

text \<open>\<open>w'\<close> extends the effect log of \<open>w\<close> by at most \<open>k\<close> effects.\<close>

definition grows :: "nat \<Rightarrow> world \<Rightarrow> world \<Rightarrow> bool" where
  "grows k w w' \<longleftrightarrow> (\<exists>xs. out w' = out w @ xs \<and> length xs \<le> k)"

text \<open>
  The events the environment raises without the user: timer expiries and driver events.
\<close>

fun env_event :: "event \<Rightarrow> bool" where
  "env_event FirstTimerExpires = True"
| "env_event ConnectTimerExpires = True"
| "env_event GotIp = True"
| "env_event StaDisconnected = True"
| "env_event _ = False"

fun driver_event_kind :: "event \<Rightarrow> bool" where
  "driver_event_kind GotIp = True"
| "driver_event_kind StaDisconnected = True"
| "driver_event_kind _ = False"

text \<open>
  How many events the driver can still raise on its own: two while a join is in progress
  (the address, then the loss of the association), one while it is associated or owes a
  disconnection report, none otherwise.
\<close>

definition driver_budget :: "radio \<Rightarrow> nat" where
  "driver_budget r =
     (if attempting r then 2 else if status r = WL_CONNECTED \<or> lost_pending r then 1 else 0)"

text \<open>
  A retry is pending when the connect timer is armed and the station is neither connected
  nor joining; it has been served once a join request follows in the effect log.
\<close>

definition retry_pending :: "sys \<Rightarrow> bool" where
  "retry_pending t \<longleftrightarrow> armed (wifiConnectTimer (obj (cur t)))
     \<and> \<not> isConnected (cur t) \<and> \<not> attempting (wifi (cur t))"

definition begun :: "sys \<Rightarrow> sys \<Rightarrow> bool" where
  "begun s t \<longleftrightarrow> (\<exists>a b. Call (Begin a b) \<in> set (new_effects s t))"

subsection \<open>The effect log\<close>

lemma grows_refl: "grows 0 w w"
  by (simp add: grows_def)

lemma grows_trans: "grows k w1 w2 \<Longrightarrow> grows l w2 w3 \<Longrightarrow> grows (k + l) w1 w3"
  by (fastforce simp: grows_def)

lemma grows_mono: "grows k w w' \<Longrightarrow> k \<le> l \<Longrightarrow> grows l w w'"
  by (auto simp: grows_def)

lemma grows_prims:
  "grows 1 w (serial_log m w)" "grows 1 w (emit e w)" "grows 1 w (radio_call c w)"
  "grows 0 w (update_obj f w)" "grows 0 w (stop_timers w)" "grows 0 w (w\<lparr>wifi := r\<rparr>)"
  by (auto simp: grows_def)

lemma grows_reset: "grows 3 w (reset p w)"
  by (cases p) (auto simp: grows_def reset_out)

lemma grows_scheduleConnection: "grows 3 w (scheduleConnection p w)"
  by (simp add: grows_def reset_out split: platform.split)

lemma grows_apply_hostname: "grows 1 w (apply_hostname w)"
  by (auto simp: grows_def apply_hostname_def split: option.split)

lemma grows_ops:
  "grows 5 w (beginConnection p w)"
  "grows 2 w (connect w)"
  "grows 4 w (disconnect p w)"
  "grows 2 w (onWifiConnected w)"
  "grows 5 w (onWifiDisconnected p w)"
proof -
  show "grows 5 w (beginConnection p w)"
  proof (cases "nonempty_cstr (wifiSsid (obj w)) \<and> \<not> isConnected w")
    case True
    have "grows (0 + 1 + 1 + 3) w
            (scheduleConnection p (apply_hostname (serial_log MsgInitializing (stop_timers w))))"
      by (rule grows_trans [OF grows_trans [OF grows_trans [OF grows_prims(5) grows_prims(1)]
                 grows_apply_hostname] grows_scheduleConnection])
    with True show ?thesis by (simp add: beginConnection_cases)
  next
    case False
    then show ?thesis
      by (cases "nonempty_cstr (wifiSsid (obj w))")
         (auto simp: beginConnection_cases intro: grows_mono [OF grows_prims(1)])
  qed
  show "grows 2 w (connect w)"
    by (cases "nonempty_cstr (wifiSsid (obj w))"; cases "isConnected w")
       (auto simp: grows_def connect_cases)
  show "grows 4 w (disconnect p w)"
  proof -
    have "grows (1 + 0 + 0 + 3) w
            (reset p (stop_timers (update_obj (\<lambda>h. h\<lparr>autoReconnect := False\<rparr>)
                                   (serial_log MsgDisconnecting w))))"
      by (rule grows_trans [OF grows_trans [OF grows_trans [OF grows_prims(1) grows_prims(4)]
                 grows_prims(5)] grows_reset])
    then show ?thesis by (simp add: disconnect_def)
  qed
  show "grows 2 w (onWifiConnected w)"
    by (auto simp: grows_def onWifiConnected_def Let_def split: option.split)
  show "grows 5 w (onWifiDisconnected p w)"
    by (auto simp: grows_def onWifiDisconnected_def Let_def reset_out
             split: option.split platform.split)
qed

lemma grows_driver_event:
  assumes "driver_event upd handle s = Inr s'" and "\<And>w. grows k w (handle w)"
  shows "grows k (cur s) (cur s')"
proof -
  have "grows 0 (cur s) ((cur s)\<lparr>wifi := upd (wifi (cur s))\<rparr>)" by (rule grows_prims(6))
  moreover have "grows k ((cur s)\<lparr>wifi := upd (wifi (cur s))\<rparr>)
                   (handle ((cur s)\<lparr>wifi := upd (wifi (cur s))\<rparr>))" by (rule assms(2))
  ultimately show ?thesis
    using driver_event_parts [OF assms(1)] grows_trans grows_mono by fastforce
qed

lemma step_grows:
  assumes st: "step p e s = Inr s'"
  shows "grows 5 (cur s) (cur s')"
proof (cases e)
  case GotIp
  with st have "driver_event radio_got_ip onWifiConnected s = Inr s'" by simp
  then have "grows 2 (cur s) (cur s')" by (rule grows_driver_event) (rule grows_ops(4))
  then show ?thesis by (rule grows_mono) simp
next
  case StaDisconnected
  with st have "driver_event radio_sta_disconnected (onWifiDisconnected p) s = Inr s'" by simp
  then show ?thesis by (rule grows_driver_event) (rule grows_ops(5))
next
  case FirstTimerExpires
  with st have "cur s' = firstConnectionTimer_expires p (cur s)" by auto
  then show ?thesis
    unfolding firstConnectionTimer_expires_def
    using grows_trans [OF grows_prims(4) grows_ops(1)] by simp
next
  case ConnectTimerExpires
  with st have "cur s' = wifiConnectTimer_expires (cur s)" by auto
  then show ?thesis
    unfolding wifiConnectTimer_expires_def
    using grows_mono [OF grows_trans [OF grows_prims(4) grows_ops(2)]] by simp
next
  case UserBeginConnection
  with st show ?thesis by (auto simp: grows_ops(1))
next
  case UserDisconnect
  with st show ?thesis using grows_mono [OF grows_ops(3), of 5] by auto
next
  case UserDestroy
  with st show ?thesis by (auto simp: grows_def destroy_def)
qed (use st in \<open>auto simp: grows_def setWifiInfos_def setHostname_def setAutoReconnect_def
       onConnectionEstablished_def onConnectionLost_def enableDebuggingMessages_def\<close>)

subsection \<open>The driver's own events\<close>

lemma driver_step_budget:
  assumes en: "enabled s e" and k: "driver_event_kind e" and st: "step p e s = Inr s'"
  shows "driver_budget (wifi (cur s')) < driver_budget (wifi (cur s))"
proof (cases e)
  case GotIp
  with st have "driver_event radio_got_ip onWifiConnected s = Inr s'" by simp
  then have "wifi (cur s') = radio_got_ip (wifi (cur s))"
    by (auto dest: driver_event_parts)
  with en GotIp show ?thesis by (simp add: driver_budget_def got_ip_possible_def)
next
  case StaDisconnected
  with st have "driver_event radio_sta_disconnected (onWifiDisconnected p) s = Inr s'" by simp
  then have c: "cur s' = (if registered s
      then onWifiDisconnected p ((cur s)\<lparr>wifi := radio_sta_disconnected (wifi (cur s))\<rparr>)
      else (cur s)\<lparr>wifi := radio_sta_disconnected (wifi (cur s))\<rparr>)"
    by (rule driver_event_parts)
  have "driver_budget (wifi (cur s')) = 0"
    unfolding c by (simp add: onWifiDisconnected_parts reset_wifi driver_budget_def)
  with en StaDisconnected show ?thesis
    by (auto simp: driver_budget_def sta_disconnected_possible_def)
qed (use k in simp_all)

subsection \<open>Runs and reachability\<close>

lemma run_append:
  "run p es s = Some (Inr s1) \<Longrightarrow> run p (es @ es') s = run p es' s1"
proof (induction es arbitrary: s)
  case Nil
  then show ?case by simp
next
  case (Cons e es)
  from Cons.prems obtain s2 where "enabled s e" and "step p e s = Inr s2"
    and "run p es s2 = Some (Inr s1)"
    by (rule run_Cons_Inr)
  with Cons.IH show ?case by simp
qed

subsection \<open>Pending retries\<close>

lemma begun_mono:
  "begun s t \<Longrightarrow> step p e t = Inr t' \<Longrightarrow> begun s t'"
proof -
  assume b: "begun s t" and st: "step p e t = Inr t'"
  from step_grows [OF st] obtain xs where o: "out (cur t') = out (cur t) @ xs"
    by (auto simp: grows_def)
  from b obtain a c where "Call (Begin a c) \<in> set (drop (length (out (cur s))) (out (cur t)))"
    by (auto simp: begun_def new_effects_def)
  then have "Call (Begin a c) \<in> set (drop (length (out (cur s))) (out (cur t')))"
    unfolding o by (auto dest: in_set_dropD simp: in_set_conv_nth nth_append)
  then show "begun s t'" by (auto simp: begun_def new_effects_def)
qed

lemma set_drop_add: "set (drop (m + n) l) \<subseteq> set (drop m l)"
  by (metis add.commute drop_drop set_drop_subset)

lemma begun_extend:
  "out (cur t) = out (cur s) @ xs \<Longrightarrow> begun t t1 \<Longrightarrow> begun s t1"
  using set_drop_add [of "length (out (cur s))" "length xs" "out (cur t1)"]
  by (auto simp: begun_def new_effects_def)

lemma sta_disconnected_schedules:
  assumes "registered t" "autoReconnect (obj (cur t))"
    and "step p StaDisconnected t = Inr t'"
  shows "retry_pending t'"
proof -
  from assms(3) have "driver_event radio_sta_disconnected (onWifiDisconnected p) t = Inr t'"
    by simp
  then have "cur t' = onWifiDisconnected p ((cur t)\<lparr>wifi := radio_sta_disconnected (wifi (cur t))\<rparr>)"
    using assms(1) by (simp add: driver_event_parts)
  with assms(2) show ?thesis
    by (simp add: retry_pending_def onWifiDisconnected_parts reset_wifi isConnected_def)
qed

lemma env_step_retry:
  assumes r: "reachable p t" and al: "alive t" and au: "autoReconnect (obj (cur t))"
    and ok: "nonempty_cstr (wifiSsid (obj (cur t)))" and pd: "retry_pending t"
    and en: "enabled t e" and ev: "env_event e" and st: "step p e t = Inr t'"
  shows "retry_pending t' \<or> begun t t'"
proof (cases e)
  case FirstTimerExpires
  let ?w = "update_obj (\<lambda>h. h\<lparr>firstConnectionTimer := ticker_stop (firstConnectionTimer h)\<rparr>) (cur t)"
  from st FirstTimerExpires have "cur t' = beginConnection p ?w"
    by (auto simp: firstConnectionTimer_expires_def)
  with ok pd show ?thesis by (simp add: retry_pending_def beginConnection_cases isConnected_def)
next
  case ConnectTimerExpires
  let ?w = "update_obj (\<lambda>h. h\<lparr>wifiConnectTimer := ticker_stop (wifiConnectTimer h)\<rparr>) (cur t)"
  from st ConnectTimerExpires have "cur t' = connect ?w"
    by (auto simp: wifiConnectTimer_expires_def)
  with ok pd have "begun t t'"
    by (auto simp: begun_def new_effects_def retry_pending_def connect_cases isConnected_def)
  then show ?thesis ..
next
  case GotIp
  with en pd show ?thesis by (simp add: retry_pending_def got_ip_possible_def)
next
  case StaDisconnected
  with st au reachable_alive_registered [OF r al] show ?thesis
    by (blast intro: sta_disconnected_schedules)
qed (use ev in simp_all)

lemma env_run_retry:
  "run p es t = Some (Inr t') \<Longrightarrow> reachable p t \<Longrightarrow> alive t \<Longrightarrow>
   autoReconnect (obj (cur t)) \<Longrightarrow> nonempty_cstr (wifiSsid (obj (cur t))) \<Longrightarrow>
   \<forall>e\<in>set es. env_event e \<Longrightarrow> \<exists>xs. out (cur t) = out (cur s) @ xs \<Longrightarrow>
   retry_pending t \<or> begun s t \<Longrightarrow> retry_pending t' \<or> begun s t'"
proof (induction es arbitrary: t)
  case Nil
  then show ?case by simp
next
  case (Cons e es)
  from Cons.prems(1) obtain t1 where en: "enabled t e" and st: "step p e t = Inr t1"
    and r1: "run p es t1 = Some (Inr t')"
    by (rule run_Cons_Inr)
  from Cons.prems(6) have ev: "env_event e" and evs: "\<forall>e\<in>set es. env_event e" by simp_all
  then have nd: "e \<noteq> UserDestroy" by auto
  have rs1: "reachable p t1" using Cons.prems(2) en st by (rule reachable.go)
  have al1: "alive t1" using step_fields(3) [OF st nd] Cons.prems(3) by simp
  have au1: "autoReconnect (obj (cur t1))" and ok1: "nonempty_cstr (wifiSsid (obj (cur t1)))"
    using step_fields(1,2) [OF st] ev Cons.prems(4,5) by (cases e; simp)+
  from Cons.prems(7) obtain xs where pre: "out (cur t) = out (cur s) @ xs" by blast
  from step_grows [OF st] pre have pre1: "\<exists>xs. out (cur t1) = out (cur s) @ xs"
    by (auto simp: grows_def)
  have "retry_pending t1 \<or> begun s t1"
    using Cons.prems(8)
  proof
    assume "retry_pending t"
    from env_step_retry [OF Cons.prems(2-5) this en ev st]
    show ?thesis
    proof
      assume "begun t t1"
      with pre show ?thesis by (blast intro: begun_extend)
    qed simp
  next
    assume "begun s t"
    then show ?thesis using st by (blast intro: begun_mono)
  qed
  then show ?case by (rule Cons.IH [OF r1 rs1 al1 au1 ok1 evs pre1])
qed

subsection \<open>Arguments of join requests\<close>

lemma connect_begin_args:
  assumes "Call (Begin a b) \<in> set (drop (length (out w)) (out (connect w)))"
  shows "c_arg a \<and> (\<forall>k. b = Some k \<longrightarrow> c_arg k)"
proof (cases "nonempty_cstr (wifiSsid (obj w)) \<and> \<not> isConnected w")
  case True
  with assms have "a = cstr_val (wifiSsid (obj w))"
    and "b = (if nonempty_cstr (wifiPassword (obj w))
              then Some (cstr_val (wifiPassword (obj w))) else None)"
    by (auto simp: connect_cases split: if_splits)
  with True show ?thesis
    by (auto simp: cstr_val_def nonempty_cstr_def split: option.splits)
next
  case False
  with assms show ?thesis
    by (cases "nonempty_cstr (wifiSsid (obj w))") (auto simp: connect_cases split: if_splits)
qed

lemma step_begin_args:
  assumes st: "step p e s = Inr s'" and bg: "Call (Begin a b) \<in> set (new_effects s s')"
  shows "c_arg a \<and> (\<forall>k. b = Some k \<longrightarrow> c_arg k)"
proof (cases "e = ConnectTimerExpires")
  case True
  let ?w = "update_obj (\<lambda>h. h\<lparr>wifiConnectTimer := ticker_stop (wifiConnectTimer h)\<rparr>) (cur s)"
  from st True have "cur s' = connect ?w" by (auto simp: wifiConnectTimer_expires_def)
  with bg have "Call (Begin a b) \<in> set (drop (length (out ?w)) (out (connect ?w)))"
    by (simp add: new_effects_def)
  then show ?thesis by (rule connect_begin_args)
next
  case False
  with st have "quiet (cur s) (cur s')" by (rule step_quiet)
  with bg show ?thesis by (simp add: new_effects_def quiet_no_begin)
qed

lemma run_out_prefix: "run p es s = Some (Inr s') \<Longrightarrow> \<exists>xs. out (cur s') = out (cur s) @ xs"
proof (induction es arbitrary: s)
  case Nil
  then show ?case by simp
next
  case (Cons e es)
  from Cons.prems obtain s1 where st: "step p e s = Inr s1" and r: "run p es s1 = Some (Inr s')"
    by (rule run_Cons_Inr)
  with step_grows [OF st] Cons.IH [OF r] show ?case by (auto simp: grows_def)
qed

lemma new_effects_split:
  "out (cur s1) = out (cur s) @ ys \<Longrightarrow> out (cur s') = out (cur s1) @ xs \<Longrightarrow>
   new_effects s s' = new_effects s s1 @ new_effects s1 s'"
  by (simp add: new_effects_def)

text \<open>
  C10. The exchange between the handler and the driver ends on
  its own: without a timer expiry or a user call, the driver can raise at most
  \<open>driver_budget\<close> events in a row, never more than two (the address of a join, then
  the loss of that association). The reset inside \<open>_onWifiDisconnected\<close> creates no
  new report, so no disconnect/reconnect loop runs without the timers.
\<close>

theorem driver_exchange_terminates:
  "run p es s = Some (Inr s') \<Longrightarrow> \<forall>e\<in>set es. driver_event_kind e \<Longrightarrow>
   length es \<le> driver_budget (wifi (cur s)) \<and> driver_budget (wifi (cur s)) \<le> 2"
proof (induction es arbitrary: s)
  case Nil
  then show ?case by (simp add: driver_budget_def)
next
  case (Cons e es)
  from Cons.prems(1) obtain s1 where en: "enabled s e" and st: "step p e s = Inr s1"
    and r: "run p es s1 = Some (Inr s')"
    by (rule run_Cons_Inr)
  from Cons.prems(2) have k: "driver_event_kind e" and ks: "\<forall>e\<in>set es. driver_event_kind e"
    by simp_all
  from driver_step_budget [OF en k st] Cons.IH [OF r ks] show ?case
    by (simp add: driver_budget_def split: if_splits)
qed

theorem driver_exchange_terminates_witness:
  "\<exists>s'. run ESP32 [GotIp, StaDisconnected] (on_world wifiConnectTimer_expires (on_world (beginConnection ESP32) (start ESP32 (Some ''net'') (Some ''pw'') None False radio_boot))) = Some (Inr s')
      \<and> length [GotIp, StaDisconnected] \<le> driver_budget (wifi (cur (on_world wifiConnectTimer_expires (on_world (beginConnection ESP32) (start ESP32 (Some ''net'') (Some ''pw'') None False radio_boot)))))
      \<and> run ESP32 [GotIp, StaDisconnected, StaDisconnected] (on_world wifiConnectTimer_expires (on_world (beginConnection ESP32) (start ESP32 (Some ''net'') (Some ''pw'') None False radio_boot))) = None"
proof -
  obtain s' where r: "run ESP32 [GotIp, StaDisconnected] (on_world wifiConnectTimer_expires (on_world (beginConnection ESP32) (start ESP32 (Some ''net'') (Some ''pw'') None False radio_boot))) = Some (Inr s')"
    by (simp add: sys_eval)
  have k: "\<forall>e\<in>set [GotIp, StaDisconnected]. driver_event_kind e" by simp
  have "run ESP32 [GotIp, StaDisconnected, StaDisconnected] (on_world wifiConnectTimer_expires (on_world (beginConnection ESP32) (start ESP32 (Some ''net'') (Some ''pw'') None False radio_boot))) = None"
    by (simp add: sys_eval onWifiDisconnected_def)
  with driver_exchange_terminates [OF r k] r show ?thesis by blast
qed

text \<open>
  C9. A retry is never lost: after a disassociation report reaches a live
  object with \<open>autoReconnect\<close> set and a network name, every continuation made of timer
  expiries and driver events alone either still has the connect timer armed or has
  requested a join. With a timer service that eventually fires its armed timers, the
  handler therefore always calls \<open>WiFi.begin\<close> again.
\<close>

theorem retry_not_lost:
  assumes r: "run p (StaDisconnected # es) s = Some (Inr s')"
    and re: "reachable p s" and al: "alive s" and au: "autoReconnect (obj (cur s))"
    and ok: "nonempty_cstr (wifiSsid (obj (cur s)))" and ev: "\<forall>e\<in>set es. env_event e"
  shows "armed (wifiConnectTimer (obj (cur s'))) \<or> (\<exists>a b. Call (Begin a b) \<in> set (new_effects s s'))"
proof -
  from r obtain s1 where en: "enabled s StaDisconnected" and st: "step p StaDisconnected s = Inr s1"
    and r1: "run p es s1 = Some (Inr s')"
    by (rule run_Cons_Inr)
  have pd: "retry_pending s1"
    using reachable_alive_registered [OF re al] au st by (rule sta_disconnected_schedules)
  have rs1: "reachable p s1" using re en st by (rule reachable.go)
  have al1: "alive s1" using step_fields(3) [OF st] al by simp
  have au1: "autoReconnect (obj (cur s1))" and ok1: "nonempty_cstr (wifiSsid (obj (cur s1)))"
    using step_fields(1,2) [OF st] au ok by simp_all
  from step_grows [OF st] have pre: "\<exists>xs. out (cur s1) = out (cur s) @ xs"
    by (auto simp: grows_def)
  from env_run_retry [OF r1 rs1 al1 au1 ok1 ev pre] pd
  have "retry_pending s' \<or> begun s s'" by blast
  then show ?thesis by (auto simp: retry_pending_def begun_def)
qed

theorem retry_not_lost_witness:
  "\<exists>s'. run ESP32 [StaDisconnected, ConnectTimerExpires] (start ESP32 (Some ''net'') (Some ''pw'') None False (radio_boot\<lparr>status := WL_CONNECTED\<rparr>)) = Some (Inr s')
      \<and> (\<exists>a b. Call (Begin a b) \<in> set (new_effects (start ESP32 (Some ''net'') (Some ''pw'') None False (radio_boot\<lparr>status := WL_CONNECTED\<rparr>)) s'))"
proof -
  obtain s' where r: "run ESP32 [StaDisconnected, ConnectTimerExpires] (start ESP32 (Some ''net'') (Some ''pw'') None False (radio_boot\<lparr>status := WL_CONNECTED\<rparr>)) = Some (Inr s')"
    by (simp add: sys_eval onWifiDisconnected_def)
  have re: "reachable ESP32 (start ESP32 (Some ''net'') (Some ''pw'') None False (radio_boot\<lparr>status := WL_CONNECTED\<rparr>))" by (rule reachable.init) (simp add: radio_wf_def radio_boot_def)
  have al: "alive (start ESP32 (Some ''net'') (Some ''pw'') None False (radio_boot\<lparr>status := WL_CONNECTED\<rparr>))" and au: "autoReconnect (obj (cur (start ESP32 (Some ''net'') (Some ''pw'') None False (radio_boot\<lparr>status := WL_CONNECTED\<rparr>))))"
    and ok: "nonempty_cstr (wifiSsid (obj (cur (start ESP32 (Some ''net'') (Some ''pw'') None False (radio_boot\<lparr>status := WL_CONNECTED\<rparr>)))))" by (simp_all add: sys_eval)
  have ev: "\<forall>e\<in>set [ConnectTimerExpires]. env_event e" by simp
  have na: "\<not> armed (wifiConnectTimer (obj (cur s')))"
    using r by (auto simp: sys_eval onWifiDisconnected_def)
  from retry_not_lost [OF r re al au ok ev] na r show ?thesis by blast
qed

text \<open>
  C19. Every join request of every run hands the driver proper C
  strings: a non-empty network name without NUL, and either no key or a non-empty key
  without NUL. An unset or empty password never reaches \<open>WiFi.begin\<close> as a key.
\<close>

theorem run_begin_args_wellformed:
  "run p es s = Some (Inr s') \<Longrightarrow> Call (Begin a b) \<in> set (new_effects s s') \<Longrightarrow>
   c_arg a \<and> (\<forall>k. b = Some k \<longrightarrow> c_arg k)"
proof (induction es arbitrary: s)
  case Nil
  then show ?case by (simp add: new_effects_def)
next
  case (Cons e es)
  from Cons.prems(1) obtain s1 where st: "step p e s = Inr s1" and r: "run p es s1 = Some (Inr s')"
    by (rule run_Cons_Inr)
  from step_grows [OF st] obtain ys where o1: "out (cur s1) = out (cur s) @ ys"
    by (auto simp: grows_def)
  from run_out_prefix [OF r] obtain xs where o2: "out (cur s') = out (cur s1) @ xs"
    by blast
  from Cons.prems(2) new_effects_split [OF o1 o2]
  have "Call (Begin a b) \<in> set (new_effects s s1) \<or> Call (Begin a b) \<in> set (new_effects s1 s')"
    by simp
  then show ?case
  proof
    assume "Call (Begin a b) \<in> set (new_effects s s1)"
    with st show ?thesis by (rule step_begin_args)
  next
    assume "Call (Begin a b) \<in> set (new_effects s1 s')"
    with r show ?thesis by (rule Cons.IH)
  qed
qed

theorem run_begin_args_wellformed_witness:
  "\<exists>s'. run ESP32 [UserBeginConnection, ConnectTimerExpires] (start ESP32 (Some ''net'') (Some []) None False radio_boot) = Some (Inr s')
      \<and> Call (Begin ''net'' None) \<in> set (new_effects (start ESP32 (Some ''net'') (Some []) None False radio_boot) s')
      \<and> c_arg ''net''"
proof -
  obtain s' where r: "run ESP32 [UserBeginConnection, ConnectTimerExpires] (start ESP32 (Some ''net'') (Some []) None False radio_boot) = Some (Inr s')"
    by (simp add: sys_eval)
  have bg: "Call (Begin ''net'' None) \<in> set (new_effects (start ESP32 (Some ''net'') (Some []) None False radio_boot) s')"
    using r by (auto simp: sys_eval)
  from run_begin_args_wellformed [OF r bg] r bg show ?thesis by blast
qed

text \<open>
  C4. The handler never tears down a working connection on its own: while
  the driver reports a connection, every event other than \<open>disconnect()\<close> and a
  disassociation report (timer expiries included) leaves the station connected and makes
  no driver call at all.
\<close>

theorem connected_stable:
  assumes st: "step p e s = Inr s'" and c: "isConnected (cur s)"
    and nd: "e \<noteq> UserDisconnect" and ns: "e \<noteq> StaDisconnected"
  shows "isConnected (cur s') \<and> (\<forall>k. Call k \<notin> set (new_effects s s'))"
proof (cases e)
  case UserBeginConnection
  with st c show ?thesis
    by (cases "nonempty_cstr (wifiSsid (obj (cur s)))")
       (auto simp: beginConnection_cases new_effects_def)
next
  case FirstTimerExpires
  with st c show ?thesis
    by (cases "nonempty_cstr (wifiSsid (obj (cur s)))")
       (auto simp: firstConnectionTimer_expires_def beginConnection_cases new_effects_def)
next
  case ConnectTimerExpires
  with st c show ?thesis
    by (cases "nonempty_cstr (wifiSsid (obj (cur s)))")
       (auto simp: wifiConnectTimer_expires_def connect_cases new_effects_def)
next
  case GotIp
  with st have "driver_event radio_got_ip onWifiConnected s = Inr s'" by simp
  then have "cur s' = (if registered s then onWifiConnected ((cur s)\<lparr>wifi := radio_got_ip (wifi (cur s))\<rparr>)
                       else (cur s)\<lparr>wifi := radio_got_ip (wifi (cur s))\<rparr>)"
    by (rule driver_event_parts)
  then show ?thesis
    by (auto simp: new_effects_def isConnected_def onWifiConnected_def Let_def
             split: option.split_asm if_split_asm)
next
  case UserDestroy
  with st c show ?thesis by (auto simp: destroy_def new_effects_def)
qed (use st c nd ns in \<open>auto simp: new_effects_def setWifiInfos_def setHostname_def
       setAutoReconnect_def onConnectionEstablished_def onConnectionLost_def
       enableDebuggingMessages_def\<close>)

theorem connected_stable_witness:
  "isConnected (cur (on_world (firstConnectionTimer_expires ESP32) (start ESP32 (Some ''net'') (Some ''pw'') None True (radio_boot\<lparr>status := WL_CONNECTED\<rparr>))))
   \<and> new_effects (start ESP32 (Some ''net'') (Some ''pw'') None True (radio_boot\<lparr>status := WL_CONNECTED\<rparr>)) (on_world (firstConnectionTimer_expires ESP32) (start ESP32 (Some ''net'') (Some ''pw'') None True (radio_boot\<lparr>status := WL_CONNECTED\<rparr>))) = []"
proof -
  have st: "step ESP32 FirstTimerExpires (start ESP32 (Some ''net'') (Some ''pw'') None True (radio_boot\<lparr>status := WL_CONNECTED\<rparr>))
            = Inr (on_world (firstConnectionTimer_expires ESP32) (start ESP32 (Some ''net'') (Some ''pw'') None True (radio_boot\<lparr>status := WL_CONNECTED\<rparr>)))" by simp
  have c: "isConnected (cur (start ESP32 (Some ''net'') (Some ''pw'') None True (radio_boot\<lparr>status := WL_CONNECTED\<rparr>)))" by (simp add: sys_eval)
  have "new_effects (start ESP32 (Some ''net'') (Some ''pw'') None True (radio_boot\<lparr>status := WL_CONNECTED\<rparr>)) (on_world (firstConnectionTimer_expires ESP32) (start ESP32 (Some ''net'') (Some ''pw'') None True (radio_boot\<lparr>status := WL_CONNECTED\<rparr>))) = []"
    by (simp add: sys_eval)
  with connected_stable [OF st c] show ?thesis by simp
qed

end
