(* ===== verification/Callbacks.thy ===== *)
theory Callbacks
  imports Traces
begin

text \<open>
  The user callbacks. \<open>_onWifiConnected\<close> and \<open>_onWifiDisconnected\<close> call the
  registered \<open>std::function\<close> as their last statement, inside the driver's event
  context, and the callback may call back into the object's public methods. A callback
  body is modelled as the list of public calls it makes (\<open>user_call\<close>); what else it
  does is user code the handler never sees. \<open>bodies\<close> assigns a body to every
  registered callback. The handlers with their callbacks run in place are
  \<open>onWifiConnected_cb\<close> and \<open>onWifiDisconnected_cb\<close>, and \<open>step_cb\<close> is the system
  step with them.

  Assigning a slot's \<open>std::function\<close> while that function runs destroys the running
  closure; a body that replaces its own slot and then goes on is the fault
  \<open>ClosureDestroyed\<close>.
\<close>

datatype user_call =
    UBeginConnection
  | UDisconnect
  | USetWifiInfos cstr cstr
  | USetHostname cstr
  | USetAutoReconnect bool
  | UOnConnectionEstablished "callback option"
  | UOnConnectionLost "callback option"
  | UEnableDebuggingMessages bool

fun user_method :: "platform \<Rightarrow> user_call \<Rightarrow> world \<Rightarrow> world" where
  "user_method p UBeginConnection = beginConnection p"
| "user_method p UDisconnect = disconnect p"
| "user_method p (USetWifiInfos ssid pw) = setWifiInfos ssid pw"
| "user_method p (USetHostname hn) = setHostname hn"
| "user_method p (USetAutoReconnect b) = setAutoReconnect b"
| "user_method p (UOnConnectionEstablished cb) = onConnectionEstablished cb"
| "user_method p (UOnConnectionLost cb) = onConnectionLost cb"
| "user_method p (UEnableDebuggingMessages b) = enableDebuggingMessages b"

definition run_body :: "platform \<Rightarrow> user_call list \<Rightarrow> world \<Rightarrow> world" where
  "run_body p cs w = fold (user_method p) cs w"

datatype slot = EstablishedSlot | LostSlot

fun replaces :: "slot \<Rightarrow> user_call \<Rightarrow> bool" where
  "replaces EstablishedSlot (UOnConnectionEstablished _) = True"
| "replaces LostSlot (UOnConnectionLost _) = True"
| "replaces _ _ = False"

datatype cb_fault = HandlerFault fault | ClosureDestroyed

text \<open>Calling the callback of a slot: its body runs on the object.\<close>

definition invoke ::
  "(callback \<Rightarrow> user_call list) \<Rightarrow> platform \<Rightarrow> slot \<Rightarrow> callback \<Rightarrow> world
   \<Rightarrow> cb_fault + world" where
  "invoke bodies p sl cb w =
     (if list_ex (replaces sl) (butlast (bodies cb)) then Inl ClosureDestroyed
      else Inr (run_body p (bodies cb) w))"

definition onWifiConnected_cb ::
  "(callback \<Rightarrow> user_call list) \<Rightarrow> platform \<Rightarrow> world \<Rightarrow> cb_fault + world" where
  "onWifiConnected_cb bodies p w =
     (let w1 = serial_log MsgConnected w
      in case connectionEstablishedCallback (obj w1) of
           None \<Rightarrow> Inr w1
         | Some cb \<Rightarrow> invoke bodies p EstablishedSlot cb (emit (Invoke cb) w1))"

definition onWifiDisconnected_cb ::
  "(callback \<Rightarrow> user_call list) \<Rightarrow> platform \<Rightarrow> world \<Rightarrow> cb_fault + world" where
  "onWifiDisconnected_cb bodies p w =
     (let w1 = serial_log MsgLostConnection w;
          w2 = (if autoReconnect (obj w1) then scheduleConnection p w1 else w1)
      in case connectionLostCallback (obj w2) of
           None \<Rightarrow> Inr w2
         | Some cb \<Rightarrow> invoke bodies p LostSlot cb (emit (Invoke cb) w2))"

text \<open>The driver's dispatch with a handler that may fail.\<close>

definition driver_event_cb ::
  "(radio \<Rightarrow> radio) \<Rightarrow> (world \<Rightarrow> cb_fault + world) \<Rightarrow> sys \<Rightarrow> cb_fault + sys" where
  "driver_event_cb upd handle s =
     (let s1 = on_world (\<lambda>w. w\<lparr>wifi := upd (wifi w)\<rparr>) s
      in if \<not> registered s1 then Inr s1
         else if alive s1 then
           (case handle (cur s1) of Inl f \<Rightarrow> Inl f | Inr w \<Rightarrow> Inr (s1\<lparr>cur := w\<rparr>))
         else Inl (HandlerFault UseAfterFree))"

fun step_cb ::
  "(callback \<Rightarrow> user_call list) \<Rightarrow> platform \<Rightarrow> event \<Rightarrow> sys \<Rightarrow> cb_fault + sys" where
  "step_cb bodies p GotIp s = driver_event_cb radio_got_ip (onWifiConnected_cb bodies p) s"
| "step_cb bodies p StaDisconnected s =
     driver_event_cb radio_sta_disconnected (onWifiDisconnected_cb bodies p) s"
| "step_cb bodies p e s = map_sum HandlerFault id (step p e s)"

inductive reachable_cb :: "(callback \<Rightarrow> user_call list) \<Rightarrow> platform \<Rightarrow> sys \<Rightarrow> bool"
  for bodies p where
  init: "radio_wf r \<Longrightarrow> reachable_cb bodies p (start p ssid pw hn ac r)"
| go: "reachable_cb bodies p s \<Longrightarrow> enabled s e \<Longrightarrow> step_cb bodies p e s = Inr s'
       \<Longrightarrow> reachable_cb bodies p s'"

subsection \<open>Running the bodies\<close>

lemma invoke_Inr: "invoke bodies p sl cb w = Inr w' \<Longrightarrow> w' = run_body p (bodies cb) w"
  by (simp add: invoke_def split: if_splits)

lemma run_body_simps [simp]:
  "run_body p [] w = w"
  "run_body p (c # cs) w = run_body p cs (user_method p c w)"
  by (simp_all add: run_body_def)

lemma world_ok_user_method [world_ok_rules]: "world_ok w \<Longrightarrow> world_ok (user_method p c w)"
  by (cases c) (simp_all add: world_ok_rules)

lemma world_ok_run_body [world_ok_rules]: "world_ok w \<Longrightarrow> world_ok (run_body p cs w)"
  by (induction cs arbitrary: w) (simp_all add: world_ok_user_method)

lemma world_ok_handlers_cb:
  "world_ok w \<Longrightarrow> onWifiConnected_cb bodies p w = Inr w' \<Longrightarrow> world_ok w'"
  "world_ok w \<Longrightarrow> onWifiDisconnected_cb bodies p w = Inr w' \<Longrightarrow> world_ok w'"
  by (auto simp: onWifiConnected_cb_def onWifiDisconnected_cb_def Let_def world_ok_rules
           dest!: invoke_Inr split: option.split_asm if_split_asm)

lemma quiet_user_method: "quiet w (user_method p c w)"
  by (cases c) (simp_all add: quiet_methods quiet_setters)

lemma quiet_run_body: "quiet w w' \<Longrightarrow> quiet w (run_body p cs w')"
proof (induction cs arbitrary: w')
  case Nil
  then show ?case by simp
next
  case (Cons c cs)
  have "quiet w (user_method p c w')" by (rule quiet_trans [OF Cons.prems quiet_user_method])
  then show ?case by (simp add: Cons.IH)
qed

lemma quiet_handlers_cb:
  "onWifiConnected_cb bodies p w = Inr w' \<Longrightarrow> quiet w w'"
  "onWifiDisconnected_cb bodies p w = Inr w' \<Longrightarrow> quiet w w'"
  by (auto simp: onWifiConnected_cb_def onWifiDisconnected_cb_def Let_def
           intro!: quiet_rules quiet_run_body quiet_refl
           dest!: invoke_Inr split: option.split_asm)

lemma driver_event_cb_Inr:
  assumes "driver_event_cb upd handle s = Inr s'"
  shows "(\<not> registered s \<and> s' = on_world (\<lambda>w. w\<lparr>wifi := upd (wifi w)\<rparr>) s)
       \<or> (registered s \<and> alive s
          \<and> handle ((cur s)\<lparr>wifi := upd (wifi (cur s))\<rparr>) = Inr (cur s')
          \<and> alive s' = alive s \<and> registered s' = registered s)"
  using assms by (auto simp: driver_event_cb_def Let_def on_world_def split: if_splits sum.splits)

lemma step_cb_cases:
  assumes "step_cb bodies p e s = Inr s'"
  obtains (plain) "step p e s = Inr s'" "e \<noteq> GotIp" "e \<noteq> StaDisconnected"
  | (got_ip) "e = GotIp" "driver_event_cb radio_got_ip (onWifiConnected_cb bodies p) s = Inr s'"
  | (lost) "e = StaDisconnected"
      "driver_event_cb radio_sta_disconnected (onWifiDisconnected_cb bodies p) s = Inr s'"
  using assms by (cases e) auto

lemma sys_inv_driver_event_cb:
  assumes inv: "sys_inv p s" and d: "driver_event_cb upd handle s = Inr s'"
    and u: "world_ok ((cur s)\<lparr>wifi := upd (wifi (cur s))\<rparr>)"
    and h: "\<And>w'. handle ((cur s)\<lparr>wifi := upd (wifi (cur s))\<rparr>) = Inr w' \<Longrightarrow> world_ok w'"
  shows "sys_inv p s'"
  using driver_event_cb_Inr [OF d]
proof
  assume "\<not> registered s \<and> s' = on_world (\<lambda>w. w\<lparr>wifi := upd (wifi w)\<rparr>) s"
  with inv u show ?thesis by (simp add: sys_inv_def)
next
  assume a: "registered s \<and> alive s
          \<and> handle ((cur s)\<lparr>wifi := upd (wifi (cur s))\<rparr>) = Inr (cur s')
          \<and> alive s' = alive s \<and> registered s' = registered s"
  then have "world_ok (cur s')" by (blast intro: h)
  with a inv show ?thesis by (simp add: sys_inv_def)
qed

lemma sys_inv_step_cb:
  assumes inv: "sys_inv p s" and en: "enabled s e" and st: "step_cb bodies p e s = Inr s'"
  shows "sys_inv p s'"
  using st
proof (cases rule: step_cb_cases)
  case plain
  from inv en plain(1) show ?thesis by (rule sys_inv_step)
next
  case got_ip
  have u: "world_ok ((cur s)\<lparr>wifi := radio_got_ip (wifi (cur s))\<rparr>)"
    using inv by (simp add: sys_inv_def world_ok_driver)
  show ?thesis
    by (rule sys_inv_driver_event_cb [OF inv got_ip(2) u]) (rule world_ok_handlers_cb(1) [OF u])
next
  case lost
  have u: "world_ok ((cur s)\<lparr>wifi := radio_sta_disconnected (wifi (cur s))\<rparr>)"
    using inv by (simp add: sys_inv_def world_ok_driver)
  show ?thesis
    by (rule sys_inv_driver_event_cb [OF inv lost(2) u]) (rule world_ok_handlers_cb(2) [OF u])
qed

lemma driver_event_cb_quiet:
  assumes d: "driver_event_cb upd handle s = Inr s'"
    and h: "\<And>w'. handle ((cur s)\<lparr>wifi := upd (wifi (cur s))\<rparr>) = Inr w' \<Longrightarrow>
              quiet ((cur s)\<lparr>wifi := upd (wifi (cur s))\<rparr>) w'"
  shows "quiet (cur s) (cur s')"
  using driver_event_cb_Inr [OF d]
proof
  assume "\<not> registered s \<and> s' = on_world (\<lambda>w. w\<lparr>wifi := upd (wifi w)\<rparr>) s"
  then show ?thesis by (simp add: quiet_driver quiet_refl)
next
  assume "registered s \<and> alive s
          \<and> handle ((cur s)\<lparr>wifi := upd (wifi (cur s))\<rparr>) = Inr (cur s')
          \<and> alive s' = alive s \<and> registered s' = registered s"
  then show ?thesis by (blast intro: quiet_trans_driver h)
qed

subsection \<open>Properties\<close>

text \<open>
  C13. Whatever public calls the user's callbacks make, every state
  reachable with them keeps the system invariant: armed timers carry their delays, the
  mode stays a \<open>wifi_mode_t\<close> value, a destroyed object has no armed timer, and the
  driver handlers stay registered exactly while the object lives or on ESP32.
\<close>

theorem reachable_cb_sys_inv:
  assumes "reachable_cb bodies p s"
  shows "sys_inv p s"
  using assms
proof (induction rule: reachable_cb.induct)
  case (init r ssid pw hn ac)
  then show ?case by (rule sys_inv_start)
next
  case (go s e s')
  then show ?case by (blast intro: sys_inv_step_cb)
qed

theorem reachable_cb_sys_inv_witness:
  "reachable_cb (\<lambda>_. [UDisconnect, UBeginConnection]) ESP32 (start ESP32 (Some ''net'') (Some ''pw'') None False (radio_boot\<lparr>status := WL_CONNECTED\<rparr>))
   \<and> sys_inv ESP32 (start ESP32 (Some ''net'') (Some ''pw'') None False (radio_boot\<lparr>status := WL_CONNECTED\<rparr>))"
proof -
  have r: "reachable_cb (\<lambda>_. [UDisconnect, UBeginConnection]) ESP32 (start ESP32 (Some ''net'') (Some ''pw'') None False (radio_boot\<lparr>status := WL_CONNECTED\<rparr>))"
    by (rule reachable_cb.init) (simp add: radio_wf_def radio_boot_def)
  from reachable_cb_sys_inv [OF r] r show ?thesis by simp
qed

text \<open>
  C11. Callbacks cannot start a join: with any callback
  bodies, a step that requests one is an expiry of the connect timer, handled exactly as
  without callbacks. A callback that calls \<open>beginConnection\<close> only schedules.
\<close>

theorem cb_begin_only_from_connect_timer:
  assumes st: "step_cb bodies p e s = Inr s'" and bg: "Call (Begin a b) \<in> set (new_effects s s')"
  shows "e = ConnectTimerExpires \<and> step p e s = Inr s'"
proof -
  have q: "quiet (cur s) (cur s')" if ne: "e \<noteq> ConnectTimerExpires"
    using st
  proof (cases rule: step_cb_cases)
    case plain
    from plain(1) ne show ?thesis by (rule step_quiet)
  next
    case got_ip
    from got_ip(2) show ?thesis by (rule driver_event_cb_quiet) (rule quiet_handlers_cb(1))
  next
    case lost
    from lost(2) show ?thesis by (rule driver_event_cb_quiet) (rule quiet_handlers_cb(2))
  qed
  have e: "e = ConnectTimerExpires"
  proof (rule ccontr)
    assume "e \<noteq> ConnectTimerExpires"
    with q bg show False by (simp add: new_effects_def quiet_no_begin)
  qed
  with st show ?thesis by simp
qed

theorem cb_begin_only_from_connect_timer_witness:
  "\<exists>s'. step_cb (\<lambda>_. [UBeginConnection]) ESP32 ConnectTimerExpires
           (on_world (beginConnection ESP32) (start ESP32 (Some ''net'') (Some ''pw'') None False radio_boot))
         = Inr s'
      \<and> Call (Begin ''net'' (Some ''pw'')) \<in> set (new_effects
           (on_world (beginConnection ESP32) (start ESP32 (Some ''net'') (Some ''pw'') None False radio_boot)) s')"
proof -
  let ?s = "on_world (beginConnection ESP32) (start ESP32 (Some ''net'') (Some ''pw'') None False radio_boot)"
  let ?s' = "on_world wifiConnectTimer_expires ?s"
  have st: "step_cb (\<lambda>_. [UBeginConnection]) ESP32 ConnectTimerExpires ?s = Inr ?s'" by simp
  have bg: "Call (Begin ''net'' (Some ''pw'')) \<in> set (new_effects ?s ?s')" by (simp add: sys_eval)
  from cb_begin_only_from_connect_timer [OF st bg] st bg show ?thesis by blast
qed



end
