(* ===== verification/Logging.thy ===== *)
theory Logging
  imports Traces
begin

text \<open>
  The serial log. Each \<open>log_msg\<close> the methods emit is one \<open>Serial.println\<close> or
  \<open>Serial.printf\<close> of the source; \<open>log_line\<close> is the text it writes. \<open>println\<close>
  ends the line with CR LF, the \<open>printf\<close> formats end with the LF of their
  \<open>\n\<close>; \<open>%s\<close> prints the C string it is given. The two runtime values some lines
  carry, the formatted \<open>millis() / 1000.0\<close> and \<open>WiFi.localIP().toString()\<close>, are I/O
  and enter as the parameters \<open>ts\<close> and \<open>ip\<close>. \<open>serial_output\<close> is the text of the
  serial port for a list of effects, given the runtime values of each line.
\<close>

definition println_text :: "string \<Rightarrow> string" where
  "println_text s = s @ [CHR 0x0D, CHR 0x0A]"

definition nl :: string where
  "nl = [CHR 0x0A]"

fun log_line :: "string \<Rightarrow> string \<Rightarrow> log_msg \<Rightarrow> string" where
  "log_line ts ip MsgInitializing = println_text ''WiFi: Initializing ...''"
| "log_line ts ip MsgDisconnecting = println_text ''WiFi: Disconnecting ...''"
| "log_line ts ip MsgConnected = ''WiFi: Connected ('' @ ts @ ''s), ip : '' @ ip @ '' '' @ nl"
| "log_line ts ip MsgLostConnection = ''WiFi! Lost connection ('' @ ts @ ''s). '' @ nl"
| "log_line ts ip (MsgConnecting ssid) = ''WiFi: Connecting to '' @ ssid @ '' ... '' @ nl"
| "log_line ts ip MsgNotConfigured =
     ''WiFi! Can'' @ [CHR 0x27] @ ''t init a connection: WiFi not configured. '' @ nl"
| "log_line ts ip MsgAlreadyConnected =
     ''WiFi! Can'' @ [CHR 0x27] @ ''t init a connection: WiFi already connected. '' @ nl"

fun is_serial :: "effect \<Rightarrow> bool" where
  "is_serial (Serial _) = True"
| "is_serial _ = False"

text \<open>\<open>stamp i\<close> gives the runtime values of the \<open>i\<close>-th effect of the list.\<close>

fun serial_output_from :: "nat \<Rightarrow> (nat \<Rightarrow> string \<times> string) \<Rightarrow> effect list \<Rightarrow> string" where
  "serial_output_from i stamp [] = []"
| "serial_output_from i stamp (Serial m # es) =
     log_line (fst (stamp i)) (snd (stamp i)) m @ serial_output_from (Suc i) stamp es"
| "serial_output_from i stamp (_ # es) = serial_output_from (Suc i) stamp es"

definition serial_output :: "(nat \<Rightarrow> string \<times> string) \<Rightarrow> effect list \<Rightarrow> string" where
  "serial_output stamp es = serial_output_from 0 stamp es"

subsection \<open>Logging off\<close>

lemma serial_output_from_silent:
  "filter is_serial es = [] \<Longrightarrow> serial_output_from i stamp es = []"
  by (induction i stamp es rule: serial_output_from.induct) simp_all

lemma enableSerialLogs_ops [simp]:
  "enableSerialLogs (obj (beginConnection p w)) = enableSerialLogs (obj w)"
  "enableSerialLogs (obj (connect w)) = enableSerialLogs (obj w)"
  "enableSerialLogs (obj (disconnect p w)) = enableSerialLogs (obj w)"
  "enableSerialLogs (obj (onWifiConnected w)) = enableSerialLogs (obj w)"
  "enableSerialLogs (obj (onWifiDisconnected p w)) = enableSerialLogs (obj w)"
  using obj_ops_fields [of enableSerialLogs, simplified] by (simp_all add: disconnect_def)

lemma serial_free_ops:
  assumes off: "\<not> enableSerialLogs (obj w)"
  shows "filter is_serial (out (beginConnection p w)) = filter is_serial (out w)"
    and "filter is_serial (out (connect w)) = filter is_serial (out w)"
    and "filter is_serial (out (disconnect p w)) = filter is_serial (out w)"
    and "filter is_serial (out (onWifiConnected w)) = filter is_serial (out w)"
    and "filter is_serial (out (onWifiDisconnected p w)) = filter is_serial (out w)"
proof -
  show "filter is_serial (out (beginConnection p w)) = filter is_serial (out w)"
    using off
    by (cases "nonempty_cstr (wifiSsid (obj w))"; cases "isConnected w")
       (auto simp: beginConnection_cases reset_out apply_hostname_def
             split: option.split platform.split)
  show "filter is_serial (out (connect w)) = filter is_serial (out w)"
    using off
    by (cases "nonempty_cstr (wifiSsid (obj w))"; cases "isConnected w")
       (simp_all add: connect_cases)
  show "filter is_serial (out (disconnect p w)) = filter is_serial (out w)"
    using off by (simp add: disconnect_def reset_out split: platform.split)
  show "filter is_serial (out (onWifiConnected w)) = filter is_serial (out w)"
    using off by (simp add: onWifiConnected_def Let_def split: option.split)
  show "filter is_serial (out (onWifiDisconnected p w)) = filter is_serial (out w)"
    using off by (simp add: onWifiDisconnected_def Let_def reset_out split: option.split platform.split)
qed

lemma step_serial_free:
  assumes st: "step p e s = Inr s'" and off: "\<not> enableSerialLogs (obj (cur s))"
    and ne: "e \<noteq> UserEnableDebuggingMessages True"
  shows "\<not> enableSerialLogs (obj (cur s'))
       \<and> filter is_serial (out (cur s')) = filter is_serial (out (cur s))"
proof (cases e)
  case GotIp
  with st have "driver_event radio_got_ip onWifiConnected s = Inr s'" by simp
  then have "cur s' = (if registered s then onWifiConnected ((cur s)\<lparr>wifi := radio_got_ip (wifi (cur s))\<rparr>)
                       else (cur s)\<lparr>wifi := radio_got_ip (wifi (cur s))\<rparr>)"
    by (rule driver_event_parts)
  with off show ?thesis using serial_free_ops(4) [of "(cur s)\<lparr>wifi := radio_got_ip (wifi (cur s))\<rparr>"]
    by simp
next
  case StaDisconnected
  let ?w = "(cur s)\<lparr>wifi := radio_sta_disconnected (wifi (cur s))\<rparr>"
  from st StaDisconnected have "driver_event radio_sta_disconnected (onWifiDisconnected p) s = Inr s'"
    by simp
  then have "cur s' = (if registered s then onWifiDisconnected p ?w else ?w)"
    by (rule driver_event_parts)
  with off show ?thesis using serial_free_ops(5) [of ?w p] by simp
next
  case UserBeginConnection
  with st off show ?thesis using serial_free_ops(1) [of "cur s" p] by auto
next
  case UserDisconnect
  with st off show ?thesis using serial_free_ops(3) [of "cur s" p] by auto
next
  case FirstTimerExpires
  let ?w = "update_obj (\<lambda>h. h\<lparr>firstConnectionTimer := ticker_stop (firstConnectionTimer h)\<rparr>) (cur s)"
  from st FirstTimerExpires have "cur s' = beginConnection p ?w"
    by (auto simp: firstConnectionTimer_expires_def)
  with off show ?thesis using serial_free_ops(1) [of ?w p] by simp
next
  case ConnectTimerExpires
  let ?w = "update_obj (\<lambda>h. h\<lparr>wifiConnectTimer := ticker_stop (wifiConnectTimer h)\<rparr>) (cur s)"
  from st ConnectTimerExpires have "cur s' = connect ?w"
    by (auto simp: wifiConnectTimer_expires_def)
  with off show ?thesis using serial_free_ops(2) [of ?w] by simp
next
  case UserDestroy
  with st off show ?thesis by (auto simp: destroy_def)
qed (use st off ne in \<open>auto simp: setWifiInfos_def setHostname_def setAutoReconnect_def
       onConnectionEstablished_def onConnectionLost_def enableDebuggingMessages_def\<close>)

subsection \<open>Properties\<close>

text \<open>
  C32. The \<open>enableDebuggingMessages\<close> flag gates all serial output: along every
  run that starts with logging off and never switches it on, nothing at all is written
  to the serial port, whatever the handler does.
\<close>

theorem logs_gated:
  "run p es s = Some (Inr s') \<Longrightarrow> \<not> enableSerialLogs (obj (cur s)) \<Longrightarrow>
   UserEnableDebuggingMessages True \<notin> set es \<Longrightarrow> serial_output stamp (new_effects s s') = []"
proof -
  assume r: "run p es s = Some (Inr s')" and off: "\<not> enableSerialLogs (obj (cur s))"
    and ne: "UserEnableDebuggingMessages True \<notin> set es"
  have "filter is_serial (out (cur s')) = filter is_serial (out (cur s))"
    using r off ne
  proof (induction es arbitrary: s)
    case Nil
    then show ?case by simp
  next
    case (Cons e es)
    from Cons.prems(1) obtain s1 where st: "step p e s = Inr s1" and r1: "run p es s1 = Some (Inr s')"
      by (rule run_Cons_Inr)
    from Cons.prems(3) have "e \<noteq> UserEnableDebuggingMessages True"
      and nes: "UserEnableDebuggingMessages True \<notin> set es" by auto
    with st Cons.prems(2) have "\<not> enableSerialLogs (obj (cur s1))"
      and f: "filter is_serial (out (cur s1)) = filter is_serial (out (cur s))"
      using step_serial_free by blast+
    with Cons.IH [OF r1 _ nes] show ?case by simp
  qed
  moreover from run_out_prefix [OF r] obtain xs where "out (cur s') = out (cur s) @ xs" by blast
  ultimately show ?thesis
    by (simp add: new_effects_def serial_output_def serial_output_from_silent)
qed

theorem logs_gated_witness:
  "\<exists>s'. run ESP32 [FirstTimerExpires, ConnectTimerExpires] (start ESP32 (Some ''net'') (Some ''pw'') None True radio_boot) = Some (Inr s')
      \<and> serial_output (\<lambda>_. (''3.000000'', ''192.168.1.2'')) (new_effects (start ESP32 (Some ''net'') (Some ''pw'') None True radio_boot) s') = []"
proof -
  obtain s' where r: "run ESP32 [FirstTimerExpires, ConnectTimerExpires] (start ESP32 (Some ''net'') (Some ''pw'') None True radio_boot) = Some (Inr s')"
    by (simp add: sys_eval)
  have off: "\<not> enableSerialLogs (obj (cur (start ESP32 (Some ''net'') (Some ''pw'') None True radio_boot)))" by (simp add: sys_eval)
  have ne: "UserEnableDebuggingMessages True \<notin> set [FirstTimerExpires, ConnectTimerExpires]" by simp
  from logs_gated [OF r off ne] r show ?thesis by blast
qed

end
