(* ===== verification/TimerQueue.thy ===== *)
theory TimerQueue
  imports Traces
begin

text \<open>
  Dropped timer commands. On ESP32 every \<open>xTimerStart\<close>, \<open>xTimerStop\<close> and
  \<open>xTimerDelete\<close> of the class is sent with block time 0: when the FreeRTOS timer
  command queue is full the call returns \<open>pdFAIL\<close> and the command is lost, and the
  code ignores the result. The \<open>Ticker\<close> calls of ESP8266 cannot fail. \<open>timer_cmd ok\<close>
  is a timer command that takes effect only when the queue accepted it; the \<open>_q\<close>
  variants of the methods that send timer commands take the queue's answers. With every
  command accepted they are the methods of \<open>Handler\<close>.
\<close>

definition timer_cmd :: "bool \<Rightarrow> (ticker \<Rightarrow> ticker) \<Rightarrow> ticker \<Rightarrow> ticker" where
  "timer_cmd ok f t = (if ok then f t else t)"

text \<open>
  The two stops of \<open>beginConnection\<close> and \<open>disconnect\<close>, first-connection timer first;
  \<open>ok1\<close> and \<open>ok2\<close> are the queue's answers to the two commands.
\<close>

definition stop_timers_q :: "platform \<Rightarrow> bool \<Rightarrow> bool \<Rightarrow> world \<Rightarrow> world" where
  "stop_timers_q p ok1 ok2 w =
     update_obj (\<lambda>h. h\<lparr>wifiConnectTimer :=
                        timer_cmd (p = ESP8266 \<or> ok2) ticker_stop (wifiConnectTimer h)\<rparr>)
       (update_obj (\<lambda>h. h\<lparr>firstConnectionTimer :=
                        timer_cmd (p = ESP8266 \<or> ok1) ticker_stop (firstConnectionTimer h)\<rparr>) w)"

definition scheduleConnection_q :: "platform \<Rightarrow> bool \<Rightarrow> world \<Rightarrow> world" where
  "scheduleConnection_q p ok w =
     update_obj (\<lambda>h. h\<lparr>wifiConnectTimer :=
                        timer_cmd (p = ESP8266 \<or> ok)
                          (ticker_start WIFI_DELAY_BETWEEN_CONNECTIONS) (wifiConnectTimer h)\<rparr>)
       (reset p w)"

text \<open>
  The constructor's \<open>xTimerStart\<close> of the first-connection timer when \<open>autoConnect\<close>
  is set, applied to the object the rest of the constructor built.
\<close>

definition construct_q ::
  "platform \<Rightarrow> bool \<Rightarrow> cstr \<Rightarrow> cstr \<Rightarrow> cstr \<Rightarrow> bool \<Rightarrow> radio \<Rightarrow> world" where
  "construct_q p ok ssid pw hn autoConnect r =
     (let w = construct p ssid pw hn False r
      in if autoConnect
         then update_obj (\<lambda>h. h\<lparr>firstConnectionTimer :=
                timer_cmd (p = ESP8266 \<or> ok)
                  (ticker_start WIFI_DELAY_BEFORE_FIRST_CONNECTION) (firstConnectionTimer h)\<rparr>) w
         else w)"

definition beginConnection_q :: "platform \<Rightarrow> bool \<Rightarrow> bool \<Rightarrow> bool \<Rightarrow> world \<Rightarrow> world" where
  "beginConnection_q p ok1 ok2 ok3 w =
     (case canConnectToWifi w of
        (False, w') \<Rightarrow> w'
      | (True, w') \<Rightarrow>
          scheduleConnection_q p ok3
            (apply_hostname (serial_log MsgInitializing (stop_timers_q p ok1 ok2 w'))))"

definition disconnect_q :: "platform \<Rightarrow> bool \<Rightarrow> bool \<Rightarrow> world \<Rightarrow> world" where
  "disconnect_q p ok1 ok2 w =
     reset p (stop_timers_q p ok1 ok2 (update_obj (\<lambda>h. h\<lparr>autoReconnect := False\<rparr>)
                                       (serial_log MsgDisconnecting w)))"

text \<open>The destructor's two \<open>xTimerDelete\<close> on ESP32.\<close>

definition destroy_q :: "platform \<Rightarrow> bool \<Rightarrow> bool \<Rightarrow> sys \<Rightarrow> sys" where
  "destroy_q p ok1 ok2 s =
     (on_world (update_obj (\<lambda>h. h\<lparr>
        wifiConnectTimer := timer_cmd (p = ESP8266 \<or> ok2) ticker_stop (wifiConnectTimer h),
        firstConnectionTimer := timer_cmd (p = ESP8266 \<or> ok1) ticker_stop (firstConnectionTimer h)\<rparr>)) s)
       \<lparr>alive := False, registered := (p = ESP32)\<rparr>"

definition onWifiDisconnected_q :: "platform \<Rightarrow> bool \<Rightarrow> world \<Rightarrow> world" where
  "onWifiDisconnected_q p ok w =
     (let w1 = serial_log MsgLostConnection w;
          w2 = (if autoReconnect (obj w1) then scheduleConnection_q p ok w1 else w1)
      in case connectionLostCallback (obj w2) of
           None \<Rightarrow> w2
         | Some cb \<Rightarrow> emit (Invoke cb) w2)"

subsection \<open>Accepted commands\<close>

lemma timer_cmd_simps [simp]:
  "timer_cmd True f t = f t" "timer_cmd False f t = t"
  by (simp_all add: timer_cmd_def)

lemma stop_timers_q_accepted: "stop_timers_q p True True w = stop_timers w"
  by (simp add: stop_timers_q_def stop_timers_def)

lemma scheduleConnection_q_eq:
  "scheduleConnection_q p True w = scheduleConnection p w"
  "scheduleConnection_q ESP8266 ok w = scheduleConnection ESP8266 w"
  by (simp_all add: scheduleConnection_q_def scheduleConnection_def)

lemma queue_accepted_more:
  "construct_q p True ssid pw hn ac r = construct p ssid pw hn ac r"
  "beginConnection_q p True True True w = beginConnection p w"
  "destroy_q p True True s = destroy p s"
  by (simp_all add: construct_q_def construct_def Let_def update_obj_def beginConnection_q_def
      beginConnection_def scheduleConnection_q_eq stop_timers_q_accepted destroy_q_def destroy_def
      split: prod.split bool.split)

lemma queue_accepted:
  "scheduleConnection_q p True w = scheduleConnection p w"
  "disconnect_q p True True w = disconnect p w"
  "onWifiDisconnected_q p True w = onWifiDisconnected p w"
  by (simp_all add: scheduleConnection_q_eq disconnect_q_def disconnect_def stop_timers_q_accepted
      onWifiDisconnected_q_def onWifiDisconnected_def Let_def split: option.split)

lemma queue_esp8266:
  "scheduleConnection_q ESP8266 ok w = scheduleConnection ESP8266 w"
  "disconnect_q ESP8266 ok1 ok2 w = disconnect ESP8266 w"
  "onWifiDisconnected_q ESP8266 ok w = onWifiDisconnected ESP8266 w"
  by (simp_all add: scheduleConnection_q_eq disconnect_q_def disconnect_def stop_timers_q_def
      stop_timers_def onWifiDisconnected_q_def onWifiDisconnected_def Let_def split: option.split)

subsection \<open>Dropped commands\<close>

text \<open>
  C28. On ESP32 a full timer queue breaks two guarantees. If the
  \<open>xTimerStop\<close> of the connect timer in \<open>disconnect()\<close> is dropped while a retry is
  pending, the timer stays armed and, when it fires, \<open>_connect\<close> calls \<open>WiFi.begin\<close>
  although \<open>_autoReconnect\<close> is now false. If the \<open>xTimerStart\<close> in
  \<open>_scheduleConnection\<close> is dropped when a connection is lost, no timer is armed and no
  join is in progress: the retry is lost.
\<close>

theorem dropped_timer_commands:
  assumes ok: "nonempty_cstr (wifiSsid (obj w))"
  shows "(armed (wifiConnectTimer (obj w)) \<longrightarrow>
            \<not> autoReconnect (obj (disconnect_q ESP32 True False w))
          \<and> armed (wifiConnectTimer (obj (disconnect_q ESP32 True False w)))
          \<and> (\<exists>a b. Call (Begin a b) \<in> set (drop (length (out (disconnect_q ESP32 True False w)))
                     (out (wifiConnectTimer_expires (disconnect_q ESP32 True False w))))))
       \<and> (autoReconnect (obj w) \<and> \<not> armed (wifiConnectTimer (obj w))
            \<and> \<not> armed (firstConnectionTimer (obj w)) \<longrightarrow>
            \<not> armed (wifiConnectTimer (obj (onWifiDisconnected_q ESP32 False w)))
          \<and> \<not> armed (firstConnectionTimer (obj (onWifiDisconnected_q ESP32 False w)))
          \<and> \<not> attempting (wifi (onWifiDisconnected_q ESP32 False w)))"
proof (intro conjI impI)
  assume "armed (wifiConnectTimer (obj w))"
  moreover have "isConnected (disconnect_q ESP32 True False w) = False"
    by (simp add: disconnect_q_def)
  ultimately show "\<not> autoReconnect (obj (disconnect_q ESP32 True False w))"
    and "armed (wifiConnectTimer (obj (disconnect_q ESP32 True False w)))"
    and "\<exists>a b. Call (Begin a b) \<in> set (drop (length (out (disconnect_q ESP32 True False w)))
                     (out (wifiConnectTimer_expires (disconnect_q ESP32 True False w))))"
    using ok by (auto simp: disconnect_q_def stop_timers_q_def wifiConnectTimer_expires_def
                           connect_cases)
next
  assume "autoReconnect (obj w) \<and> \<not> armed (wifiConnectTimer (obj w))
            \<and> \<not> armed (firstConnectionTimer (obj w))"
  then show "\<not> armed (wifiConnectTimer (obj (onWifiDisconnected_q ESP32 False w)))"
    and "\<not> armed (firstConnectionTimer (obj (onWifiDisconnected_q ESP32 False w)))"
    and "\<not> attempting (wifi (onWifiDisconnected_q ESP32 False w))"
    by (auto simp: onWifiDisconnected_q_def scheduleConnection_q_def Let_def split: option.split)
qed

theorem dropped_timer_commands_witness:
  "armed (wifiConnectTimer (obj (disconnect_q ESP32 True False (cur (on_world (beginConnection ESP32) (start ESP32 (Some ''net'') (Some ''pw'') None False radio_boot))))))
   \<and> \<not> armed (wifiConnectTimer (obj (onWifiDisconnected_q ESP32 False (construct ESP32 (Some ''net'') (Some ''pw'') None False radio_boot))))"
proof -
  have ok1: "nonempty_cstr (wifiSsid (obj (cur (on_world (beginConnection ESP32) (start ESP32 (Some ''net'') (Some ''pw'') None False radio_boot)))))" and a1: "armed (wifiConnectTimer (obj (cur (on_world (beginConnection ESP32) (start ESP32 (Some ''net'') (Some ''pw'') None False radio_boot)))))"
    by (simp_all add: sys_eval)
  have ok2: "nonempty_cstr (wifiSsid (obj (construct ESP32 (Some ''net'') (Some ''pw'') None False radio_boot)))"
    and h2: "autoReconnect (obj (construct ESP32 (Some ''net'') (Some ''pw'') None False radio_boot)) \<and> \<not> armed (wifiConnectTimer (obj (construct ESP32 (Some ''net'') (Some ''pw'') None False radio_boot)))
             \<and> \<not> armed (firstConnectionTimer (obj (construct ESP32 (Some ''net'') (Some ''pw'') None False radio_boot)))"
    by (simp_all add: world_eval ticker_new_def)
  from dropped_timer_commands [OF ok1] a1
  have "armed (wifiConnectTimer (obj (disconnect_q ESP32 True False (cur (on_world (beginConnection ESP32) (start ESP32 (Some ''net'') (Some ''pw'') None False radio_boot))))))" by blast
  moreover from dropped_timer_commands [OF ok2] h2
  have "\<not> armed (wifiConnectTimer (obj (onWifiDisconnected_q ESP32 False (construct ESP32 (Some ''net'') (Some ''pw'') None False radio_boot))))" by blast
  ultimately show ?thesis ..
qed

end
