(* ===== verification/LossyQueue.thy ===== *)
theory LossyQueue
  imports TimerQueue
begin

text \<open>
  The running system over a lossy timer queue. \<open>step_q\<close> is \<open>step\<close> in which every
  timer command an event sends may be dropped: the event carries the queue's answers to
  the (at most three) commands it sends, in the order of the source. A timer the
  destructor failed to delete can still expire; its callback then dereferences the
  freed object through \<open>pvTimerGetTimerID\<close>, which is the fault \<open>UseAfterFree\<close>.
  \<open>reachable_q\<close> is the set of states reached with any answers.
\<close>

type_synonym queue_answers = "bool \<times> bool \<times> bool"

definition firstConnectionTimer_expires_q ::
  "platform \<Rightarrow> bool \<Rightarrow> bool \<Rightarrow> bool \<Rightarrow> world \<Rightarrow> world" where
  "firstConnectionTimer_expires_q p ok1 ok2 ok3 w =
     beginConnection_q p ok1 ok2 ok3
       (update_obj (\<lambda>h. h\<lparr>firstConnectionTimer := ticker_stop (firstConnectionTimer h)\<rparr>) w)"

fun step_q :: "platform \<Rightarrow> queue_answers \<Rightarrow> event \<Rightarrow> sys \<Rightarrow> fault + sys" where
  "step_q p (ok1, ok2, ok3) UserBeginConnection s =
     (if alive s then Inr (on_world (beginConnection_q p ok1 ok2 ok3) s) else Inl UseAfterFree)"
| "step_q p (ok1, ok2, ok3) UserDisconnect s =
     (if alive s then Inr (on_world (disconnect_q p ok1 ok2) s) else Inl UseAfterFree)"
| "step_q p (ok1, ok2, ok3) UserDestroy s =
     (if alive s then Inr (destroy_q p ok1 ok2 s) else Inl UseAfterFree)"
| "step_q p (ok1, ok2, ok3) FirstTimerExpires s =
     (if alive s then Inr (on_world (firstConnectionTimer_expires_q p ok1 ok2 ok3) s)
      else Inl UseAfterFree)"
| "step_q p oks ConnectTimerExpires s =
     (if alive s then Inr (on_world wifiConnectTimer_expires s) else Inl UseAfterFree)"
| "step_q p (ok1, ok2, ok3) StaDisconnected s =
     driver_event radio_sta_disconnected (onWifiDisconnected_q p ok1) s"
| "step_q p oks e s = step p e s"

definition start_q :: "platform \<Rightarrow> bool \<Rightarrow> cstr \<Rightarrow> cstr \<Rightarrow> cstr \<Rightarrow> bool \<Rightarrow> radio \<Rightarrow> sys" where
  "start_q p ok ssid pw hn autoConnect r =
     \<lparr>cur = construct_q p ok ssid pw hn autoConnect r, alive = True, registered = True\<rparr>"

inductive reachable_q :: "platform \<Rightarrow> sys \<Rightarrow> bool" for p where
  init: "radio_wf r \<Longrightarrow> reachable_q p (start_q p ok ssid pw hn ac r)"
| go: "reachable_q p s \<Longrightarrow> enabled s e \<Longrightarrow> step_q p a e s = Inr s' \<Longrightarrow> reachable_q p s'"

text \<open>A world with both timers forgotten: what the queue's answers cannot change.\<close>

definition untimed :: "world \<Rightarrow> world" where
  "untimed w = update_obj (\<lambda>h. h\<lparr>wifiConnectTimer := ticker_new 0,
                                   firstConnectionTimer := ticker_new 0\<rparr>) w"

subsection \<open>Reliable answers\<close>

lemma queue_reliable:
  assumes "p = ESP8266 \<or> ok1 \<and> ok2 \<and> ok3"
  shows "beginConnection_q p ok1 ok2 ok3 = beginConnection p"
    and "disconnect_q p ok1 ok2 = disconnect p"
    and "destroy_q p ok1 ok2 = destroy p"
    and "onWifiDisconnected_q p ok1 = onWifiDisconnected p"
    and "construct_q p ok1 = construct p"
  using assms
  by (auto intro!: ext simp: queue_accepted_more queue_accepted queue_esp8266 beginConnection_q_def
      beginConnection_def scheduleConnection_q_eq stop_timers_q_def stop_timers_def
      destroy_q_def destroy_def construct_q_def construct_def Let_def update_obj_def
      split: prod.split bool.split)

lemma step_q_reliable:
  assumes ok: "p = ESP8266 \<or> a = (True, True, True)"
    and en: "enabled s e" and inv: "sys_inv p s"
  shows "step_q p a e s = step p e s"
proof -
  obtain ok1 ok2 ok3 where a: "a = (ok1, ok2, ok3)" by (cases a) blast
  with ok have r: "p = ESP8266 \<or> ok1 \<and> ok2 \<and> ok3" by auto
  have dead: "\<not> alive s \<Longrightarrow> \<not> enabled s FirstTimerExpires \<and> \<not> enabled s ConnectTimerExpires"
    using inv by (simp add: sys_inv_def)
  show ?thesis
    using en dead unfolding a
    by (cases e) (auto simp: queue_reliable [OF r] firstConnectionTimer_expires_q_def
                             firstConnectionTimer_expires_def)
qed

lemma start_q_reliable: "p = ESP8266 \<or> ok \<Longrightarrow> start_q p ok ssid pw hn ac r = start p ssid pw hn ac r"
  using queue_reliable(5) [of p ok True True] by (auto simp: start_q_def start_def)

subsection \<open>What the answers change\<close>

lemma untimed_ops:
  "untimed (serial_log m w) = serial_log m (untimed w)"
  "untimed (radio_call c w) = radio_call c (untimed w)"
  "untimed (apply_hostname w) = apply_hostname (untimed w)"
  "untimed (reset p w) = reset p (untimed w)"
  "untimed (stop_timers_q p ok1 ok2 w) = untimed w"
  "untimed (stop_timers w) = untimed w"
  "untimed (scheduleConnection_q p ok w) = untimed (reset p w)"
  "untimed (scheduleConnection p w) = untimed (reset p w)"
  "untimed (emit e w) = emit e (untimed w)"
  "untimed (update_obj (\<lambda>h. h\<lparr>autoReconnect := b\<rparr>) w) =
     update_obj (\<lambda>h. h\<lparr>autoReconnect := b\<rparr>) (untimed w)"
  "out (untimed w) = out w" "wifi (untimed w) = wifi w"
  "autoReconnect (obj (untimed w)) = autoReconnect (obj w)"
  "connectionLostCallback (obj (untimed w)) = connectionLostCallback (obj w)"
  "untimed (untimed w) = untimed w"
  "canConnectToWifi (untimed w) = (fst (canConnectToWifi w), untimed (snd (canConnectToWifi w)))"
  by (simp_all add: untimed_def update_obj_def serial_log_def emit_def radio_call_def
      apply_hostname_def reset_def stop_timers_q_def stop_timers_def scheduleConnection_q_def
      scheduleConnection_def canConnectToWifi_def isConnected_def Let_def
      split: option.split platform.split)

lemma scheduleConnection_q_fields [simp]:
  "connectionLostCallback (obj (scheduleConnection_q p ok w)) = connectionLostCallback (obj w)"
  "autoReconnect (obj (scheduleConnection_q p ok w)) = autoReconnect (obj w)"
  by (simp_all add: scheduleConnection_q_def update_obj_def)

lemma untimed_methods:
  "untimed (beginConnection_q p ok1 ok2 ok3 w) = untimed (beginConnection p w)"
  "untimed (disconnect_q p ok1 ok2 w) = untimed (disconnect p w)"
  "untimed (onWifiDisconnected_q p ok1 w) = untimed (onWifiDisconnected p w)"
  "untimed (firstConnectionTimer_expires_q p ok1 ok2 ok3 w) =
     untimed (firstConnectionTimer_expires p w)"
proof -
  show b: "untimed (beginConnection_q p ok1 ok2 ok3 w) = untimed (beginConnection p w)" for w
    by (cases "canConnectToWifi w")
       (simp add: beginConnection_q_def beginConnection_def untimed_ops split: bool.split)
  show "untimed (disconnect_q p ok1 ok2 w) = untimed (disconnect p w)"
    by (simp add: disconnect_q_def disconnect_def untimed_ops)
  show "untimed (onWifiDisconnected_q p ok1 w) = untimed (onWifiDisconnected p w)"
    by (simp add: onWifiDisconnected_q_def onWifiDisconnected_def untimed_ops Let_def
        split: option.split)
  show "untimed (firstConnectionTimer_expires_q p ok1 ok2 ok3 w) =
          untimed (firstConnectionTimer_expires p w)"
    by (simp add: firstConnectionTimer_expires_q_def firstConnectionTimer_expires_def b)
qed

lemma step_q_untimed:
  assumes st: "step_q p a e s = Inr s'"
  shows "\<exists>s''. step p e s = Inr s'' \<and> untimed (cur s') = untimed (cur s'')
               \<and> alive s' = alive s'' \<and> registered s' = registered s''"
proof -
  obtain ok1 ok2 ok3 where a: "a = (ok1, ok2, ok3)" by (cases a) blast
  show ?thesis
  proof (cases e)
    case StaDisconnected
    with st a show ?thesis
      by (auto simp: driver_event_def Let_def untimed_methods split: if_splits)
  next
    case UserDestroy
    with st a show ?thesis
      by (auto simp: destroy_q_def destroy_def untimed_def update_obj_def)
  qed (use st a in \<open>auto simp: untimed_methods split: if_splits\<close>)
qed

subsection \<open>The invariant under dropped commands\<close>

lemma world_ok_q [world_ok_rules]:
  "world_ok w \<Longrightarrow> world_ok (stop_timers_q p ok1 ok2 w)"
  "world_ok w \<Longrightarrow> world_ok (scheduleConnection_q p ok w)"
  using world_ok_reset [of w p]
  by (auto simp: stop_timers_q_def scheduleConnection_q_def timer_cmd_def world_ok_def
                 timers_ok_def)

lemma world_ok_methods_q [world_ok_rules]:
  "world_ok w \<Longrightarrow> world_ok (beginConnection_q p ok1 ok2 ok3 w)"
  "world_ok w \<Longrightarrow> world_ok (disconnect_q p ok1 ok2 w)"
  "world_ok w \<Longrightarrow> world_ok (onWifiDisconnected_q p ok1 w)"
  "world_ok w \<Longrightarrow> world_ok (firstConnectionTimer_expires_q p ok1 ok2 ok3 w)"
proof -
  assume ok: "world_ok w"
  have b: "world_ok (beginConnection_q p ok1 ok2 ok3 v)" if "world_ok v" for v
    using that
    by (cases "nonempty_cstr (wifiSsid (obj v))"; cases "isConnected v")
       (simp_all add: beginConnection_q_def canConnectToWifi_def world_ok_rules)
  show "world_ok (beginConnection_q p ok1 ok2 ok3 w)" by (rule b [OF ok])
  show "world_ok (disconnect_q p ok1 ok2 w)"
    unfolding disconnect_q_def
    by (intro world_ok_reset world_ok_q) (use ok in \<open>auto simp: world_ok_def timers_ok_def\<close>)
  show "world_ok (onWifiDisconnected_q p ok1 w)"
    using ok by (auto simp: onWifiDisconnected_q_def world_ok_rules Let_def split: option.split)
  show "world_ok (firstConnectionTimer_expires_q p ok1 ok2 ok3 w)"
    unfolding firstConnectionTimer_expires_q_def
    by (rule b) (use ok in \<open>simp add: world_ok_def timers_ok_def\<close>)
qed

lemma world_inv_step_q:
  assumes inv: "world_ok (cur s) \<and> registered s = (alive s \<or> p = ESP32)"
    and st: "step_q p a e s = Inr s'"
  shows "world_ok (cur s') \<and> registered s' = (alive s' \<or> p = ESP32)"
proof -
  obtain ok1 ok2 ok3 where a: "a = (ok1, ok2, ok3)" by (cases a) blast
  show ?thesis
  proof (cases e)
    case StaDisconnected
    with st a driver_event_Inr [of radio_sta_disconnected "onWifiDisconnected_q p ok1" s s'] inv
    show ?thesis by (auto simp: world_ok_rules)
  next
    case GotIp
    with st a driver_event_Inr [of radio_got_ip onWifiConnected s s'] inv
    show ?thesis by (auto simp: world_ok_rules)
  next
    case UserDestroy
    with st a inv show ?thesis
      by (auto simp: destroy_q_def timer_cmd_def world_ok_def timers_ok_def on_world_def
                     update_obj_def split: if_splits)
  qed (use st a inv in \<open>auto simp: world_ok_rules split: if_splits\<close>)
qed

lemma world_inv_start_q:
  assumes "radio_wf r"
  shows "world_ok (cur (start_q p ok ssid pw hn ac r))
       \<and> registered (start_q p ok ssid pw hn ac r) = (alive (start_q p ok ssid pw hn ac r) \<or> p = ESP32)"
  using sys_inv_start [OF assms, of p ssid pw hn False]
  by (simp add: sys_inv_def start_def start_q_def construct_q_def Let_def timer_cmd_def
      world_ok_def timers_ok_def update_obj_def construct_def)

lemma new_effects_untimed:
  assumes "untimed (cur s') = untimed (cur s'')"
  shows "new_effects s s' = new_effects s s''"
proof -
  have "out (cur s') = out (cur s'')"
    using arg_cong [OF assms, of out] by (simp add: untimed_ops)
  then show ?thesis by (simp add: new_effects_def)
qed

subsection \<open>Properties of the lossy system\<close>

text \<open>
  C14. The part of the invariant that survives a full timer queue: in every state reached
  with any answers of the queue, an armed timer carries its delay, the driver state stays
  well formed, and the driver handlers are registered exactly while the object is alive
  or on ESP32. That a destroyed object has no armed timer does not survive.
\<close>

theorem reachable_q_inv:
  assumes "reachable_q p s"
  shows "world_ok (cur s) \<and> registered s = (alive s \<or> p = ESP32)"
  using assms
proof (induction rule: reachable_q.induct)
  case (init r ok ssid pw hn ac)
  then show ?case by (rule world_inv_start_q)
next
  case (go s e a s')
  from go.IH go.hyps(3) show ?case by (rule world_inv_step_q)
qed

theorem reachable_q_inv_witness:
  "world_ok (cur (destroy_q ESP32 False True (start_q ESP32 True (Some ''net'') None None True radio_boot)))"
proof -
  have r0: "reachable_q ESP32 (start_q ESP32 True (Some ''net'') None None True radio_boot)"
    by (rule reachable_q.init) simp
  have "reachable_q ESP32 (destroy_q ESP32 False True (start_q ESP32 True (Some ''net'') None None True radio_boot))"
    by (rule reachable_q.go [OF r0, of UserDestroy "(False, True, True)"]) (simp_all add: start_q_def)
  from reachable_q_inv [OF this] show ?thesis by blast
qed

text \<open>
  C29. On ESP32 a dropped \<open>xTimerDelete\<close> in the destructor leaves the first-connection
  timer armed on a destroyed object; when it expires, its callback calls
  \<open>beginConnection\<close> through the dangling pointer stored as the timer ID, whatever the
  queue answers afterwards.
\<close>

theorem dropped_delete_use_after_free:
  "\<exists>s. reachable_q ESP32 s \<and> \<not> alive s \<and> enabled s FirstTimerExpires
       \<and> (\<forall>a. step_q ESP32 a FirstTimerExpires s = Inl UseAfterFree)"
proof -
  let ?s0 = "start_q ESP32 True (Some ''net'') None None True radio_boot"
  let ?s1 = "destroy_q ESP32 False True ?s0"
  have r0: "reachable_q ESP32 ?s0" by (rule reachable_q.init) simp
  have r1: "reachable_q ESP32 ?s1"
    by (rule reachable_q.go [OF r0, of UserDestroy "(False, True, True)"]) (simp_all add: start_q_def)
  have "\<not> alive ?s1 \<and> enabled ?s1 FirstTimerExpires"
    by (simp add: destroy_q_def start_q_def construct_q_def on_world_def update_obj_def Let_def
                  construct_def ticker_start_def)
  moreover have "step_q ESP32 a FirstTimerExpires ?s1 = Inl UseAfterFree" for a
    by (cases a) (simp add: destroy_q_def)
  ultimately show ?thesis using r1 by blast
qed

text \<open>
  C12. Dropped timer commands never make the handler join: with any answers of the queue,
  a step that calls \<open>WiFi.begin\<close> is an expiry of the connect timer, handled exactly as
  in the reliable system.
\<close>

theorem lossy_begin_only_from_connect_timer:
  assumes st: "step_q p a e s = Inr s'" and bg: "Call (Begin x y) \<in> set (new_effects s s')"
  shows "e = ConnectTimerExpires \<and> step p e s = Inr s'"
proof -
  obtain s'' where st': "step p e s = Inr s''" and u: "untimed (cur s') = untimed (cur s'')"
    using step_q_untimed [OF st] by blast
  have e: "e = ConnectTimerExpires"
  proof (rule ccontr)
    assume "e \<noteq> ConnectTimerExpires"
    with st' have "quiet (cur s) (cur s'')" by (rule step_quiet)
    then have "Call (Begin x y) \<notin> set (new_effects s s'')"
      by (simp add: new_effects_def quiet_no_begin)
    with bg show False by (simp add: new_effects_untimed [OF u])
  qed
  with st show ?thesis by (auto split: if_splits)
qed

theorem lossy_begin_only_from_connect_timer_witness:
  "step ESP32 ConnectTimerExpires
      (on_world (beginConnection ESP32) (start ESP32 (Some ''net'') (Some ''pw'') None False radio_boot))
    = Inr (on_world wifiConnectTimer_expires (on_world (beginConnection ESP32)
             (start ESP32 (Some ''net'') (Some ''pw'') None False radio_boot)))"
proof -
  let ?s = "on_world (beginConnection ESP32) (start ESP32 (Some ''net'') (Some ''pw'') None False radio_boot)"
  have st: "step_q ESP32 (False, False, False) ConnectTimerExpires ?s = Inr (on_world wifiConnectTimer_expires ?s)"
    by (simp add: start_def)
  have bg: "Call (Begin ''net'' (Some ''pw'')) \<in> set (new_effects ?s (on_world wifiConnectTimer_expires ?s))"
    by (simp add: sys_eval)
  from lossy_begin_only_from_connect_timer [OF st bg] show ?thesis by blast
qed

end
