(* ===== verification/Spec2Isabelle.thy ===== *)
theory Spec2Isabelle
  imports Callbacks Logging LossyQueue
begin

text \<open>
  \<^bold>\<open>EspSimpleWifiHandler in Isabelle/HOL.\<close>
  The library (src/src/EspSimpleWifiHandler.h and .cpp) keeps an ESP8266 or ESP32 station
  connected: the class \<open>EspSimpleWifiHandler\<close> holds the credentials, an auto-reconnect
  flag and two user callbacks, owns two one-shot timers (the first-connection timer, 3 s,
  armed by the constructor when \<open>autoConnect\<close> is set; the connect timer, 1 s, armed by
  \<open>_scheduleConnection\<close>) and is driven by three contexts: the user's calls, the timer
  service running \<open>beginConnection\<close> and \<open>_connect\<close>, and the driver's dispatch of the
  ``got IP'' and ``station disconnected'' events to \<open>_onWifiConnected\<close> and
  \<open>_onWifiDisconnected\<close>.

  \<^bold>\<open>Theories.\<close>
  \<^item> \<open>Prelude\<close>: C strings as \<open>string option\<close> (null is \<open>None\<close>) with \<open>strlen_P\<close>
    reading up to the first NUL and \<open>c_arg\<close> for a well-formed C string argument; the 32-bit \<open>wifi_mode_t\<close> bitmask as \<open>32 word\<close>; the
    named theorem collections.
  \<^item> \<open>Platform\<close>: the two targets (\<open>#ifdef ESP8266\<close>), the radio driver and the timers,
    modelled from the contracts of spec section 6 because they are not code of the
    repository: a \<open>radio\<close> record, the \<open>radio_call\<close>s the handler makes and
    \<open>radio_apply\<close>, the two driver events with the states in which the driver raises
    them, and a \<open>ticker\<close> with start and stop. \<open>ticker_start d\<close> arms a timer with
    delay \<open>d\<close>: exact for \<open>Ticker::once\<close>; on ESP32 \<open>xTimerStart\<close> keeps the period
    given to \<open>xTimerCreate\<close>, which the constructor sets to the same constant, so the two
    agree in every reachable state but not on an arbitrary handler record.
  \<^item> \<open>Handler\<close>: the class. The fields are the record \<open>handler\<close>; a \<open>world\<close> pairs
    it with the driver and the list of effects emitted (driver calls, callback
    invocations, serial lines). One definition per method, in the order of the source:
    \<open>construct\<close> (constructor), \<open>canConnectToWifi\<close>, \<open>stop_timers\<close>, \<open>reset\<close>
    (\<open>_reset\<close>, per target), \<open>scheduleConnection\<close>, \<open>connect\<close> (\<open>_connect\<close>),
    \<open>apply_hostname\<close>, \<open>beginConnection\<close>, \<open>disconnect\<close>, the inline setters,
    \<open>onWifiConnected\<close> and \<open>onWifiDisconnected\<close>. Its lemmas give each method's
    behaviour on every branch.
  \<^item> \<open>System\<close>: the object in its running system. An \<open>event\<close> is one user call, one
    timer expiry or one driver event; \<open>step\<close> handles it to completion (spec section 5
    assumes serialised dispatch), \<open>enabled\<close> says when it can happen, \<open>destroy\<close> is the
    destructor, and an event that reaches a destroyed object (a method call, a timer
    callback, or a driver dispatch to a handler still registered) is the fault
    \<open>UseAfterFree\<close>, so that \<open>Inr\<close> means the object was alive. \<open>reachable\<close> is the inductive set of states from a constructed
    object on any well-formed driver state; \<open>run\<close> executes an event list. The invariant
    \<open>sys_inv\<close> (armed timers carry their delays, the mode stays a \<open>wifi_mode_t\<close>, a dead
    object has no armed timer, the handlers stay registered exactly on ESP32 or while
    alive) holds in every reachable state, by rule induction.
  \<^item> \<open>Abstract\<close>: the supervisor of spec section 4 as an abstract machine. Its state
    \<open>spec_state\<close> is a phase (\<open>Idle\<close>, \<open>AwaitingInitialDelay\<close>,
    \<open>AwaitingRetryDelay\<close>, \<open>Connecting\<close>, \<open>Connected\<close>), whether the network name
    is set, and \<open>autoReconnect\<close>; \<open>spec_step\<close> applies one abstract event
    (\<open>spec_event_of\<close> maps the concrete events onto them). The source keeps the phase
    only implicitly in the timers' armed flags and the driver's status: \<open>conn_of\<close>
    reads it off a world, \<open>abs_of\<close> abstracts a whole system state, and \<open>one_phase\<close>
    says at most one of the four phase indicators holds.
  \<^item> \<open>Traces\<close>: properties of whole runs. \<open>grows\<close> bounds how much an operation
    appends to the effect log; \<open>driver_budget\<close> counts the events the driver can
    still raise on its own; \<open>retry_pending\<close> and \<open>begun\<close> track a scheduled retry
    until a join is requested; \<open>env_event\<close> singles out the timer and driver events.
  \<^item> \<open>Callbacks\<close>: the user callbacks with their bodies. A body is the list of public
    calls it makes (\<open>user_call\<close>, run by \<open>run_body\<close>); \<open>onWifiConnected_cb\<close> and
    \<open>onWifiDisconnected_cb\<close> run it in place as the last statement of the handlers,
    \<open>invoke\<close> fails with \<open>ClosureDestroyed\<close> when a body reassigns its own slot and goes
    on, and \<open>step_cb\<close>/\<open>reachable_cb\<close> are the system with callbacks.
  \<^item> \<open>Logging\<close>: the text of the serial log. \<open>log_line\<close> gives, per message, the
    bytes \<open>Serial.println\<close> (CR LF appended) or \<open>Serial.printf\<close> writes, with the
    source's strings; the uptime and the IP address are parameters because the code
    reads them at run time. \<open>serial_output\<close> is the text the serial port receives
    for an effect log.
  \<^item> \<open>TimerQueue\<close>: on ESP32 every timer command is sent with block time 0 and is lost
    when the FreeRTOS timer queue is full; the code ignores the result. \<open>timer_cmd ok\<close>
    is a command that takes effect only when accepted, and the \<open>_q\<close> variants of the
    constructor, \<open>beginConnection\<close>, \<open>disconnect\<close>, \<open>_scheduleConnection\<close>,
    \<open>_onWifiDisconnected\<close> and the destructor take the queue's answers. With every
    command accepted, and always on ESP8266 (whose \<open>Ticker\<close> cannot fail), they are
    the methods of \<open>Handler\<close> and \<open>System\<close>.
  \<^item> \<open>LossyQueue\<close>: the running system over that queue. \<open>step_q\<close> is \<open>step\<close>
    with the queue's answers to the (at most three) timer commands an event sends; a
    timer that survives the destructor can expire, and its callback, which finds the
    object through \<open>pvTimerGetTimerID\<close>, is then the fault \<open>UseAfterFree\<close>.
    \<open>reachable_q\<close> is the set of states reached with any answers; \<open>untimed\<close>
    forgets both timers, which is all the answers can change.
  \<^item> this theory: the end-to-end paths of spec section 8 (auto-connect, unset network
    name) for all inputs, the bound on join requests per run, and the behaviours where
    the code departs from the spec or fails.

  \<^bold>\<open>What the theorems show.\<close>
  A join (\<open>WiFi.begin\<close>) is only requested by the connect timer's callback, never while
  the driver reports a connection, and always with proper C strings (a non-empty name
  without NUL, a key only when it is non-empty); a run makes at most one join request
  per expiry of the connect timer, and runs a user callback at most once per driver
  event (never from a user call or a timer); without a network name no run that does not call
  \<open>setWifiInfos\<close> ever joins; the auto-connect path joins the configured network after
  the two delays, for every name, key, hostname and target. The handler never tears
  down a working connection on its own (while connected, only \<open>disconnect\<close> and a
  disassociation report change anything or reach the driver); \<open>beginConnection\<close> while
  connected does nothing; \<open>disconnect\<close> clears auto-reconnect for good and a later
  disassociation schedules nothing; with auto-reconnect a disassociation arms exactly
  one connect timer; after a disassociation no driver event can follow until a timer or
  the user acts, so the reset inside the handler cannot feed a loop; ESP32's
  \<open>_reset\<close> restores the mode it read. The running system refines the spec's machine:
  along every run of a live object from a reachable single-phase state whose abstract
  trace avoids one transition, \<open>abs_of\<close> of the final state is what \<open>spec_step\<close>
  computes from the abstract events (a functional simulation, step by step), and from a
  fresh object such runs never arm both timers. The transition excluded is a
  disassociation during the first-connection delay with auto-reconnect set, where the
  code arms the connect timer beside the pending first-connection timer. A retry
  scheduled by a disassociation is never dropped (the connect timer stays armed until a
  join is requested); without the timers and the user, the driver can raise at most two
  events in a row, so handler and driver cannot loop. On ESP8266 no event that can
  happen reaches a destroyed object. With callbacks calling back into the object, the
  invariant still holds, a join is still only requested by the connect timer, and a
  lost-callback calling \<open>disconnect()\<close> cancels the retry. With logging off and never
  enabled, a run writes nothing to the serial port. On ESP32, a dropped
  \<open>xTimerStop\<close> in \<open>disconnect\<close> leaves a pending retry armed, so \<open>WiFi.begin\<close> is
  still called after auto-reconnect was cleared, and a dropped \<open>xTimerStart\<close> when the
  connection is lost leaves no timer armed: the retry is lost. Over a lossy queue the
  timer delays, the driver's well-formedness and the registration of the handlers still
  hold in every reachable state, and a join is still only requested by the connect
  timer, exactly as without losses; but a dropped \<open>xTimerDelete\<close> in the destructor
  leaves a timer armed on the destroyed object, whose expiry is a use after free. The
  code departs from the spec in four places, each proved: both timers can be armed at
  once (a disassociation during the first 3 s); \<open>beginConnection\<close> during a join in
  progress aborts it and a second join is requested; ESP8266's \<open>_reset\<close> clears the
  access-point bit; and on ESP32 a driver event after the destructor reaches the
  destroyed object.

  \<^bold>\<open>Bounds and evaluation.\<close> No loop of the source needs fuel: every method is
  straight-line code, and \<open>run\<close> recurses on the event list. The only unbounded
  behaviour a program like this can have is an endless exchange of events with the
  driver; the measure \<open>driver_budget\<close> (at most 2) rules it out. Join requests are
  bounded by the connect timer's expiries and callback invocations (\<open>is_invoke\<close>) by
  the driver events. The witnesses are closed terms the
  simplifier evaluates.

  \<^bold>\<open>Not modelled.\<close> What a callback body does besides calling the object's public
  methods (user code; a body that destroys the object is not covered); the values of
  the uptime and IP address printed in the log, which are parameters of \<open>log_line\<close>;
  the radio driver and the timer service themselves, which are libraries of the ESP
  cores (modelled from their contracts); concurrent, unserialised dispatch, which spec
  section 5 excludes; the aliasing of the caller's buffers behind the stored
  \<open>const char *\<close> pointers (the model reads the bytes at the time of use).
\<close>

text \<open>The effects that run a user callback.\<close>

fun is_invoke :: "effect \<Rightarrow> bool" where
  "is_invoke (Invoke _) = True"
| "is_invoke _ = False"

lemma invokes_methods:
  "filter is_invoke (drop (length (out w)) (out (beginConnection p w))) = []"
  "filter is_invoke (drop (length (out w)) (out (connect w))) = []"
  "filter is_invoke (drop (length (out w)) (out (disconnect p w))) = []"
  "filter is_invoke (drop (length (out w)) (out (onWifiConnected w))) =
     (case connectionEstablishedCallback (obj w) of None \<Rightarrow> [] | Some cb \<Rightarrow> [Invoke cb])"
  "filter is_invoke (drop (length (out w)) (out (onWifiDisconnected p w))) =
     (case connectionLostCallback (obj w) of None \<Rightarrow> [] | Some cb \<Rightarrow> [Invoke cb])"
proof -
  show "filter is_invoke (drop (length (out w)) (out (beginConnection p w))) = []"
    by (cases "nonempty_cstr (wifiSsid (obj w))"; cases "isConnected w")
       (simp_all add: beginConnection_cases reset_out apply_hostname_def
        split: option.split platform.split)
  show "filter is_invoke (drop (length (out w)) (out (connect w))) = []"
    by (cases "nonempty_cstr (wifiSsid (obj w))"; cases "isConnected w")
       (simp_all add: connect_cases)
  show "filter is_invoke (drop (length (out w)) (out (disconnect p w))) = []"
    by (simp add: disconnect_def reset_out split: platform.split)
  show "filter is_invoke (drop (length (out w)) (out (onWifiConnected w))) =
     (case connectionEstablishedCallback (obj w) of None \<Rightarrow> [] | Some cb \<Rightarrow> [Invoke cb])"
    by (simp add: onWifiConnected_def Let_def split: option.split)
  show "filter is_invoke (drop (length (out w)) (out (onWifiDisconnected p w))) =
     (case connectionLostCallback (obj w) of None \<Rightarrow> [] | Some cb \<Rightarrow> [Invoke cb])"
    by (simp add: onWifiDisconnected_def Let_def reset_out split: option.split platform.split)
qed

lemma step_invokes:
  assumes st: "step p e s = Inr s1"
  shows "length (filter is_invoke (new_effects s s1)) \<le> (if e = GotIp \<or> e = StaDisconnected then 1 else 0)"
proof (cases e)
  case GotIp
  with st driver_event_Inr [of radio_got_ip onWifiConnected s s1]
  show ?thesis using invokes_methods(4) [of "(cur s)\<lparr>wifi := radio_got_ip (wifi (cur s))\<rparr>"]
    by (auto simp: new_effects_def split: option.splits)
next
  case StaDisconnected
  with st driver_event_Inr [of radio_sta_disconnected "onWifiDisconnected p" s s1]
  show ?thesis using invokes_methods(5) [of "(cur s)\<lparr>wifi := radio_sta_disconnected (wifi (cur s))\<rparr>" p]
    by (auto simp: new_effects_def split: option.splits)
next
  case FirstTimerExpires
  with st show ?thesis
    using invokes_methods(1) [of "update_obj (\<lambda>h. h\<lparr>firstConnectionTimer := ticker_stop (firstConnectionTimer h)\<rparr>) (cur s)" p]
    by (auto simp: new_effects_def firstConnectionTimer_expires_def)
next
  case ConnectTimerExpires
  with st show ?thesis
    using invokes_methods(2) [of "update_obj (\<lambda>h. h\<lparr>wifiConnectTimer := ticker_stop (wifiConnectTimer h)\<rparr>) (cur s)"]
    by (auto simp: new_effects_def wifiConnectTimer_expires_def)
next
  case UserBeginConnection
  with st show ?thesis using invokes_methods(1) [of "cur s" p] by (auto simp: new_effects_def)
next
  case UserDisconnect
  with st show ?thesis using invokes_methods(3) [of "cur s" p] by (auto simp: new_effects_def)
next
  case UserDestroy
  with st show ?thesis by (auto simp: new_effects_def destroy_def)
qed (use st in \<open>auto simp: new_effects_def setWifiInfos_def setHostname_def setAutoReconnect_def
     onConnectionEstablished_def onConnectionLost_def enableDebuggingMessages_def\<close>)

lemma unset_step_quiet:
  assumes st: "step p e s = Inr s1" and u: "\<not> nonempty_cstr (wifiSsid (obj (cur s)))"
  shows "quiet (cur s) (cur s1)"
proof (cases "e = ConnectTimerExpires")
  case True
  let ?w = "update_obj (\<lambda>h. h\<lparr>wifiConnectTimer := ticker_stop (wifiConnectTimer h)\<rparr>) (cur s)"
  from st True have "s1 = on_world wifiConnectTimer_expires s" by auto
  then have "cur s1 = connect ?w" by (simp add: wifiConnectTimer_expires_def)
  moreover have "quiet ?w (connect ?w)" using u by (intro quiet_methods(5)) simp
  ultimately show ?thesis using quiet_trans [OF quiet_prims(4) [OF quiet_refl]] by simp
next
  case False
  with st show ?thesis by (rule step_quiet)
qed

lemma quiet_new_begins: "quiet (cur s) (cur s1) \<Longrightarrow> filter is_begin (new_effects s s1) = []"
  by (auto simp: quiet_def new_effects_def filter_empty_conv list_ex_iff)

lemma step_begins:
  assumes st: "step p e s = Inr s1"
  shows "length (filter is_begin (new_effects s s1)) \<le> (if e = ConnectTimerExpires then 1 else 0)"
proof (cases "e = ConnectTimerExpires")
  case False
  with st have "quiet (cur s) (cur s1)" by (rule step_quiet)
  with False show ?thesis by (simp add: quiet_new_begins)
next
  case True
  let ?w = "update_obj (\<lambda>h. h\<lparr>wifiConnectTimer := ticker_stop (wifiConnectTimer h)\<rparr>) (cur s)"
  from st True have "s1 = on_world wifiConnectTimer_expires s" by auto
  then have s1: "cur s1 = connect ?w" by (simp add: wifiConnectTimer_expires_def)
  show ?thesis
  proof (cases "nonempty_cstr (wifiSsid (obj ?w)) \<and> \<not> isConnected ?w")
    case go: True
    then have "new_effects s s1 =
        (if enableSerialLogs (obj (cur s))
         then [Serial (MsgConnecting (cstr_val (wifiSsid (obj (cur s)))))] else [])
        @ [Call (Begin (cstr_val (wifiSsid (obj (cur s))))
             (if nonempty_cstr (wifiPassword (obj (cur s)))
              then Some (cstr_val (wifiPassword (obj (cur s)))) else None))]"
      using s1 by (simp add: connect_cases(3) new_effects_def radio_call_def emit_def serial_log_def
                             update_obj_def)
    with True show ?thesis by simp
  next
    case False
    then have "quiet ?w (connect ?w)" by (intro quiet_methods(5)) blast
    with s1 have "quiet (cur s) (cur s1)"
      using quiet_trans [OF quiet_prims(4) [OF quiet_refl]] by simp
    then show ?thesis by (simp add: quiet_new_begins)
  qed
qed

text \<open>
  C21. The auto-connect path of spec section 8 for every network name, key, hostname,
  target and driver state that is not connected: the constructor arms the
  first-connection timer; when it expires the connect timer is armed and nothing has
  joined yet; when that expires the handler requests exactly one join, of the configured
  network, with the key exactly when it is a non-empty C string.
\<close>

theorem autoconnect_joins:
  assumes ssid: "nonempty_cstr ssid" and r: "status r \<noteq> WL_CONNECTED"
  shows "armed (firstConnectionTimer (obj (cur (start p ssid pw hn True r))))
   \<and> (case run p [FirstTimerExpires] (start p ssid pw hn True r) of
        Some (Inr s1) \<Rightarrow> \<not> armed (firstConnectionTimer (obj (cur s1)))
                         \<and> armed (wifiConnectTimer (obj (cur s1)))
                         \<and> filter is_begin (out (cur s1)) = []
      | _ \<Rightarrow> False)
   \<and> (case run p [FirstTimerExpires, ConnectTimerExpires] (start p ssid pw hn True r) of
        Some (Inr s2) \<Rightarrow> filter is_begin (out (cur s2)) =
                         [Call (Begin (cstr_val ssid)
                            (if nonempty_cstr pw then Some (cstr_val pw) else None))]
      | _ \<Rightarrow> False)"
  using ssid r
  by (cases p; cases hn) (simp_all add: sys_eval)

theorem autoconnect_joins_witness:
  "case run ESP8266 [FirstTimerExpires, ConnectTimerExpires]
          (start ESP8266 (Some ''home'') (Some []) (Some ''esp'') True radio_boot) of
     Some (Inr s2) \<Rightarrow> filter is_begin (out (cur s2)) = [Call (Begin ''home'' None)]
   | _ \<Rightarrow> False"
proof -
  have "nonempty_cstr (Some ''home'')" and "status radio_boot \<noteq> WL_CONNECTED"
    by (simp_all add: radio_boot_def)
  from autoconnect_joins [OF this, of ESP8266 "Some []" "Some ''esp''"]
  have c: "case run ESP8266 [FirstTimerExpires, ConnectTimerExpires]
          (start ESP8266 (Some ''home'') (Some []) (Some ''esp'') True radio_boot) of
     Some (Inr s2) \<Rightarrow> filter is_begin (out (cur s2)) =
        [Call (Begin (cstr_val (Some ''home''))
           (if nonempty_cstr (Some []) then Some (cstr_val (Some [])) else None))]
   | _ \<Rightarrow> False"
    by (rule conjunct2 [THEN conjunct2])
  have h1: "cstr_val (Some ''home'') = ''home''" by (simp add: cstr_val_def c_string_def)
  have h2: "nonempty_cstr (Some []) = False" by simp
  from c show ?thesis by (simp only: h1 h2 if_False)
qed

text \<open>
  C22. Without a network name the handler never joins: along every run that does not
  call \<open>setWifiInfos\<close>, from a state whose SSID is null or empty, no \<open>WiFi.begin\<close> is
  made and the SSID stays unset; \<open>beginConnection\<close> and \<open>_connect\<close> stop at the
  ``not configured'' check of \<open>_canConnectToWifi\<close>.
\<close>

theorem unset_ssid_never_joins:
  assumes "run p es s = Some (Inr s')" and "\<not> nonempty_cstr (wifiSsid (obj (cur s)))"
    and "\<forall>ssid pw. UserSetWifiInfos ssid pw \<notin> set es"
  shows "Call (Begin a b) \<notin> set (new_effects s s') \<and> \<not> nonempty_cstr (wifiSsid (obj (cur s')))"
proof -
  have "quiet (cur s) (cur s') \<and> \<not> nonempty_cstr (wifiSsid (obj (cur s')))"
    using assms
  proof (induction es arbitrary: s)
    case Nil
    then show ?case by (simp add: quiet_refl)
  next
    case (Cons e es)
    from Cons.prems(1) obtain s1 where st: "step p e s = Inr s1"
      and rest: "run p es s1 = Some (Inr s')" by (rule run_Cons_Inr)
    have e: "\<forall>ssid pw. e \<noteq> UserSetWifiInfos ssid pw" using Cons.prems(3) by auto
    have u1: "\<not> nonempty_cstr (wifiSsid (obj (cur s1)))"
      using step_fields(1) [OF st] e Cons.prems(2) by (cases e) auto
    have q1: "quiet (cur s) (cur s1)" by (rule unset_step_quiet [OF st Cons.prems(2)])
    from Cons.IH [OF rest u1] Cons.prems(3)
    have "quiet (cur s1) (cur s') \<and> \<not> nonempty_cstr (wifiSsid (obj (cur s')))" by simp
    with q1 show ?case by (blast intro: quiet_trans)
  qed
  then show ?thesis by (simp add: new_effects_def quiet_no_begin)
qed

theorem unset_ssid_never_joins_witness:
  "Call (Begin [] None) \<notin> set (new_effects (start ESP32 (Some []) None None True radio_boot)
      (on_world (firstConnectionTimer_expires ESP32) (start ESP32 (Some []) None None True radio_boot)))"
proof -
  have r: "run ESP32 [FirstTimerExpires] (start ESP32 (Some []) None None True radio_boot)
      = Some (Inr (on_world (firstConnectionTimer_expires ESP32) (start ESP32 (Some []) None None True radio_boot)))"
    by (simp add: sys_eval)
  have "\<not> nonempty_cstr (wifiSsid (obj (cur (start ESP32 (Some []) None None True radio_boot))))"
    by (simp add: sys_eval)
  moreover have "\<forall>ssid pw. UserSetWifiInfos ssid pw \<notin> set [FirstTimerExpires]" by simp
  ultimately show ?thesis using unset_ssid_never_joins [OF r] by blast
qed

text \<open>
  C2. A run calls \<open>WiFi.begin\<close> at most once per expiry of the connect timer: every
  join request is paid for by one expiry of the one-second delay, so the handler cannot
  request joins faster than its timer fires, whatever the user and the driver do.
\<close>

theorem begins_bounded_by_connect_expiries:
  assumes "run p es s = Some (Inr s')"
  shows "length (filter is_begin (new_effects s s')) \<le> count_list es ConnectTimerExpires"
  using assms
proof (induction es arbitrary: s)
  case Nil
  then show ?case by (simp add: new_effects_def)
next
  case (Cons e es)
  from Cons.prems obtain s1 where st: "step p e s = Inr s1"
    and rest: "run p es s1 = Some (Inr s')" by (rule run_Cons_Inr)
  from step_grows [OF st] obtain ys where ys: "out (cur s1) = out (cur s) @ ys"
    by (auto simp: grows_def)
  from run_out_prefix [OF rest] obtain xs where xs: "out (cur s') = out (cur s1) @ xs" by blast
  have "new_effects s s' = new_effects s s1 @ new_effects s1 s'"
    by (rule new_effects_split [OF ys xs])
  with step_begins [OF st] Cons.IH [OF rest] show ?case by auto
qed

theorem begins_bounded_by_connect_expiries_witness:
  "length (filter is_begin (new_effects (start ESP32 (Some ''net'') None None True radio_boot)
      (on_world wifiConnectTimer_expires (on_world (firstConnectionTimer_expires ESP32)
         (start ESP32 (Some ''net'') None None True radio_boot))))) \<le> 1"
proof -
  let ?s0 = "start ESP32 (Some ''net'') None None True radio_boot"
  have r: "run ESP32 [FirstTimerExpires, ConnectTimerExpires] ?s0
      = Some (Inr (on_world wifiConnectTimer_expires (on_world (firstConnectionTimer_expires ESP32) ?s0)))"
    by (simp add: sys_eval)
  from begins_bounded_by_connect_expiries [OF r] show ?thesis by simp
qed

text \<open>
  C23. User callbacks run only on driver events: in every run the number of callback
  invocations is at most the number of ``got IP'' and ``station disconnected'' events;
  no user call and no timer expiry, \<open>disconnect()\<close> included, invokes a callback.
\<close>

theorem invokes_bounded_by_driver_events:
  assumes "run p es s = Some (Inr s')"
  shows "length (filter is_invoke (new_effects s s'))
           \<le> count_list es GotIp + count_list es StaDisconnected"
  using assms
proof (induction es arbitrary: s)
  case Nil
  then show ?case by (simp add: new_effects_def)
next
  case (Cons e es)
  from Cons.prems obtain s1 where st: "step p e s = Inr s1"
    and rest: "run p es s1 = Some (Inr s')" by (rule run_Cons_Inr)
  from step_grows [OF st] obtain ys where ys: "out (cur s1) = out (cur s) @ ys"
    by (auto simp: grows_def)
  from run_out_prefix [OF rest] obtain xs where xs: "out (cur s') = out (cur s1) @ xs" by blast
  have "new_effects s s' = new_effects s s1 @ new_effects s1 s'"
    by (rule new_effects_split [OF ys xs])
  with step_invokes [OF st] Cons.IH [OF rest] show ?case by auto
qed

theorem invokes_bounded_by_driver_events_witness:
  "length (filter is_invoke (new_effects
      (start ESP32 (Some ''net'') None None False (radio_boot\<lparr>status := WL_CONNECTED\<rparr>))
      (on_world (disconnect ESP32) (on_world (onConnectionLost (Some 3))
         (start ESP32 (Some ''net'') None None False (radio_boot\<lparr>status := WL_CONNECTED\<rparr>)))))) \<le> 0"
proof -
  let ?s0 = "start ESP32 (Some ''net'') None None False (radio_boot\<lparr>status := WL_CONNECTED\<rparr>)"
  have r: "run ESP32 [UserOnConnectionLost (Some 3), UserDisconnect] ?s0
      = Some (Inr (on_world (disconnect ESP32) (on_world (onConnectionLost (Some 3)) ?s0)))"
    by (simp add: on_world_def)
  from invokes_bounded_by_driver_events [OF r] show ?thesis by simp
qed

text \<open>
  C25. The spec's invariant ``at most one timer is armed'' does not
  hold: \<open>_onWifiDisconnected\<close> schedules through \<open>_scheduleConnection\<close>, which arms the
  connect timer without stopping the first-connection timer. A disassociation report
  during the first three seconds (the driver rejoining a stored network at boot) leaves
  both armed, on either target.
\<close>

theorem both_timers_armed_reachable:
  "\<exists>s. reachable p s \<and> armed (firstConnectionTimer (obj (cur s)))
                     \<and> armed (wifiConnectTimer (obj (cur s)))"
proof -
  let ?r = "radio_boot\<lparr>config := Some (''net'', Some ''pw''), attempting := True\<rparr>"
  let ?s0 = "start p (Some ''net'') (Some ''pw'') None True ?r"
  have r0: "reachable p ?s0" by (rule reachable.init) (simp add: radio_wf_def radio_boot_def)
  obtain s1 where run: "run p [StaDisconnected] ?s0 = Some (Inr s1)"
    by (cases p) (simp_all add: sys_eval)
  have "armed (firstConnectionTimer (obj (cur s1))) \<and> armed (wifiConnectTimer (obj (cur s1)))"
    using run by (cases p) (auto simp: sys_eval onWifiDisconnected_def)
  with run_reachable [OF run r0] show ?thesis by blast
qed

text \<open>
  C26. The spec promises that \<open>beginConnection\<close> while
  Connecting issues no second connect request; \<open>_canConnectToWifi\<close> only rejects the
  connected status, so a second \<open>beginConnection\<close> during a join in progress resets
  the radio, and the connect timer issues a second join request.
\<close>

theorem second_connect_while_connecting:
  "(case run p [UserBeginConnection, ConnectTimerExpires]
          (start p (Some ''net'') (Some ''pw'') None False radio_boot) of
      Some (Inr s1) \<Rightarrow> attempting (wifi (cur s1)) \<and> \<not> isConnected (cur s1)
    | _ \<Rightarrow> False)
   \<and> (case run p [UserBeginConnection, ConnectTimerExpires, UserBeginConnection, ConnectTimerExpires]
          (start p (Some ''net'') (Some ''pw'') None False radio_boot) of
      Some (Inr s2) \<Rightarrow> filter is_begin (out (cur s2))
                        = [Call (Begin ''net'' (Some ''pw'')), Call (Begin ''net'' (Some ''pw''))]
    | _ \<Rightarrow> False)"
  by (cases p) (simp_all add: sys_eval)

text \<open>
  C27. On ESP32 the destructor deletes the timers but never removes the
  two handlers registered with \<open>WiFi.onEvent\<close>, whose closures hold \<open>this\<close>: a
  driver event after destruction runs a handler on the destroyed object.
\<close>

theorem esp32_use_after_free:
  "reachable ESP32 (start ESP32 (Some ''net'') (Some ''pw'') None False (radio_boot\<lparr>status := WL_CONNECTED\<rparr>))
   \<and> run ESP32 [UserDestroy, StaDisconnected]
       (start ESP32 (Some ''net'') (Some ''pw'') None False (radio_boot\<lparr>status := WL_CONNECTED\<rparr>))
     = Some (Inl UseAfterFree)"
proof
  show "reachable ESP32 (start ESP32 (Some ''net'') (Some ''pw'') None False (radio_boot\<lparr>status := WL_CONNECTED\<rparr>))"
    by (rule reachable.init) (simp add: radio_wf_def radio_boot_def)
  show "run ESP32 [UserDestroy, StaDisconnected]
       (start ESP32 (Some ''net'') (Some ''pw'') None False (radio_boot\<lparr>status := WL_CONNECTED\<rparr>))
     = Some (Inl UseAfterFree)"
    by (simp add: sys_eval)
qed

end
